(* ===== verification/Prelude.thy ===== *)
theory Prelude
  imports Main "HOL-Library.AList"
begin

text \<open>
  Shared vocabulary of the ShinySurveyJS development. A JavaScript \<open>Map\<close>
  (the answer store \<open>questionValues\<close> of \<open>src/www/survey.js\<close>) and the
  value hash of a survey are association lists: \<open>Map.set\<close> is
  \<open>AList.update\<close> (an existing key keeps its place, a new key is appended),
  \<open>Map.get\<close> is \<open>map_of\<close>, and \<open>Map.forEach\<close> walks the list in order.
  The lemmas below are the generic facts on these lists that the component
  theories share; the collection \<open>jsmap_simps\<close> gathers them for
  \<open>simp add:\<close>.
\<close>

named_theorems jsmap_simps "lookup and key facts of association lists used as JS maps"

type_synonym 'v jsmap = "(string \<times> 'v) list"

abbreviation map_keys :: "'v jsmap \<Rightarrow> string set" where
  "map_keys m \<equiv> fst ` set m"

lemma map_of_update_eq [simp, jsmap_simps]:
  "map_of (AList.update k v m) k' = (if k' = k then Some v else map_of m k')"
  by (simp add: update_conv')

lemma map_of_delete_eq [simp, jsmap_simps]:
  "map_of (AList.delete k m) k' = (if k' = k then None else map_of m k')"
  by (simp add: delete_conv')

lemma map_keys_update [simp, jsmap_simps]:
  "map_keys (AList.update k v m) = insert k (map_keys m)"
  by (simp add: dom_update)

lemma distinct_keys_update [simp, jsmap_simps]:
  "distinct (map fst m) \<Longrightarrow> distinct (map fst (AList.update k v m))"
  by (rule distinct_update)

lemma map_of_None_iff [jsmap_simps]:
  "(map_of m k = None) \<longleftrightarrow> k \<notin> map_keys m"
  by (simp add: map_of_eq_None_iff)

text \<open>Updating a key that is already present does not change the key set.\<close>

lemma map_keys_update_present [jsmap_simps]:
  "k \<in> map_keys m \<Longrightarrow> map_keys (AList.update k v m) = map_keys m"
  by auto

end
