(* ===== verification/Json.thy ===== *)
theory Json
  imports Prelude
begin

text \<open>
  JSON values as the browser code sees them, and the two JavaScript builtins
  the synchronization engine relies on for them: truthiness with property
  access (\<open>if (surveyJSON.title)\<close>, \<open>lastLoadedSurveyJSON && \<dots>\<close>) and
  \<open>JSON.stringify\<close>, which \<open>areJSONsEqual\<close> (\<open>src/www/survey.js\<close>,
  lines 6--8) uses to decide whether a definition changed. Objects keep their
  members in insertion order, so two objects that differ only in key order
  serialize differently, as they do in the browser. Numbers are integers
  (survey definitions use numbers only as counts and limits); a string is a
  list of bytes.
\<close>

datatype json =
    JNull
  | JBool bool
  | JNum int
  | JStr string
  | JArr "json list"
  | JObj "(string \<times> json) list"

subsection \<open>Truthiness and property access\<close>

fun js_truthy :: "json \<Rightarrow> bool" where
  "js_truthy JNull = False"
| "js_truthy (JBool b) = b"
| "js_truthy (JNum n) = (n \<noteq> 0)"
| "js_truthy (JStr s) = (s \<noteq> [])"
| "js_truthy (JArr xs) = True"
| "js_truthy (JObj kvs) = True"

text \<open>
  \<open>o.k\<close> on a value that is not \<open>null\<close>: the member of an object, and
  \<open>undefined\<close> (here \<open>None\<close>) for a missing member or a primitive. Reading a
  property of \<open>null\<close> throws; the callers test for \<open>JNull\<close> first.
\<close>

definition js_get :: "json \<Rightarrow> string \<Rightarrow> json option" where
  "js_get j k = (case j of JObj kvs \<Rightarrow> map_of kvs k | _ \<Rightarrow> None)"

subsection \<open>Number and string conversion\<close>

fun nat_digits :: "nat \<Rightarrow> string" where
  "nat_digits n =
     (if n < 10 then [char_of (48 + n)]
      else nat_digits (n div 10) @ [char_of (48 + n mod 10)])"

declare nat_digits.simps [simp del]

definition int_string :: "int \<Rightarrow> string" where
  "int_string i =
     (if i < 0 then CHR ''-'' # nat_digits (nat (- i)) else nat_digits (nat i))"

fun join_with :: "char \<Rightarrow> string list \<Rightarrow> string" where
  "join_with c [] = []"
| "join_with c [x] = x"
| "join_with c (x # y # ys) = x @ c # join_with c (y # ys)"

text \<open>
  \<open>ToString\<close> of a value, as an assignment to \<open>element.value\<close> or to
  \<open>document.title\<close> performs it; \<open>None\<close> is \<open>undefined\<close>. Arrays join
  their elements with commas, writing \<open>null\<close> elements as the empty string.
\<close>

fun js_to_string :: "json \<Rightarrow> string" where
  "js_to_string JNull = ''null''"
| "js_to_string (JBool b) = (if b then ''true'' else ''false'')"
| "js_to_string (JNum n) = int_string n"
| "js_to_string (JStr s) = s"
| "js_to_string (JArr xs) =
     join_with CHR '','' (map (\<lambda>x. if x = JNull then [] else js_to_string x) xs)"
| "js_to_string (JObj kvs) = ''[object Object]''"

definition js_string_of :: "json option \<Rightarrow> string" where
  "js_string_of v = (case v of None \<Rightarrow> ''undefined'' | Some j \<Rightarrow> js_to_string j)"

subsection \<open>JSON.stringify\<close>

definition hex_digit :: "nat \<Rightarrow> char" where
  "hex_digit n = (if n < 10 then char_of (48 + n) else char_of (87 + n))"

text \<open>
  \<open>QuoteJSONString\<close>: the quote and the backslash are escaped, the control
  characters below 0x20 become \<open>\b \t \n \f \r\<close> or \<open>\u00xx\<close>, every other
  byte is copied.
\<close>

definition esc_char :: "char \<Rightarrow> string" where
  "esc_char c =
     (if c = CHR 0x22 then [CHR 0x5C, CHR 0x22]
      else if c = CHR 0x5C then [CHR 0x5C, CHR 0x5C]
      else if c = CHR 0x08 then [CHR 0x5C, CHR ''b'']
      else if c = CHR 0x09 then [CHR 0x5C, CHR ''t'']
      else if c = CHR 0x0A then [CHR 0x5C, CHR ''n'']
      else if c = CHR 0x0C then [CHR 0x5C, CHR ''f'']
      else if c = CHR 0x0D then [CHR 0x5C, CHR ''r'']
      else if of_char c < (32::nat)
      then [CHR 0x5C, CHR ''u'', CHR ''0'', CHR ''0'',
            hex_digit (of_char c div 16), hex_digit (of_char c mod 16)]
      else [c])"

definition quote_json :: "string \<Rightarrow> string" where
  "quote_json s = CHR 0x22 # concat (map esc_char s) @ [CHR 0x22]"

fun json_stringify :: "json \<Rightarrow> string" where
  "json_stringify JNull = ''null''"
| "json_stringify (JBool b) = (if b then ''true'' else ''false'')"
| "json_stringify (JNum n) = int_string n"
| "json_stringify (JStr s) = quote_json s"
| "json_stringify (JArr xs) =
     CHR ''['' # join_with CHR '','' (map json_stringify xs) @ '']''"
| "json_stringify (JObj kvs) =
     CHR ''{'' # join_with CHR '',''
        (map (\<lambda>(k, v). quote_json k @ CHR '':'' # json_stringify v) kvs) @ ''}''"

subsection \<open>The definition change detector\<close>

definition areJSONsEqual :: "json \<Rightarrow> json \<Rightarrow> bool" where
  "areJSONsEqual json1 json2 \<longleftrightarrow> json_stringify json1 = json_stringify json2"

text \<open>
  Well-formed values are those a parse can produce: every object has distinct
  member names (a duplicate name in JSON text keeps the last value).
\<close>

fun json_wf :: "json \<Rightarrow> bool" where
  "json_wf (JArr xs) = list_all json_wf xs"
| "json_wf (JObj kvs) = (distinct (map fst kvs) \<and> list_all (\<lambda>(k, v). json_wf v) kvs)"
| "json_wf _ = True"

end
