(* ===== verification/JsonParse.thy ===== *)
theory JsonParse
  imports Json
begin

text \<open>
  \<open>JSON.parse\<close>, which \<open>initializeSurvey\<close> (\<open>src/www/survey.js\<close>, line 56)
  applies to a definition that arrives as text. It is a browser builtin, so
  this theory models it from its specification (ECMA-404): whitespace between
  tokens, the literals, integers without leading zeros, strings with the
  escapes \<open>\" \\ \/ \b \f \n \r \t \uXXXX\<close> and no raw control characters,
  arrays and objects, where a repeated member name keeps its first position
  and its last value. A failure is \<open>None\<close> (the builtin throws
  \<open>SyntaxError\<close>). Numbers with a fraction or an exponent are outside the
  integer model and are rejected. The descent is bounded by fuel; one more unit
  than the length of the text is always enough, because every nested call
  consumes at least one character.
\<close>

definition is_ws :: "char \<Rightarrow> bool" where
  "is_ws c \<longleftrightarrow> c = CHR '' '' \<or> c = CHR 0x09 \<or> c = CHR 0x0A \<or> c = CHR 0x0D"

fun skip_ws :: "string \<Rightarrow> string" where
  "skip_ws [] = []"
| "skip_ws (c # cs) = (if is_ws c then skip_ws cs else c # cs)"

definition is_json_digit :: "char \<Rightarrow> bool" where
  "is_json_digit c \<longleftrightarrow> (48::nat) \<le> of_char c \<and> of_char c \<le> (57::nat)"

definition digits_value :: "string \<Rightarrow> nat" where
  "digits_value ds = foldl (\<lambda>n d. 10 * n + (of_char d - 48)) 0 ds"

definition hex_value :: "char \<Rightarrow> nat option" where
  "hex_value c =
     (let n = of_char c in
      if 48 \<le> n \<and> n \<le> 57 then Some (n - 48)
      else if 97 \<le> n \<and> n \<le> 102 then Some (n - 87)
      else if 65 \<le> n \<and> n \<le> 70 then Some (n - 55)
      else None)"

text \<open>A code unit of a \<open>\u\<close> escape, written as UTF-8 bytes.\<close>

definition utf8_bytes :: "nat \<Rightarrow> string" where
  "utf8_bytes cp =
     (if cp < 128 then [char_of cp]
      else if cp < 2048 then [char_of (192 + cp div 64), char_of (128 + cp mod 64)]
      else [char_of (224 + cp div 4096), char_of (128 + (cp div 64) mod 64),
            char_of (128 + cp mod 64)])"

definition simple_escape :: "char \<Rightarrow> char option" where
  "simple_escape e =
     (if e = CHR 0x22 then Some (CHR 0x22)
      else if e = CHR 0x5C then Some (CHR 0x5C)
      else if e = CHR ''/'' then Some (CHR ''/'')
      else if e = CHR ''b'' then Some (CHR 0x08)
      else if e = CHR ''f'' then Some (CHR 0x0C)
      else if e = CHR ''n'' then Some (CHR 0x0A)
      else if e = CHR ''r'' then Some (CHR 0x0D)
      else if e = CHR ''t'' then Some (CHR 0x09)
      else None)"

text \<open>The body of a string literal, after its opening quote.\<close>

fun parse_chars :: "string \<Rightarrow> (string \<times> string) option" where
  "parse_chars [] = None"
| "parse_chars (c # cs) =
     (if c = CHR 0x22 then Some ([], cs)
      else if c = CHR 0x5C then
        (case cs of
           [] \<Rightarrow> None
         | e # r \<Rightarrow>
             (if e = CHR ''u'' then
                (case r of
                   h1 # h2 # h3 # h4 # r' \<Rightarrow>
                     (case (hex_value h1, hex_value h2, hex_value h3, hex_value h4) of
                        (Some a, Some b, Some c, Some d) \<Rightarrow>
                          map_option (\<lambda>(s, rest). (utf8_bytes (((a * 16 + b) * 16 + c) * 16 + d) @ s, rest))
                            (parse_chars r')
                      | _ \<Rightarrow> None)
                 | _ \<Rightarrow> None)
              else
                (case simple_escape e of
                   None \<Rightarrow> None
                 | Some x \<Rightarrow> map_option (\<lambda>(s, rest). (x # s, rest)) (parse_chars r))))
      else if of_char c < (32::nat) then None
      else map_option (\<lambda>(s, rest). (c # s, rest)) (parse_chars cs))"

text \<open>An integer: an optional minus, then \<open>0\<close> or a digit sequence not starting with \<open>0\<close>.\<close>

definition parse_int :: "string \<Rightarrow> (int \<times> string) option" where
  "parse_int s =
     (let neg = (s \<noteq> [] \<and> hd s = CHR ''-'');
          s1 = (if neg then tl s else s);
          ds = (if s1 \<noteq> [] \<and> hd s1 = CHR ''0'' then [CHR ''0''] else takeWhile is_json_digit s1);
          rest = drop (length ds) s1
      in if ds = [] \<or> (rest \<noteq> [] \<and> (hd rest = CHR ''.'' \<or> hd rest = CHR ''e'' \<or> hd rest = CHR ''E''))
         then None
         else Some (if neg then - int (digits_value ds) else int (digits_value ds), rest))"

definition parse_literal :: "string \<Rightarrow> (json \<times> string) option" where
  "parse_literal s =
     (if take 4 s = ''true'' then Some (JBool True, drop 4 s)
      else if take 5 s = ''false'' then Some (JBool False, drop 5 s)
      else if take 4 s = ''null'' then Some (JNull, drop 4 s)
      else None)"

fun parse_value :: "nat \<Rightarrow> string \<Rightarrow> (json \<times> string) option"
and parse_elems :: "nat \<Rightarrow> json list \<Rightarrow> string \<Rightarrow> (json \<times> string) option"
and parse_members :: "nat \<Rightarrow> json jsmap \<Rightarrow> string \<Rightarrow> (json \<times> string) option" where
  "parse_value 0 s = None"
| "parse_value (Suc f) s =
     (case skip_ws s of
        [] \<Rightarrow> None
      | c # cs \<Rightarrow>
          (if c = CHR ''{'' then
             (case skip_ws cs of
                d # r \<Rightarrow> if d = CHR ''}'' then Some (JObj [], r) else parse_members f [] cs
              | [] \<Rightarrow> None)
           else if c = CHR ''['' then
             (case skip_ws cs of
                d # r \<Rightarrow> if d = CHR '']'' then Some (JArr [], r) else parse_elems f [] cs
              | [] \<Rightarrow> None)
           else if c = CHR 0x22 then map_option (\<lambda>(str, r). (JStr str, r)) (parse_chars cs)
           else if c = CHR ''-'' \<or> is_json_digit c then map_option (\<lambda>(n, r). (JNum n, r)) (parse_int (c # cs))
           else parse_literal (c # cs)))"
| "parse_elems 0 acc s = None"
| "parse_elems (Suc f) acc s =
     (case parse_value f s of
        None \<Rightarrow> None
      | Some (v, r) \<Rightarrow>
          (case skip_ws r of
             d # r' \<Rightarrow>
               if d = CHR '','' then parse_elems f (acc @ [v]) r'
               else if d = CHR '']'' then Some (JArr (acc @ [v]), r')
               else None
           | [] \<Rightarrow> None))"
| "parse_members 0 acc s = None"
| "parse_members (Suc f) acc s =
     (case skip_ws s of
        q # cs \<Rightarrow>
          (if q \<noteq> CHR 0x22 then None
           else
             (case parse_chars cs of
                None \<Rightarrow> None
              | Some (k, r) \<Rightarrow>
                  (case skip_ws r of
                     col # r' \<Rightarrow>
                       (if col \<noteq> CHR '':'' then None
                        else
                          (case parse_value f r' of
                             None \<Rightarrow> None
                           | Some (v, r'') \<Rightarrow>
                               (case skip_ws r'' of
                                  d # r3 \<Rightarrow>
                                    if d = CHR '','' then parse_members f (AList.update k v acc) r3
                                    else if d = CHR ''}'' then Some (JObj (AList.update k v acc), r3)
                                    else None
                                | [] \<Rightarrow> None)))
                   | [] \<Rightarrow> None)))
      | [] \<Rightarrow> None)"

definition json_parse :: "string \<Rightarrow> json option" where
  "json_parse s =
     (case parse_value (Suc (length s)) s of
        None \<Rightarrow> None
      | Some (v, r) \<Rightarrow> if skip_ws r = [] then Some v else None)"

text \<open>
  Where the integer model of numbers can differ from the builtin: a digit
  followed by \<open>.\<close>, \<open>e\<close> or \<open>E\<close>. A text without such a pair has no
  number with a fraction or an exponent, so on it \<open>json_parse\<close> fails exactly
  when \<open>JSON.parse\<close> throws.
\<close>

fun fraction_mark :: "string \<Rightarrow> bool" where
  "fraction_mark (c # d # r) =
     ((is_json_digit c \<and> (d = CHR ''.'' \<or> d = CHR ''e'' \<or> d = CHR ''E'')) \<or> fraction_mark (d # r))"
| "fraction_mark _ = False"

end
