(* ===== verification/FormEngine.thy ===== *)
theory FormEngine
  imports JsonParse
begin

text \<open>
  The Form Engine (the SurveyJS library, \<open>Survey.Model\<close>) is an external
  collaborator of \<open>src/www/survey.js\<close>; this theory states the part of its
  contract the page code uses. A survey instance holds its questions (name,
  type, choices, the separately tracked display value, and the DOM control the
  code reaches through \<open>textboxEl\<close>, \<open>dropdownEl\<close> or a
  \<open>[name=\<dots>]\<close> lookup), the value hash that \<open>question.value\<close> reads and
  writes by question name, the event handlers registered on it, and a count
  of renders. \<open>survey_of_json\<close> is \<open>new Survey.Model(json)\<close>: it collects the
  question elements of the root \<open>questions\<close> and \<open>elements\<close> arrays and of
  each page's \<open>elements\<close>, keeps those with a string \<open>name\<close> and \<open>type\<close>, and
  starts with no values and no handlers.
\<close>

datatype handler = OnComplete | OnValueChanged | OnAfterRenderQuestion

record choice_item =
  cvalue :: json
  ctext :: json

text \<open>The DOM input element of a question, with its value, if there is one.\<close>

datatype control = NoControl | Control string

record question =
  qname :: string
  qtype :: string
  qchoices :: "choice_item list"
  qdisplay :: "json option"
  qcontrol :: control

record survey_model =
  sid :: nat
  questions :: "question list"
  sdata :: "json jsmap"
  handlers :: "handler list"
  renders :: nat
  completed :: bool

subsection \<open>Construction from a definition\<close>

definition choice_of_json :: "json \<Rightarrow> choice_item" where
  "choice_of_json j =
     (case j of
        JObj kvs \<Rightarrow>
          (case map_of kvs ''value'' of
             Some v \<Rightarrow> \<lparr>cvalue = v, ctext = (case map_of kvs ''text'' of Some t \<Rightarrow> t | None \<Rightarrow> v)\<rparr>
           | None \<Rightarrow> \<lparr>cvalue = j, ctext = j\<rparr>)
      | _ \<Rightarrow> \<lparr>cvalue = j, ctext = j\<rparr>)"

definition question_of_json :: "json \<Rightarrow> question option" where
  "question_of_json e =
     (case (js_get e ''name'', js_get e ''type'') of
        (Some (JStr n), Some (JStr t)) \<Rightarrow>
          Some \<lparr>qname = n, qtype = t,
                qchoices = (case js_get e ''choices'' of
                              Some (JArr cs) \<Rightarrow> map choice_of_json cs
                            | _ \<Rightarrow> []),
                qdisplay = None, qcontrol = Control []\<rparr>
      | _ \<Rightarrow> None)"

definition elements_of :: "json \<Rightarrow> string \<Rightarrow> json list" where
  "elements_of j k = (case js_get j k of Some (JArr xs) \<Rightarrow> xs | _ \<Rightarrow> [])"

definition definition_elements :: "json \<Rightarrow> json list" where
  "definition_elements d =
     elements_of d ''questions'' @ elements_of d ''elements'' @
     concat (map (\<lambda>p. elements_of p ''elements'') (elements_of d ''pages''))"

definition definition_questions :: "json \<Rightarrow> question list" where
  "definition_questions d = List.map_filter question_of_json (definition_elements d)"

definition survey_of_json :: "nat \<Rightarrow> json \<Rightarrow> survey_model" where
  "survey_of_json i d =
     \<lparr>sid = i, questions = definition_questions d,
      sdata = [], handlers = [], renders = 0, completed = False\<rparr>"

definition definition_names :: "json \<Rightarrow> string set" where
  "definition_names d = qname ` set (definition_questions d)"

subsection \<open>Questions and values\<close>

definition getQuestionByName :: "survey_model \<Rightarrow> string \<Rightarrow> question option" where
  "getQuestionByName s n = find (\<lambda>q. qname q = n) (questions s)"

definition question_names :: "survey_model \<Rightarrow> string set" where
  "question_names s = qname ` set (questions s)"

text \<open>\<open>question.value\<close>: the value hash entry of the question's name.\<close>

definition question_value :: "survey_model \<Rightarrow> string \<Rightarrow> json option" where
  "question_value s n = map_of (sdata s) n"

text \<open>Writing \<open>undefined\<close> removes the entry, writing a value sets it.\<close>

definition set_data :: "string \<Rightarrow> json option \<Rightarrow> survey_model \<Rightarrow> survey_model" where
  "set_data n v s =
     s\<lparr>sdata := (case v of None \<Rightarrow> AList.delete n (sdata s) | Some x \<Rightarrow> AList.update n x (sdata s))\<rparr>"

text \<open>A change made through the object \<open>getQuestionByName\<close> returns: the first question of that name.\<close>

fun upd_first :: "string \<Rightarrow> (question \<Rightarrow> question) \<Rightarrow> question list \<Rightarrow> question list" where
  "upd_first n f [] = []"
| "upd_first n f (q # qs) = (if qname q = n then f q # qs else q # upd_first n f qs)"

definition update_question :: "string \<Rightarrow> (question \<Rightarrow> question) \<Rightarrow> survey_model \<Rightarrow> survey_model" where
  "update_question n f s = s\<lparr>questions := upd_first n f (questions s)\<rparr>"

text \<open>A change made through the question object a render hook receives: the \<open>i\<close>-th question.\<close>

definition update_question_at :: "nat \<Rightarrow> (question \<Rightarrow> question) \<Rightarrow> survey_model \<Rightarrow> survey_model" where
  "update_question_at i f s =
     (if i < length (questions s) then s\<lparr>questions := (questions s)[i := f (questions s ! i)]\<rparr> else s)"

subsection \<open>Facts about the engine operations\<close>

named_theorems engine_simps "how the engine operations act on the parts of a survey"

lemma question_value_set_data [simp, engine_simps]:
  "question_value (set_data n v s) m = (if m = n then v else question_value s m)"
  by (cases v) (simp_all add: question_value_def set_data_def)

lemma set_data_fields [simp, engine_simps]:
  "questions (set_data n v s) = questions s"
  "handlers (set_data n v s) = handlers s"
  "sid (set_data n v s) = sid s"
  "completed (set_data n v s) = completed s"
  by (simp_all add: set_data_def)

lemma map_qname_upd_first:
  "(\<And>q. qname (f q) = qname q) \<Longrightarrow> map qname (upd_first n f qs) = map qname qs"
  by (induction qs) auto

lemma length_upd_first [simp]: "length (upd_first n f qs) = length qs"
  by (induction qs) auto

lemma update_question_fields [simp, engine_simps]:
  "sdata (update_question n f s) = sdata s"
  "handlers (update_question n f s) = handlers s"
  "sid (update_question n f s) = sid s"
  "completed (update_question n f s) = completed s"
  "length (questions (update_question n f s)) = length (questions s)"
  by (simp_all add: update_question_def)

lemma update_question_at_fields [simp, engine_simps]:
  "sdata (update_question_at i f s) = sdata s"
  "handlers (update_question_at i f s) = handlers s"
  "sid (update_question_at i f s) = sid s"
  "completed (update_question_at i f s) = completed s"
  "length (questions (update_question_at i f s)) = length (questions s)"
  by (simp_all add: update_question_at_def)

lemma question_names_update_question [simp, engine_simps]:
  "(\<And>q. qname (f q) = qname q) \<Longrightarrow> question_names (update_question n f s) = question_names s"
  by (simp add: question_names_def update_question_def flip: set_map, simp add: map_qname_upd_first)

lemma question_names_update_question_at [simp, engine_simps]:
  "(\<And>q. qname (f q) = qname q) \<Longrightarrow> question_names (update_question_at i f s) = question_names s"
  unfolding question_names_def update_question_at_def
  by (auto simp: set_conv_nth nth_list_update image_iff) (metis nth_list_update_eq nth_list_update_neq)+

lemma question_names_set_data [simp, engine_simps]:
  "question_names (set_data n v s) = question_names s"
  by (simp add: question_names_def)

lemma getQuestionByName_None_iff [engine_simps]:
  "getQuestionByName s n = None \<longleftrightarrow> n \<notin> question_names s"
  by (auto simp: getQuestionByName_def question_names_def find_None_iff)

lemma getQuestionByName_Some [engine_simps]:
  "getQuestionByName s n = Some q \<Longrightarrow> qname q = n \<and> q \<in> set (questions s)"
  by (auto simp: getQuestionByName_def dest: find_Some_iff[THEN iffD1] simp: nth_mem)

lemma getQuestionByName_Some_name: "getQuestionByName s n = Some q \<Longrightarrow> n \<in> question_names s"
  using getQuestionByName_None_iff[of s n] by auto

lemma getQuestionByName_update_question:
  "(\<And>q. qname (f q) = qname q) \<Longrightarrow>
   getQuestionByName (update_question n f s) n = map_option f (getQuestionByName s n)"
proof -
  assume f: "\<And>q. qname (f q) = qname q"
  have "find (\<lambda>q. qname q = n) (upd_first n f qs) = map_option f (find (\<lambda>q. qname q = n) qs)" for qs
    using f by (induction qs) auto
  then show ?thesis by (simp add: getQuestionByName_def update_question_def)
qed

text \<open>The first question of a name is found by the names alone.\<close>

lemma find_qname_map_eq:
  "map qname xs = map qname ys \<Longrightarrow> map g xs = map g ys \<Longrightarrow>
   map_option g (find (\<lambda>q. qname q = n) xs) = map_option g (find (\<lambda>q. qname q = n) ys)"
proof (induction xs arbitrary: ys)
  case Nil
  then show ?case by simp
next
  case (Cons x xs)
  then obtain y ys' where "ys = y # ys'" by (cases ys) auto
  with Cons show ?case by auto
qed

end
