(* ===== verification/Page.thy ===== *)
theory Page
  imports FormEngine
begin

text \<open>
  The state of the page script \<open>src/www/survey.js\<close>: the closure variables of
  the \<open>$(document).ready\<close> callback (\<open>survey\<close>, \<open>lastLoadedSurveyJSON\<close>,
  \<open>questionValues\<close>, lines 2--4) and the parts of the outside world the script
  writes: \<open>document.title\<close>, the instance bound to \<open>#surveyContainer\<close>,
  \<open>Survey.settings.dropdown\<close>, the console, the values sent to the server
  through \<open>Shiny.setInputValue\<close>, the DOM events dispatched, and the exceptions
  that escape a message handler to the Bridge. \<open>built\<close> counts the
  \<open>new Survey.Model\<close> calls, so that a rebuild is visible.

  The three handlers \<open>initializeSurvey\<close> registers on each new instance
  (lines 79--118) are defined here, together with the engine operations that
  run them: assigning \<open>question.value\<close> runs the value-changed handlers of the
  live instance when the value changes, and a render runs the after-render
  handlers once per question.
\<close>

datatype error = SyntaxError | TypeError

datatype log_entry =
    LogInfo string
  | LogWarn string string
  | LogError string
  | LogException string error
  | LogTrace

datatype outmsg = SurveyData string | SelectedChoice string "json option"

datatype dom_event = DomChange string | DomInput string

record page =
  survey :: "survey_model option"
  lastLoadedSurveyJSON :: "json option"
  questionValues :: "json option jsmap"
  doc_title :: "string option"
  container :: "nat option"
  dropdown_settings :: bool
  built :: nat
  console :: "log_entry list"
  outbox :: "outmsg list"
  dom_events :: "dom_event list"
  uncaught :: "error list"

definition init_page :: page where
  "init_page =
     \<lparr>survey = None, lastLoadedSurveyJSON = None, questionValues = [], doc_title = None,
      container = None, dropdown_settings = False, built = 0, console = [], outbox = [],
      dom_events = [], uncaught = []\<rparr>"

definition log :: "log_entry \<Rightarrow> page \<Rightarrow> page" where
  "log e st = st\<lparr>console := console st @ [e]\<rparr>"

definition map_survey :: "(survey_model \<Rightarrow> survey_model) \<Rightarrow> page \<Rightarrow> page" where
  "map_survey f st = st\<lparr>survey := map_option f (survey st)\<rparr>"

subsection \<open>The handlers registered on an instance\<close>

text \<open>\<open>survey.onValueChanged\<close> (lines 84--97): record the answer, send it.\<close>

definition on_value_changed :: "string \<Rightarrow> json option \<Rightarrow> page \<Rightarrow> page" where
  "on_value_changed name v st =
     st\<lparr>questionValues := AList.update name v (questionValues st),
        outbox := outbox st @ [SelectedChoice name v]\<rparr>"

definition fire_value_changed :: "handler list \<Rightarrow> string \<Rightarrow> json option \<Rightarrow> page \<Rightarrow> page" where
  "fire_value_changed hs n v st =
     fold (\<lambda>h st. if h = OnValueChanged then on_value_changed n v st else st) hs st"

text \<open>\<open>question.value = v\<close> on the live instance.\<close>

definition set_question_value :: "string \<Rightarrow> json option \<Rightarrow> page \<Rightarrow> page" where
  "set_question_value n v st =
     (case survey st of
        None \<Rightarrow> st
      | Some s \<Rightarrow>
          (let st' = st\<lparr>survey := Some (set_data n v s)\<rparr>
           in if question_value s n = v then st' else fire_value_changed (handlers s) n v st'))"

text \<open>\<open>survey.onComplete\<close> (lines 79--82): send the whole value hash, serialized.\<close>

definition on_complete :: "page \<Rightarrow> page" where
  "on_complete st =
     (case survey st of
        None \<Rightarrow> st
      | Some s \<Rightarrow> st\<lparr>outbox := outbox st @ [SurveyData (json_stringify (JObj (sdata s)))]\<rparr>)"

text \<open>
  \<open>survey.onAfterRenderQuestion\<close> (lines 100--118), for the \<open>i\<close>-th question:
  a dropdown with a stored value other than \<open>undefined\<close> gets that value and
  display value again, and its control is set and sent a \<open>change\<close> event.
\<close>

text \<open>Lines 105--115: the writes the hook makes for the \<open>i\<close>-th question, named \<open>n\<close>.\<close>

definition dropdown_write :: "nat \<Rightarrow> string \<Rightarrow> json \<Rightarrow> control \<Rightarrow> page \<Rightarrow> page" where
  "dropdown_write i n v c st =
     (let st1 = set_question_value n (Some v) st;
          st2 = map_survey (update_question_at i (\<lambda>q. q\<lparr>qdisplay := Some v\<rparr>)) st1
      in case c of
           NoControl \<Rightarrow> st2
         | Control _ \<Rightarrow>
             (map_survey (update_question_at i (\<lambda>q. q\<lparr>qcontrol := Control (js_to_string v)\<rparr>)) st2)
               \<lparr>dom_events := dom_events st2 @ [DomChange n]\<rparr>)"

definition on_after_render_question :: "nat \<Rightarrow> page \<Rightarrow> page" where
  "on_after_render_question i st =
     (case survey st of
        None \<Rightarrow> st
      | Some s \<Rightarrow>
          (if length (questions s) \<le> i then st
           else
             (let q = questions s ! i in
              if qtype q \<noteq> ''dropdown'' then st
              else
                (case map_of (questionValues st) (qname q) of
                   Some (Some v) \<Rightarrow> dropdown_write i (qname q) v (qcontrol q) st
                 | _ \<Rightarrow> st))))"

definition fire_after_render :: "handler list \<Rightarrow> nat \<Rightarrow> page \<Rightarrow> page" where
  "fire_after_render hs i st =
     fold (\<lambda>h st. if h = OnAfterRenderQuestion then on_after_render_question i st else st) hs st"

definition fire_complete :: "handler list \<Rightarrow> page \<Rightarrow> page" where
  "fire_complete hs st = fold (\<lambda>h st. if h = OnComplete then on_complete st else st) hs st"

text \<open>\<open>survey.render()\<close>: one more render, and the after-render handlers for every question.\<close>

definition render_survey :: "page \<Rightarrow> page" where
  "render_survey st =
     (case survey st of
        None \<Rightarrow> st
      | Some s \<Rightarrow>
          fold (fire_after_render (handlers s)) [0..<length (questions s)]
            (map_survey (\<lambda>s. s\<lparr>renders := Suc (renders s)\<rparr>) st))"

subsection \<open>What the engine operations leave alone\<close>

text \<open>
  \<open>questionValues.get(n)\<close>: \<open>undefined\<close> both for a missing key and for a
  stored \<open>undefined\<close>.
\<close>

definition stored :: "page \<Rightarrow> string \<Rightarrow> json option" where
  "stored st n = (case map_of (questionValues st) n of None \<Rightarrow> None | Some v \<Rightarrow> v)"

definition shape ::
  "survey_model \<Rightarrow> nat \<times> string list \<times> string list \<times> choice_item list list \<times> handler list \<times> bool" where
  "shape s = (sid s, map qname (questions s), map qtype (questions s), map qchoices (questions s),
              handlers s, completed s)"

text \<open>
  An engine operation changes values, display values, controls, renders, the
  answer store (only by adding or overwriting keys) and the outgoing messages
  and DOM events; it never changes the page's other variables nor the shape of
  the live instance.
\<close>

definition engine_frame :: "page \<Rightarrow> page \<Rightarrow> bool" where
  "engine_frame st st' \<longleftrightarrow>
     map_option shape (survey st') = map_option shape (survey st) \<and>
     lastLoadedSurveyJSON st' = lastLoadedSurveyJSON st \<and> doc_title st' = doc_title st \<and>
     container st' = container st \<and> dropdown_settings st' = dropdown_settings st \<and>
     built st' = built st \<and> console st' = console st \<and> uncaught st' = uncaught st \<and>
     map_keys (questionValues st) \<subseteq> map_keys (questionValues st') \<and>
     (distinct (map fst (questionValues st)) \<longrightarrow> distinct (map fst (questionValues st')))"

lemma engine_frame_refl [simp]: "engine_frame st st"
  by (simp add: engine_frame_def)

lemma engine_frame_trans: "engine_frame a b \<Longrightarrow> engine_frame b c \<Longrightarrow> engine_frame a c"
  by (auto simp: engine_frame_def)

lemma engine_frame_fold:
  "(\<And>x st. engine_frame st (f x st)) \<Longrightarrow> engine_frame st (fold f xs st)"
  by (induction xs arbitrary: st) (auto intro: engine_frame_trans)

lemma engine_frame_survey_None:
  "engine_frame st st' \<Longrightarrow> (survey st' = None) = (survey st = None)"
  by (auto simp: engine_frame_def)

lemma shape_set_data [simp]: "shape (set_data n v s) = shape s"
  by (simp add: shape_def)

lemma map_list_update_same:
  "i < length xs \<Longrightarrow> g (f (xs ! i)) = g (xs ! i) \<Longrightarrow> map g (xs[i := f (xs ! i)]) = map g xs"
  by (auto simp: list_eq_iff_nth_eq nth_list_update)

lemma shape_update_question_at [simp]:
  "(\<And>q. qname (f q) = qname q) \<Longrightarrow> (\<And>q. qtype (f q) = qtype q) \<Longrightarrow>
   (\<And>q. qchoices (f q) = qchoices q) \<Longrightarrow> shape (update_question_at i f s) = shape s"
  by (simp add: shape_def update_question_at_def map_list_update_same)

lemma shape_update_question [simp]:
  "(\<And>q. qname (f q) = qname q) \<Longrightarrow> (\<And>q. qtype (f q) = qtype q) \<Longrightarrow>
   (\<And>q. qchoices (f q) = qchoices q) \<Longrightarrow> shape (update_question n f s) = shape s"
proof -
  assume "\<And>q. qname (f q) = qname q" and "\<And>q. qtype (f q) = qtype q"
    and "\<And>q. qchoices (f q) = qchoices q"
  then have "map qname (upd_first n f qs) = map qname qs \<and> map qtype (upd_first n f qs) = map qtype qs \<and>
             map qchoices (upd_first n f qs) = map qchoices qs" for qs
    by (induction qs) auto
  then show ?thesis by (simp add: shape_def update_question_def)
qed

text \<open>The two cases of the after-render handler: nothing happens, or the dropdown writes.\<close>

lemma on_after_render_question_cases:
  obtains (unchanged) "on_after_render_question i st = st"
  | (writes) s v where "survey st = Some s" "i < length (questions s)"
      "qtype (questions s ! i) = ''dropdown''"
      "map_of (questionValues st) (qname (questions s ! i)) = Some (Some v)"
      "on_after_render_question i st =
         dropdown_write i (qname (questions s ! i)) v (qcontrol (questions s ! i)) st"
proof (cases "\<exists>s v. survey st = Some s \<and> i < length (questions s) \<and>
                 qtype (questions s ! i) = ''dropdown'' \<and>
                 map_of (questionValues st) (qname (questions s ! i)) = Some (Some v)")
  case True
  then obtain s v where "survey st = Some s" "i < length (questions s)"
    "qtype (questions s ! i) = ''dropdown''"
    "map_of (questionValues st) (qname (questions s ! i)) = Some (Some v)" by blast
  then show ?thesis by (intro writes) (simp_all add: on_after_render_question_def Let_def)
next
  case False
  then have "on_after_render_question i st = st"
    by (auto simp: on_after_render_question_def Let_def split: option.split)
  then show ?thesis by (rule unchanged)
qed

lemma on_value_changed_frame: "engine_frame st (on_value_changed n v st)"
  by (auto simp: engine_frame_def on_value_changed_def)

lemma fire_value_changed_frame: "engine_frame st (fire_value_changed hs n v st)"
  unfolding fire_value_changed_def
  by (rule engine_frame_fold) (simp add: on_value_changed_frame)

lemma set_question_value_frame: "engine_frame st (set_question_value n v st)"
proof (cases "survey st")
  case None
  then show ?thesis by (simp add: set_question_value_def)
next
  case (Some s)
  let ?st' = "st\<lparr>survey := Some (set_data n v s)\<rparr>"
  have "engine_frame st ?st'" using Some by (simp add: engine_frame_def)
  moreover have "engine_frame ?st' (fire_value_changed (handlers s) n v ?st')"
    by (rule fire_value_changed_frame)
  ultimately show ?thesis using Some
    by (auto simp: set_question_value_def Let_def intro: engine_frame_trans)
qed

lemma map_survey_frame:
  "(\<And>s. shape (f s) = shape s) \<Longrightarrow> engine_frame st (map_survey f st)"
  by (cases "survey st") (simp_all add: engine_frame_def map_survey_def)

lemma dom_events_frame: "engine_frame st st' \<Longrightarrow> engine_frame st (st'\<lparr>dom_events := e\<rparr>)"
  by (simp add: engine_frame_def)

lemma dropdown_write_frame: "engine_frame st (dropdown_write i n v c st)"
proof -
  let ?st1 = "set_question_value n (Some v) st"
  let ?st2 = "map_survey (update_question_at i (\<lambda>q. q\<lparr>qdisplay := Some v\<rparr>)) ?st1"
  have f2: "engine_frame st ?st2"
    by (rule engine_frame_trans[OF set_question_value_frame map_survey_frame]) simp
  have f3: "engine_frame st (map_survey (update_question_at i (\<lambda>q. q\<lparr>qcontrol := x\<rparr>)) ?st2)" for x
    by (rule engine_frame_trans[OF f2 map_survey_frame]) simp
  show ?thesis
    using f2 f3 by (simp add: dropdown_write_def Let_def dom_events_frame split: control.split)
qed

lemma on_after_render_question_frame: "engine_frame st (on_after_render_question i st)"
  by (cases i st rule: on_after_render_question_cases) (simp_all add: dropdown_write_frame)

lemma fire_after_render_frame: "engine_frame st (fire_after_render hs i st)"
  unfolding fire_after_render_def
  by (rule engine_frame_fold) (simp add: on_after_render_question_frame)

lemma render_survey_frame: "engine_frame st (render_survey st)"
proof (cases "survey st")
  case None
  then show ?thesis by (simp add: render_survey_def)
next
  case (Some s)
  let ?st1 = "map_survey (\<lambda>s. s\<lparr>renders := Suc (renders s)\<rparr>) st"
  have "engine_frame st ?st1" by (rule map_survey_frame) (simp add: shape_def)
  moreover have "engine_frame ?st1 (fold (fire_after_render (handlers s)) xs ?st1)" for xs
    by (rule engine_frame_fold) (rule fire_after_render_frame)
  ultimately show ?thesis using Some
    by (auto simp: render_survey_def intro: engine_frame_trans)
qed

lemma on_complete_frame: "engine_frame st (on_complete st)"
  by (cases "survey st") (simp_all add: on_complete_def engine_frame_def)

lemma fire_complete_frame: "engine_frame st (fire_complete hs st)"
  unfolding fire_complete_def
  by (rule engine_frame_fold) (simp add: on_complete_frame)

subsection \<open>Agreement of the stored answers with the live values\<close>

text \<open>
  On a set \<open>N\<close> of names, the answer store agrees with the live instance when
  \<open>questionValues.get(n)\<close> is \<open>question.value\<close> for every \<open>n \<in> N\<close>.
\<close>

definition synced_at :: "string set \<Rightarrow> page \<Rightarrow> bool" where
  "synced_at N st \<longleftrightarrow>
     (case survey st of None \<Rightarrow> True | Some s \<Rightarrow> \<forall>n\<in>N. stored st n = question_value s n)"

lemma question_value_update_question_at [simp]:
  "question_value (update_question_at i f s) n = question_value s n"
  by (simp add: question_value_def)

lemma question_value_update_question [simp]:
  "question_value (update_question m f s) n = question_value s n"
  by (simp add: question_value_def)

lemma survey_on_value_changed [simp]: "survey (on_value_changed n v st) = survey st"
  by (simp add: on_value_changed_def)

lemma stored_on_value_changed [simp]:
  "stored (on_value_changed n v st) m = (if m = n then v else stored st m)"
  by (simp add: stored_def on_value_changed_def)

lemma survey_fire_value_changed [simp]: "survey (fire_value_changed hs n v st) = survey st"
  unfolding fire_value_changed_def by (induction hs arbitrary: st) auto

lemma stored_fire_value_changed:
  "stored (fire_value_changed hs n v st) m =
     (if m = n \<and> OnValueChanged \<in> set hs then v else stored st m)"
  unfolding fire_value_changed_def by (induction hs arbitrary: st) auto

lemma stored_survey_update [simp]: "stored (st\<lparr>survey := x\<rparr>) n = stored st n"
  by (simp add: stored_def)

lemma stored_dom_events [simp]: "stored (st\<lparr>dom_events := e\<rparr>) n = stored st n"
  by (simp add: stored_def)

lemma stored_map_survey [simp]: "stored (map_survey f st) n = stored st n"
  by (simp add: stored_def map_survey_def)

lemma survey_map_survey [simp]: "survey (map_survey f st) = map_option f (survey st)"
  by (simp add: map_survey_def)

lemma map_survey_fields [simp]:
  "questionValues (map_survey f st) = questionValues st" "container (map_survey f st) = container st"
  "lastLoadedSurveyJSON (map_survey f st) = lastLoadedSurveyJSON st" "built (map_survey f st) = built st"
  "outbox (map_survey f st) = outbox st" "console (map_survey f st) = console st"
  "uncaught (map_survey f st) = uncaught st"
  by (simp_all add: map_survey_def)

lemma survey_set_question_value:
  "survey (set_question_value n v st) = map_option (set_data n v) (survey st)"
  by (cases "survey st") (simp_all add: set_question_value_def Let_def)

lemma stored_set_question_value:
  "stored (set_question_value n v st) m =
     (case survey st of
        None \<Rightarrow> stored st m
      | Some s \<Rightarrow> if m = n \<and> question_value s n \<noteq> v \<and> OnValueChanged \<in> set (handlers s)
                 then v else stored st m)"
  by (cases "survey st") (auto simp: set_question_value_def Let_def stored_fire_value_changed)

text \<open>
  Writing a value keeps the agreement when the value-changed handler is
  registered, or when the value written is the stored one.
\<close>

lemma set_question_value_synced:
  assumes "synced_at N st"
    and "\<And>s. survey st = Some s \<Longrightarrow> n \<in> N \<Longrightarrow> OnValueChanged \<in> set (handlers s) \<or> stored st n = v"
  shows "synced_at N (set_question_value n v st)"
  using assms
  by (cases "survey st") (auto simp: synced_at_def survey_set_question_value stored_set_question_value)

lemma synced_at_map_survey:
  "(\<And>s n. question_value (f s) n = question_value s n) \<Longrightarrow> synced_at N (map_survey f st) = synced_at N st"
  by (cases "survey st") (simp_all add: synced_at_def)

lemma synced_at_dom_events [simp]: "synced_at N (st\<lparr>dom_events := e\<rparr>) = synced_at N st"
  by (simp add: synced_at_def split: option.split)

lemma dropdown_write_synced:
  assumes "synced_at N st" and "stored st n = Some v"
  shows "synced_at N (dropdown_write i n v c st)"
proof -
  let ?st1 = "set_question_value n (Some v) st"
  let ?st2 = "map_survey (update_question_at i (\<lambda>q. q\<lparr>qdisplay := Some v\<rparr>)) ?st1"
  have "synced_at N ?st1" using assms by (intro set_question_value_synced) auto
  then have s2: "synced_at N ?st2" by (simp add: synced_at_map_survey)
  then have "synced_at N (map_survey (update_question_at i (\<lambda>q. q\<lparr>qcontrol := x\<rparr>)) ?st2)" for x
    by (simp add: synced_at_map_survey)
  then show ?thesis using s2 by (simp add: dropdown_write_def Let_def split: control.split)
qed

lemma on_after_render_question_synced:
  "synced_at N st \<Longrightarrow> synced_at N (on_after_render_question i st)"
  by (cases i st rule: on_after_render_question_cases) (simp_all add: dropdown_write_synced stored_def)

lemma fire_after_render_synced: "synced_at N st \<Longrightarrow> synced_at N (fire_after_render hs i st)"
  unfolding fire_after_render_def
  by (induction hs arbitrary: st) (auto intro: on_after_render_question_synced)

lemma render_survey_synced: "synced_at N st \<Longrightarrow> synced_at N (render_survey st)"
proof (cases "survey st")
  case None
  then show "synced_at N st \<Longrightarrow> ?thesis" by (simp add: render_survey_def)
next
  case (Some s)
  have fold: "synced_at N x \<Longrightarrow> synced_at N (fold (fire_after_render hs) idx x)" for hs idx x
    by (induction idx arbitrary: x) (auto intro: fire_after_render_synced)
  assume "synced_at N st"
  then have "synced_at N (map_survey (\<lambda>s. s\<lparr>renders := Suc (renders s)\<rparr>) st)"
    by (simp add: synced_at_map_survey question_value_def)
  then show ?thesis using Some by (simp add: render_survey_def fold)
qed

subsection \<open>Instances without a value-changed handler\<close>

lemma shape_eqD:
  "shape s' = shape s \<Longrightarrow> question_names s' = question_names s \<and> handlers s' = handlers s \<and> sid s' = sid s"
  by (simp add: shape_def question_names_def flip: set_map)

lemma fire_value_changed_no_handler:
  "OnValueChanged \<notin> set hs \<Longrightarrow> fire_value_changed hs n v st = st"
  unfolding fire_value_changed_def by (induction hs arbitrary: st) auto

lemma questionValues_set_question_value_no_handler:
  "survey st = Some s \<Longrightarrow> OnValueChanged \<notin> set (handlers s) \<Longrightarrow>
   questionValues (set_question_value n v st) = questionValues st"
  by (simp add: set_question_value_def Let_def fire_value_changed_no_handler)

subsection \<open>Renders keep the stored answers\<close>

text \<open>
  The after-render handler writes back only what the store holds, so when the
  value-changed handler records the write, the store is unchanged.
\<close>

lemma stored_dropdown_write:
  "stored st n = Some v \<Longrightarrow> stored (dropdown_write i n v c st) = stored st"
  by (cases "survey st")
     (auto simp: dropdown_write_def Let_def stored_set_question_value fun_eq_iff split: control.split)

lemma stored_on_after_render_question [simp]:
  "stored (on_after_render_question i st) = stored st"
  by (cases i st rule: on_after_render_question_cases) (simp_all add: stored_dropdown_write stored_def)

lemma stored_fire_after_render [simp]: "stored (fire_after_render hs i st) = stored st"
  unfolding fire_after_render_def by (induction hs arbitrary: st) auto

lemma stored_render_survey [simp]: "stored (render_survey st) = stored st"
proof -
  have "stored (fold (fire_after_render hs) idx x) = stored x" for hs idx x
    by (induction idx arbitrary: x) auto
  then show ?thesis by (simp add: render_survey_def fun_eq_iff split: option.split)
qed

lemma stored_page_updates [simp]:
  "stored (st\<lparr>console := c\<rparr>) = stored st"
  "stored (st\<lparr>outbox := ob\<rparr>) = stored st"
  "stored (st\<lparr>uncaught := u\<rparr>) = stored st"
  "stored (st\<lparr>doc_title := t\<rparr>) = stored st"
  "stored (st\<lparr>lastLoadedSurveyJSON := l\<rparr>) = stored st"
  "stored (st\<lparr>built := b\<rparr>) = stored st"
  "stored (st\<lparr>dropdown_settings := x\<rparr>) = stored st"
  by (simp_all add: stored_def fun_eq_iff)

lemma synced_at_container [simp]: "synced_at N (st\<lparr>container := c\<rparr>) = synced_at N st"
  by (simp add: synced_at_def stored_def split: option.split)

subsection \<open>Names, handlers and render counts across engine operations\<close>

lemma engine_frame_survey:
  assumes "engine_frame st st'" and "survey st = Some s"
  shows "\<exists>s'. survey st' = Some s' \<and> shape s' = shape s \<and> question_names s' = question_names s \<and>
           handlers s' = handlers s"
proof -
  obtain s' where "survey st' = Some s'" "shape s' = shape s"
    using assms by (cases "survey st'") (auto simp: engine_frame_def)
  then show ?thesis using shape_eqD by blast
qed

lemma renders_set_question_value [simp]:
  "map_option renders (survey (set_question_value n v st)) = map_option renders (survey st)"
  by (cases "survey st") (simp_all add: survey_set_question_value set_data_def)

lemma renders_dropdown_write [simp]:
  "map_option renders (survey (dropdown_write i n v c st)) = map_option renders (survey st)"
proof -
  have "map_option renders (map_option (update_question_at i f) x) = map_option renders x" for f x
    by (cases x) (simp_all add: update_question_at_def)
  then show ?thesis
    by (simp add: dropdown_write_def Let_def split: control.split)
qed

lemma renders_on_after_render_question [simp]:
  "map_option renders (survey (on_after_render_question i st)) = map_option renders (survey st)"
  by (cases i st rule: on_after_render_question_cases) simp_all

lemma renders_fire_after_render [simp]:
  "map_option renders (survey (fire_after_render hs i st)) = map_option renders (survey st)"
  unfolding fire_after_render_def by (induction hs arbitrary: st) auto

lemma renders_render_survey:
  "map_option renders (survey (render_survey st)) = map_option (Suc \<circ> renders) (survey st)"
proof (cases "survey st")
  case None
  then show ?thesis by (simp add: render_survey_def)
next
  case (Some s)
  have "map_option renders (survey (fold (fire_after_render hs) idx x)) = map_option renders (survey x)"
    for hs idx x by (induction idx arbitrary: x) auto
  then show ?thesis using Some by (simp add: render_survey_def)
qed

end
