(* ===== verification/ValueStore.thy ===== *)
theory ValueStore
  imports Page
begin

text \<open>
  The Value Store of \<open>src/www/survey.js\<close>: the map \<open>questionValues\<close> from
  question name to last known answer. \<open>preserveQuestionValues\<close> (lines
  10--19) copies every defined value of the live instance into it;
  \<open>restoreQuestionValues\<close> (lines 21--35) writes every stored entry back into
  the live instance, through \<open>question.value\<close>, for each name the instance
  has, and sets the display value of a dropdown too. The third operation,
  recording a change, is the value-changed handler \<open>on_value_changed\<close> of
  \<open>Page\<close>. The lemmas say what each operation does to the store and to the
  live values, for every name: preserve overwrites exactly the names with a
  defined live value and keeps every key; restore, on an instance that has no
  value-changed handler yet (the only case the code calls it in), makes each
  question's value the stored one and leaves the store as it was.
\<close>

definition preserve_step :: "survey_model \<Rightarrow> question \<Rightarrow> json option jsmap \<Rightarrow> json option jsmap" where
  "preserve_step s q m =
     (case question_value s (qname q) of None \<Rightarrow> m | Some v \<Rightarrow> AList.update (qname q) (Some v) m)"

definition preserveQuestionValues :: "page \<Rightarrow> page" where
  "preserveQuestionValues st =
     (case survey st of
        None \<Rightarrow> st
      | Some s \<Rightarrow> st\<lparr>questionValues := fold (preserve_step s) (questions s) (questionValues st)\<rparr>)"

definition restore_entry :: "string \<times> json option \<Rightarrow> page \<Rightarrow> page" where
  "restore_entry nv st =
     (case nv of
        (name, v) \<Rightarrow>
          (case survey st of
             None \<Rightarrow> st
           | Some s \<Rightarrow>
               (case getQuestionByName s name of
                  None \<Rightarrow> st
                | Some q \<Rightarrow>
                    (let st1 = set_question_value name v st
                     in if qtype q = ''dropdown''
                        then map_survey (update_question name (\<lambda>q. q\<lparr>qdisplay := v\<rparr>)) st1
                        else st1))))"

definition restoreQuestionValues :: "page \<Rightarrow> page" where
  "restoreQuestionValues st =
     (case survey st of None \<Rightarrow> st | Some _ \<Rightarrow> fold restore_entry (questionValues st) st)"

subsection \<open>Preserve\<close>

lemma map_of_fold_preserve_step:
  "map_of (fold (preserve_step s) qs m) n =
     (if n \<in> qname ` set qs \<and> question_value s n \<noteq> None then Some (question_value s n) else map_of m n)"
  by (induction qs arbitrary: m) (auto simp: preserve_step_def split: option.split)

lemma keys_fold_preserve_step:
  "k \<in> map_keys m \<Longrightarrow> k \<in> map_keys (fold (preserve_step s) qs m)"
  by (induction qs arbitrary: m) (simp_all add: preserve_step_def split: option.split)

lemma keys_fold_preserve_step_subset:
  "map_keys m \<subseteq> map_keys (fold (preserve_step s) qs m)"
  by (rule subsetI) (rule keys_fold_preserve_step)

lemma distinct_fold_preserve_step:
  "distinct (map fst m) \<Longrightarrow> distinct (map fst (fold (preserve_step s) qs m))"
  by (induction qs arbitrary: m) (simp_all add: preserve_step_def split: option.split)

lemma preserveQuestionValues_frame: "engine_frame st (preserveQuestionValues st)"
  using keys_fold_preserve_step_subset distinct_fold_preserve_step
  by (auto simp: engine_frame_def preserveQuestionValues_def split: option.split)

lemma survey_preserveQuestionValues [simp]: "survey (preserveQuestionValues st) = survey st"
  by (simp add: preserveQuestionValues_def split: option.split)

lemma stored_preserveQuestionValues:
  "stored (preserveQuestionValues st) n =
     (case survey st of
        None \<Rightarrow> stored st n
      | Some s \<Rightarrow> if n \<in> question_names s \<and> question_value s n \<noteq> None
                 then question_value s n else stored st n)"
  by (auto simp: preserveQuestionValues_def stored_def map_of_fold_preserve_step question_names_def
           split: option.split)

subsection \<open>Restore\<close>

lemma restore_entry_facts:
  assumes s: "survey st = Some s" and h: "OnValueChanged \<notin> set (handlers s)"
  shows "\<exists>s'. survey (restore_entry (k, v) st) = Some s' \<and> shape s' = shape s \<and>
           (\<forall>n. question_value s' n = (if n = k \<and> k \<in> question_names s then v else question_value s n)) \<and>
           questionValues (restore_entry (k, v) st) = questionValues st \<and>
           engine_frame st (restore_entry (k, v) st)"
proof (cases "getQuestionByName s k")
  case None
  then have "k \<notin> question_names s" by (simp add: getQuestionByName_None_iff)
  then show ?thesis using s None by (simp add: restore_entry_def)
next
  case (Some q)
  let ?st1 = "set_question_value k v st"
  let ?f = "\<lambda>q. q\<lparr>qdisplay := v\<rparr>"
  have in_names: "k \<in> question_names s"
    using Some by (metis getQuestionByName_None_iff option.distinct(1))
  have st1: "survey ?st1 = Some (set_data k v s)" using s by (simp add: survey_set_question_value)
  have qv1: "questionValues ?st1 = questionValues st"
    using s h by (rule questionValues_set_question_value_no_handler)
  have fr1: "engine_frame st ?st1" by (rule set_question_value_frame)
  have fr2: "engine_frame st (map_survey (update_question k ?f) ?st1)"
    by (rule engine_frame_trans[OF fr1 map_survey_frame]) simp
  show ?thesis
  proof (cases "qtype q = ''dropdown''")
    case True
    then have "restore_entry (k, v) st = map_survey (update_question k ?f) ?st1"
      using s Some by (simp add: restore_entry_def)
    then show ?thesis using st1 qv1 fr2 in_names by (simp add: map_survey_def question_value_def[symmetric])
  next
    case False
    then have "restore_entry (k, v) st = ?st1"
      using s Some by (simp add: restore_entry_def)
    then show ?thesis using st1 qv1 fr1 in_names by simp
  qed
qed

lemma fold_restore_entry:
  assumes "survey st = Some s" "OnValueChanged \<notin> set (handlers s)" "distinct (map fst kvs)"
  shows "\<exists>s'. survey (fold restore_entry kvs st) = Some s' \<and> shape s' = shape s \<and>
           (\<forall>n. question_value s' n =
                  (if n \<in> question_names s \<and> n \<in> map_keys kvs then the (map_of kvs n)
                   else question_value s n)) \<and>
           questionValues (fold restore_entry kvs st) = questionValues st \<and>
           engine_frame st (fold restore_entry kvs st)"
  using assms
proof (induction kvs arbitrary: st s)
  case Nil
  then show ?case by simp
next
  case (Cons kv kvs)
  obtain k v where kv: "kv = (k, v)" by fastforce
  from restore_entry_facts[OF Cons.prems(1,2), of k v] obtain s1 where
    s1: "survey (restore_entry (k, v) st) = Some s1" "shape s1 = shape s"
    and qv: "\<forall>n. question_value s1 n = (if n = k \<and> k \<in> question_names s then v else question_value s n)"
    and qs: "questionValues (restore_entry (k, v) st) = questionValues st"
    and fr: "engine_frame st (restore_entry (k, v) st)" by blast
  have names: "question_names s1 = question_names s" and hs: "handlers s1 = handlers s"
    using shape_eqD[OF s1(2)] by auto
  have "OnValueChanged \<notin> set (handlers s1)" using hs Cons.prems(2) by simp
  moreover have "distinct (map fst kvs)" using Cons.prems(3) by simp
  ultimately obtain s' where
    s': "survey (fold restore_entry kvs (restore_entry (k, v) st)) = Some s'" "shape s' = shape s1"
    and qv': "\<forall>n. question_value s' n =
                (if n \<in> question_names s1 \<and> n \<in> map_keys kvs then the (map_of kvs n)
                 else question_value s1 n)"
    and qs': "questionValues (fold restore_entry kvs (restore_entry (k, v) st)) =
              questionValues (restore_entry (k, v) st)"
    and fr': "engine_frame (restore_entry (k, v) st) (fold restore_entry kvs (restore_entry (k, v) st))"
    using Cons.IH[OF s1(1)] by blast
  have "k \<notin> map_keys kvs" using Cons.prems(3) kv by simp
  then have "\<forall>n. question_value s' n =
           (if n \<in> question_names s \<and> n \<in> map_keys (kv # kvs) then the (map_of (kv # kvs) n)
            else question_value s n)"
    using qv qv' names kv by auto
  then show ?case
    using s' s1 qs qs' kv engine_frame_trans[OF fr fr'] by auto
qed

lemma restoreQuestionValues_facts:
  assumes "survey st = Some s" "OnValueChanged \<notin> set (handlers s)"
    and "distinct (map fst (questionValues st))"
  shows "\<exists>s'. survey (restoreQuestionValues st) = Some s' \<and> shape s' = shape s \<and>
           (\<forall>n. question_value s' n =
                  (if n \<in> question_names s \<and> n \<in> map_keys (questionValues st) then stored st n
                   else question_value s n)) \<and>
           questionValues (restoreQuestionValues st) = questionValues st \<and>
           engine_frame st (restoreQuestionValues st)"
  using fold_restore_entry[OF assms] assms(1)
  by (auto simp: restoreQuestionValues_def stored_def map_of_eq_None_iff split: option.split)


lemma restoreQuestionValues_synced:
  assumes "survey st = Some s" "OnValueChanged \<notin> set (handlers s)"
    and "distinct (map fst (questionValues st))" "sdata s = []"
  shows "synced_at (question_names s) (restoreQuestionValues st)"
proof -
  from restoreQuestionValues_facts[OF assms(1-3)] obtain s' where
    s': "survey (restoreQuestionValues st) = Some s'"
    and qv: "\<forall>n. question_value s' n =
               (if n \<in> question_names s \<and> n \<in> map_keys (questionValues st) then stored st n
                else question_value s n)"
    and qs: "questionValues (restoreQuestionValues st) = questionValues st" by blast
  have "stored st n = None" if "n \<notin> map_keys (questionValues st)" for n
    using that by (simp add: stored_def map_of_eq_None_iff[symmetric])
  then show ?thesis
    using s' qv qs assms(4) by (auto simp: synced_at_def stored_def question_value_def)
qed

end
