(* ===== verification/Controller.thy ===== *)
theory Controller
  imports ValueStore
begin

text \<open>
  The Survey Lifecycle Controller of \<open>src/www/survey.js\<close>:
  \<open>updateDocumentTitle\<close> (lines 37--42) and \<open>initializeSurvey\<close> (lines
  44--127), which the \<open>loadSurvey\<close> message runs. The body of the \<open>try\<close>
  block is \<open>initialize_body\<close>; it returns the state reached when it stops
  together with the exception that stopped it, if any, because the effects
  before a \<open>throw\<close> (here: the preserve step) stay. The \<open>catch\<close> logs the
  exception and a trace. The skip test at line 46 compares the last accepted
  definition, an object, with the argument as received, before it is parsed.
\<close>

definition updateDocumentTitle :: "json \<Rightarrow> page \<Rightarrow> error + page" where
  "updateDocumentTitle surveyJSON st =
     (if surveyJSON = JNull then Inl TypeError
      else
        (case js_get surveyJSON ''title'' of
           Some t \<Rightarrow> if js_truthy t then Inr (st\<lparr>doc_title := Some (js_to_string t)\<rparr>) else Inr st
         | None \<Rightarrow> Inr st))"

text \<open>Lines 55--57: a definition sent as text is parsed, anything else is used as it is.\<close>

definition parse_definition :: "json \<Rightarrow> error + json" where
  "parse_definition surveyJSON =
     (case surveyJSON of
        JStr txt \<Rightarrow> (case json_parse txt of None \<Rightarrow> Inl SyntaxError | Some d \<Rightarrow> Inr d)
      | _ \<Rightarrow> Inr surveyJSON)"

definition std_handlers :: "handler list" where
  "std_handlers = [OnComplete, OnValueChanged, OnAfterRenderQuestion]"

text \<open>Lines 79--118: the three handlers are added to the new instance.\<close>

definition register_handlers :: "page \<Rightarrow> page" where
  "register_handlers = map_survey (\<lambda>s. s\<lparr>handlers := handlers s @ std_handlers\<rparr>)"

text \<open>Line 120: \<open>$("#surveyContainer").Survey({ model: survey })\<close> binds and renders.\<close>

definition bind_container :: "page \<Rightarrow> page" where
  "bind_container st = render_survey (st\<lparr>container := map_option sid (survey st)\<rparr>)"

text \<open>Lines 76--120, on the new instance: restore, register the handlers, bind and render.\<close>

definition activate_survey :: "page \<Rightarrow> page" where
  "activate_survey st = bind_container (register_handlers (restoreQuestionValues st))"

text \<open>Line 46: \<open>lastLoadedSurveyJSON && areJSONsEqual(lastLoadedSurveyJSON, surveyJSON)\<close>.\<close>

definition is_unchanged :: "page \<Rightarrow> json \<Rightarrow> bool" where
  "is_unchanged st surveyJSON =
     (case lastLoadedSurveyJSON st of
        None \<Rightarrow> False
      | Some l \<Rightarrow> js_truthy l \<and> areJSONsEqual l surveyJSON)"

definition initialize_body :: "json \<Rightarrow> page \<Rightarrow> page \<times> error option" where
  "initialize_body surveyJSON st =
     (let st1 = preserveQuestionValues st in
      case parse_definition surveyJSON of
        Inl e \<Rightarrow> (st1, Some e)
      | Inr d \<Rightarrow>
          (case updateDocumentTitle d st1 of
             Inl e \<Rightarrow> (st1, Some e)
           | Inr st2 \<Rightarrow>
               (let st3 = st2\<lparr>container := None, dropdown_settings := True\<rparr>;
                    st4 = st3\<lparr>survey := Some (survey_of_json (built st3) d), built := Suc (built st3)\<rparr>;
                    st5 = st4\<lparr>lastLoadedSurveyJSON := Some d\<rparr>;
                    st6 = activate_survey st5
                in (log (LogInfo ''Survey initialized'') st6, None))))"

definition initializeSurvey :: "json \<Rightarrow> page \<Rightarrow> page" where
  "initializeSurvey surveyJSON st =
     (if is_unchanged st surveyJSON
      then log (LogInfo ''Identical survey JSON. Skipping re-initialization.'') st
      else
        (case initialize_body surveyJSON st of
           (st', None) \<Rightarrow> st'
         | (st', Some e) \<Rightarrow> log LogTrace (log (LogException ''Error initializing survey:'' e) st')))"

subsection \<open>The outcome of one load\<close>

text \<open>
  What an accepted definition \<open>d\<close> leaves behind, for a run that started in
  \<open>st\<close>: a fresh instance, numbered by the count of earlier builds, with the
  questions of \<open>d\<close>, exactly the three handlers, bound to the container; \<open>d\<close>
  recorded; each question's value the one the store held after the preserve
  step, and the store itself as that step left it.
\<close>

definition accepted :: "page \<Rightarrow> json \<Rightarrow> page \<Rightarrow> bool" where
  "accepted st d st' \<longleftrightarrow>
     (\<exists>s'. survey st' = Some s' \<and> sid s' = built st \<and> handlers s' = std_handlers \<and>
        map qname (questions s') = map qname (definition_questions d) \<and>
        map qtype (questions s') = map qtype (definition_questions d) \<and>
        \<not> completed s' \<and>
        (\<forall>n\<in>question_names s'. question_value s' n = stored (preserveQuestionValues st) n)) \<and>
     built st' = Suc (built st) \<and> container st' = Some (built st) \<and>
     lastLoadedSurveyJSON st' = Some d \<and> dropdown_settings st' \<and>
     stored st' = stored (preserveQuestionValues st) \<and>
     map_keys (questionValues st) \<subseteq> map_keys (questionValues st') \<and>
     (distinct (map fst (questionValues st)) \<longrightarrow> distinct (map fst (questionValues st'))) \<and>
     uncaught st' = uncaught st"

lemma updateDocumentTitle_Inr:
  "updateDocumentTitle d st = Inr st' \<Longrightarrow> st' = st \<or> (\<exists>t. st' = st\<lparr>doc_title := Some t\<rparr>)"
  by (auto simp: updateDocumentTitle_def split: if_splits option.splits)

lemma updateDocumentTitle_Inl:
  "updateDocumentTitle d st = Inl e \<longleftrightarrow> d = JNull \<and> e = TypeError"
  by (auto simp: updateDocumentTitle_def split: option.splits)

lemma synced_at_register_handlers [simp]:
  "synced_at N (register_handlers st) = synced_at N st"
  by (simp add: register_handlers_def synced_at_map_survey question_value_def)

lemma stored_register_handlers [simp]: "stored (register_handlers st) = stored st"
  by (simp add: register_handlers_def fun_eq_iff)

lemma stored_container [simp]: "stored (st\<lparr>container := c\<rparr>) = stored st"
  by (simp add: stored_def fun_eq_iff)

lemma activate_survey_facts:
  assumes s: "survey st = Some s" and h: "handlers s = []" and d: "sdata s = []"
    and dist: "distinct (map fst (questionValues st))"
  shows "\<exists>s'. survey (activate_survey st) = Some s' \<and> sid s' = sid s \<and> handlers s' = std_handlers \<and>
           map qname (questions s') = map qname (questions s) \<and>
           map qtype (questions s') = map qtype (questions s) \<and> completed s' = completed s \<and>
           (\<forall>n\<in>question_names s'. question_value s' n = stored st n)"
    and "stored (activate_survey st) = stored st"
    and "container (activate_survey st) = Some (sid s)"
    and "built (activate_survey st) = built st \<and>
         lastLoadedSurveyJSON (activate_survey st) = lastLoadedSurveyJSON st \<and>
         doc_title (activate_survey st) = doc_title st \<and>
         dropdown_settings (activate_survey st) = dropdown_settings st \<and>
         console (activate_survey st) = console st \<and> uncaught (activate_survey st) = uncaught st \<and>
         map_keys (questionValues st) \<subseteq> map_keys (questionValues (activate_survey st)) \<and>
         distinct (map fst (questionValues (activate_survey st)))"
proof -
  have noh: "OnValueChanged \<notin> set (handlers s)" using h by simp
  obtain s6 where s6: "survey (restoreQuestionValues st) = Some s6" "shape s6 = shape s"
    and qs6: "questionValues (restoreQuestionValues st) = questionValues st"
    and fr6: "engine_frame st (restoreQuestionValues st)"
    using restoreQuestionValues_facts[OF s noh dist] by blast
  have sy6: "synced_at (question_names s) (restoreQuestionValues st)"
    by (rule restoreQuestionValues_synced[OF s noh dist d])
  let ?st7 = "register_handlers (restoreQuestionValues st)"
  let ?s7 = "s6\<lparr>handlers := handlers s6 @ std_handlers\<rparr>"
  let ?st7' = "?st7\<lparr>container := Some (sid s)\<rparr>"
  have s7: "survey ?st7' = Some ?s7" using s6 by (simp add: register_handlers_def map_survey_def)
  have sid6: "sid s6 = sid s" and hs6: "handlers s6 = []" and nm6: "question_names s6 = question_names s"
    using shape_eqD[OF s6(2)] h by auto
  have eq: "activate_survey st = render_survey ?st7'"
    using s6 sid6 by (simp add: activate_survey_def bind_container_def register_handlers_def map_survey_def)
  have fr8: "engine_frame ?st7' (render_survey ?st7')" by (rule render_survey_frame)
  then obtain s8 where s8: "survey (render_survey ?st7') = Some s8" "shape s8 = shape ?s7"
    using s7 by (auto simp: engine_frame_def)
  have sy8: "synced_at (question_names s) (render_survey ?st7')"
    using sy6 by (intro render_survey_synced) simp
  have nm8: "question_names s8 = question_names s"
    using shape_eqD[OF s8(2)] nm6 by (simp add: question_names_def)
  have st8: "stored (render_survey ?st7') = stored st"
    using qs6 by (simp add: stored_def fun_eq_iff)
  show "\<exists>s'. survey (activate_survey st) = Some s' \<and> sid s' = sid s \<and> handlers s' = std_handlers \<and>
           map qname (questions s') = map qname (questions s) \<and>
           map qtype (questions s') = map qtype (questions s) \<and> completed s' = completed s \<and>
           (\<forall>n\<in>question_names s'. question_value s' n = stored st n)"
    using s8 s6(2) sid6 hs6 sy8 nm8 st8 unfolding eq
    by (auto simp: shape_def synced_at_def)
  show "stored (activate_survey st) = stored st" using st8 eq by simp
  show "container (activate_survey st) = Some (sid s)" using fr8 eq by (simp add: engine_frame_def)
  show "built (activate_survey st) = built st \<and>
         lastLoadedSurveyJSON (activate_survey st) = lastLoadedSurveyJSON st \<and>
         doc_title (activate_survey st) = doc_title st \<and>
         dropdown_settings (activate_survey st) = dropdown_settings st \<and>
         console (activate_survey st) = console st \<and> uncaught (activate_survey st) = uncaught st \<and>
         map_keys (questionValues st) \<subseteq> map_keys (questionValues (activate_survey st)) \<and>
         distinct (map fst (questionValues (activate_survey st)))"
    using fr6 fr8 qs6 dist eq by (simp add: engine_frame_def register_handlers_def map_survey_def)
qed

lemma initialize_body_accepted:
  assumes p: "parse_definition j = Inr d" and nn: "d \<noteq> JNull"
    and dist: "distinct (map fst (questionValues st))"
  shows "\<exists>st'. initialize_body j st = (st', None) \<and> accepted st d st' \<and>
           console st' = console st @ [LogInfo ''Survey initialized'']"
proof -
  let ?st1 = "preserveQuestionValues st"
  obtain st2 where t: "updateDocumentTitle d ?st1 = Inr st2"
    using nn by (cases "updateDocumentTitle d ?st1") (auto simp: updateDocumentTitle_Inl)
  have fr1: "engine_frame st ?st1" by (rule preserveQuestionValues_frame)
  have f2: "questionValues st2 = questionValues ?st1 \<and> built st2 = built st \<and>
            uncaught st2 = uncaught st \<and> console st2 = console st"
    using updateDocumentTitle_Inr[OF t] fr1 by (auto simp: engine_frame_def)
  let ?s0 = "survey_of_json (built st) d"
  let ?st5 = "st2\<lparr>container := None, dropdown_settings := True, survey := Some ?s0,
                  built := Suc (built st), lastLoadedSurveyJSON := Some d\<rparr>"
  have body: "initialize_body j st = (log (LogInfo ''Survey initialized'') (activate_survey ?st5), None)"
    using p t f2 by (simp add: initialize_body_def Let_def)
  have dist5: "distinct (map fst (questionValues ?st5))"
    using dist f2 fr1 by (simp add: engine_frame_def)
  have s5: "survey ?st5 = Some ?s0" "handlers ?s0 = []" "sdata ?s0 = []"
    by (simp_all add: survey_of_json_def)
  note act = activate_survey_facts[OF s5 dist5]
  have st5: "stored ?st5 = stored ?st1" using f2 by (simp add: stored_def fun_eq_iff)
  have st2s: "stored st2 = stored ?st1" using f2 by (simp add: stored_def fun_eq_iff)
  have keys: "map_keys (questionValues st) \<subseteq> map_keys (questionValues ?st5)"
    using fr1 f2 by (simp add: engine_frame_def)
  let ?st6 = "activate_survey ?st5"
  obtain s' where s': "survey ?st6 = Some s'" "sid s' = built st" "handlers s' = std_handlers"
    "map qname (questions s') = map qname (definition_questions d)"
    "map qtype (questions s') = map qtype (definition_questions d)" "\<not> completed s'"
    "\<forall>n\<in>question_names s'. question_value s' n = stored ?st1 n"
    using act(1) st2s by (auto simp: survey_of_json_def)
  have f6: "built ?st6 = Suc (built st)" "lastLoadedSurveyJSON ?st6 = Some d" "dropdown_settings ?st6"
    "uncaught ?st6 = uncaught st" "container ?st6 = Some (built st)" "stored ?st6 = stored ?st1"
    "map_keys (questionValues st) \<subseteq> map_keys (questionValues ?st6)"
    "distinct (map fst (questionValues st)) \<longrightarrow> distinct (map fst (questionValues ?st6))"
    using act(2) act(3) act(4) st2s keys f2 by (auto simp: survey_of_json_def)
  have "accepted st d (log (LogInfo ''Survey initialized'') ?st6)"
    unfolding accepted_def log_def using s' f6 by auto
  moreover have "console (log (LogInfo ''Survey initialized'') (activate_survey ?st5)) =
                 console st @ [LogInfo ''Survey initialized'']"
    using act(4) f2 by (simp add: log_def)
  ultimately show ?thesis using body by blast
qed

lemma initialize_body_error:
  assumes "parse_definition j = Inl e \<or> (parse_definition j = Inr JNull \<and> e = TypeError)"
  shows "initialize_body j st = (preserveQuestionValues st, Some e)"
  using assms by (auto simp: initialize_body_def updateDocumentTitle_def)

lemma initializeSurvey_skip:
  "is_unchanged st j \<Longrightarrow>
   initializeSurvey j st = log (LogInfo ''Identical survey JSON. Skipping re-initialization.'') st"
  by (simp add: initializeSurvey_def)

lemma initializeSurvey_accepted:
  assumes "\<not> is_unchanged st j" "parse_definition j = Inr d" "d \<noteq> JNull"
    and "distinct (map fst (questionValues st))"
  shows "accepted st d (initializeSurvey j st) \<and>
         console (initializeSurvey j st) = console st @ [LogInfo ''Survey initialized'']"
  using initialize_body_accepted[OF assms(2-4)] assms(1)
  by (auto simp: initializeSurvey_def)

lemma initializeSurvey_error:
  assumes "\<not> is_unchanged st j"
    and "parse_definition j = Inl e \<or> (parse_definition j = Inr JNull \<and> e = TypeError)"
  shows "initializeSurvey j st =
           log LogTrace (log (LogException ''Error initializing survey:'' e) (preserveQuestionValues st))"
  using assms by (simp add: initializeSurvey_def initialize_body_error)

lemma parse_definition_not_string:
  "(\<forall>txt. j \<noteq> JStr txt) \<Longrightarrow> parse_definition j = Inr j"
  by (cases j) (auto simp: parse_definition_def)

lemma lastLoaded_log [simp]: "lastLoadedSurveyJSON (log e st) = lastLoadedSurveyJSON st"
  by (simp add: log_def)

lemma is_unchanged_log [simp]: "is_unchanged (log e st) j = is_unchanged st j"
  by (simp add: is_unchanged_def)

lemma is_unchanged_accepted:
  "accepted st d st' \<Longrightarrow> js_truthy d \<Longrightarrow> is_unchanged st' d"
  by (simp add: accepted_def is_unchanged_def areJSONsEqual_def)

subsection \<open>Idempotence and value preservation\<close>

text \<open>Sample definitions for the concrete runs below.\<close>

definition sample_question :: "string \<Rightarrow> string \<Rightarrow> json" where
  "sample_question n t = JObj [(''name'', JStr n), (''type'', JStr t)]"

definition sample_definition :: "json list \<Rightarrow> json" where
  "sample_definition qs = JObj [(''questions'', JArr qs)]"


text \<open>
  C1. Loading a definition object that is truthy a second time is a no-op
  apart from the log line: the second \<open>initializeSurvey\<close> changes neither the
  instance nor the build count, so exactly one instance is built for the two
  loads.
\<close>

theorem initializeSurvey_idempotent:
  assumes "\<forall>txt. j \<noteq> JStr txt" and "js_truthy j"
    and "distinct (map fst (questionValues st))"
  shows "initializeSurvey j (initializeSurvey j st) =
           log (LogInfo ''Identical survey JSON. Skipping re-initialization.'') (initializeSurvey j st)"
proof (cases "is_unchanged st j")
  case True
  then show ?thesis by (simp add: initializeSurvey_skip)
next
  case False
  have "j \<noteq> JNull" using assms(2) by auto
  then have "accepted st j (initializeSurvey j st)"
    using initializeSurvey_accepted[OF False parse_definition_not_string[OF assms(1)] _ assms(3)]
    by blast
  then have "is_unchanged (initializeSurvey j st) j"
    using assms(2) by (rule is_unchanged_accepted)
  then show ?thesis by (rule initializeSurvey_skip)
qed

theorem initializeSurvey_idempotent_witness:
  "(\<forall>txt. JObj [(''title'', JStr ''T'')] \<noteq> JStr txt) \<and> js_truthy (JObj [(''title'', JStr ''T'')]) \<and>
   distinct (map fst (questionValues init_page)) \<and>
   initializeSurvey (JObj [(''title'', JStr ''T'')]) (initializeSurvey (JObj [(''title'', JStr ''T'')]) init_page) =
     log (LogInfo ''Identical survey JSON. Skipping re-initialization.'')
       (initializeSurvey (JObj [(''title'', JStr ''T'')]) init_page)"
  using initializeSurvey_idempotent[of "JObj [(''title'', JStr ''T'')]" init_page]
  by (simp add: init_page_def)

text \<open>
  C2. A rebuild keeps answers: when the live instance gives question \<open>n\<close> a
  value and the new definition also has a question \<open>n\<close>, the new instance
  gives \<open>n\<close> the same value.
\<close>

theorem initializeSurvey_preserves_value:
  assumes "survey st = Some s" and "question_value s n = Some v" and "n \<in> question_names s"
    and "n \<in> definition_names d" and "parse_definition j = Inr d" and "d \<noteq> JNull"
    and "\<not> is_unchanged st j" and "distinct (map fst (questionValues st))"
  shows "\<exists>s'. survey (initializeSurvey j st) = Some s' \<and> question_value s' n = Some v"
proof -
  have acc: "accepted st d (initializeSurvey j st)"
    using initializeSurvey_accepted[OF assms(7,5,6,8)] by blast
  then obtain s' where s': "survey (initializeSurvey j st) = Some s'"
    and nm: "map qname (questions s') = map qname (definition_questions d)"
    and qv: "\<forall>n\<in>question_names s'. question_value s' n = stored (preserveQuestionValues st) n"
    by (auto simp: accepted_def)
  have "n \<in> question_names s'"
    using assms(4) nm by (simp add: question_names_def definition_names_def flip: set_map)
  moreover have "stored (preserveQuestionValues st) n = Some v"
    using assms(1-3) by (simp add: stored_preserveQuestionValues)
  ultimately show ?thesis using s' qv by auto
qed

theorem initializeSurvey_preserves_value_witness:
  "survey (set_question_value ''q1'' (Some (JStr ''x''))
            (initializeSurvey (sample_definition [sample_question ''q1'' ''text'']) init_page)) =
     Some (the (survey (set_question_value ''q1'' (Some (JStr ''x''))
            (initializeSurvey (sample_definition [sample_question ''q1'' ''text'']) init_page)))) \<and>
   question_value (the (survey (set_question_value ''q1'' (Some (JStr ''x''))
            (initializeSurvey (sample_definition [sample_question ''q1'' ''text'']) init_page)))) ''q1''
     = Some (JStr ''x'') \<and>
   ''q1'' \<in> question_names (the (survey (set_question_value ''q1'' (Some (JStr ''x''))
            (initializeSurvey (sample_definition [sample_question ''q1'' ''text'']) init_page)))) \<and>
   ''q1'' \<in> definition_names (sample_definition [sample_question ''q1'' ''text'', sample_question ''q2'' ''dropdown'']) \<and>
   parse_definition (sample_definition [sample_question ''q1'' ''text'', sample_question ''q2'' ''dropdown'']) =
     Inr (sample_definition [sample_question ''q1'' ''text'', sample_question ''q2'' ''dropdown'']) \<and>
   sample_definition [sample_question ''q1'' ''text'', sample_question ''q2'' ''dropdown''] \<noteq> JNull \<and>
   \<not> is_unchanged (set_question_value ''q1'' (Some (JStr ''x''))
            (initializeSurvey (sample_definition [sample_question ''q1'' ''text'']) init_page))
       (sample_definition [sample_question ''q1'' ''text'', sample_question ''q2'' ''dropdown'']) \<and>
   distinct (map fst (questionValues (set_question_value ''q1'' (Some (JStr ''x''))
            (initializeSurvey (sample_definition [sample_question ''q1'' ''text'']) init_page)))) \<and>
   (\<exists>s'. survey (initializeSurvey (sample_definition [sample_question ''q1'' ''text'', sample_question ''q2'' ''dropdown''])
                    (set_question_value ''q1'' (Some (JStr ''x''))
                      (initializeSurvey (sample_definition [sample_question ''q1'' ''text'']) init_page))) = Some s' \<and>
          question_value s' ''q1'' = Some (JStr ''x''))"
  (is "?h1 \<and> ?h2 \<and> ?h3 \<and> ?h4 \<and> ?h5 \<and> ?h6 \<and> ?h7 \<and> ?h8 \<and> ?c")
proof -
  have h: "?h1 \<and> ?h2 \<and> ?h3 \<and> ?h4 \<and> ?h5 \<and> ?h6 \<and> ?h7 \<and> ?h8" by code_simp
  then have ?c by (blast intro: initializeSurvey_preserves_value)
  with h show ?thesis by blast
qed

end
