(* ===== verification/Mutators.thy ===== *)
theory Mutators
  imports Controller
begin

text \<open>
  The Field Mutators of \<open>src/www/survey.js\<close>: the handlers of the
  \<open>updateText\<close> message (lines 134--181) and of the \<open>updateChoices\<close> message
  (lines 183--219). Both first check that a survey is loaded and that it has the
  target question, and otherwise log and return. \<open>updateText\<close> writes the text
  as value and display value, forces the DOM control, renders, and runs the
  optional callback inside \<open>try\<close>. \<open>updateChoices\<close> replaces the choice list
  and, only when the current value is truthy and among the new choices, writes
  it back, forces the control and renders. Its \<open>map\<close> over the payload calls
  \<open>replace\<close> on every element, so a payload that is not an array of strings
  throws \<open>TypeError\<close> out of the handler before anything changes: the result
  type is \<open>error + page\<close>.

  A callback arrives either as a function (with what it does to its arguments:
  return or throw) or, as every value a JSON message can carry, as data; calling
  data throws \<open>TypeError\<close>, which the \<open>catch\<close> logs.
\<close>

datatype cb_outcome = CbReturns | CbThrows error

datatype callback = CbFun "json option \<Rightarrow> question \<Rightarrow> cb_outcome" | CbData json

record text_update =
  tu_target :: string
  tu_text :: "json option"
  tu_callback :: "callback option"

record choices_update =
  cu_target :: string
  cu_choices :: json

definition set_display :: "string \<Rightarrow> json option \<Rightarrow> page \<Rightarrow> page" where
  "set_display n v = map_survey (update_question n (\<lambda>q. q\<lparr>qdisplay := v\<rparr>))"

text \<open>Lines 156--168 and 209--215: the control found is given the value, then the events.\<close>

definition force_control :: "string \<Rightarrow> string \<Rightarrow> dom_event list \<Rightarrow> page \<Rightarrow> page" where
  "force_control n str evs st =
     (case survey st of
        None \<Rightarrow> st
      | Some s \<Rightarrow>
          (case getQuestionByName s n of
             None \<Rightarrow> st
           | Some q \<Rightarrow>
               (case qcontrol q of
                  NoControl \<Rightarrow> st
                | Control _ \<Rightarrow>
                    (map_survey (update_question n (\<lambda>q. q\<lparr>qcontrol := Control str\<rparr>)) st)
                      \<lparr>dom_events := dom_events st @ evs\<rparr>)))"

text \<open>Lines 173--180.\<close>

definition run_callback :: "text_update \<Rightarrow> page \<Rightarrow> page" where
  "run_callback data st =
     (case tu_callback data of
        None \<Rightarrow> st
      | Some (CbData j) \<Rightarrow>
          if js_truthy j then log (LogException ''Error in update text callback:'' TypeError) st else st
      | Some (CbFun f) \<Rightarrow>
          (case survey st of
             None \<Rightarrow> st
           | Some s \<Rightarrow>
               (case getQuestionByName s (tu_target data) of
                  None \<Rightarrow> st
                | Some q \<Rightarrow>
                    (case f (tu_text data) q of
                       CbReturns \<Rightarrow> st
                     | CbThrows e \<Rightarrow> log (LogException ''Error in update text callback:'' e) st))))"

definition updateText :: "text_update \<Rightarrow> page \<Rightarrow> page" where
  "updateText data st =
     (case survey st of
        None \<Rightarrow> log (LogError ''Survey not initialized when trying to update text'') st
      | Some s \<Rightarrow>
          (case getQuestionByName s (tu_target data) of
             None \<Rightarrow> log (LogWarn ''Target question not found:'' (tu_target data)) st
           | Some q \<Rightarrow>
               (let n = tu_target data;
                    st1 = set_question_value n (tu_text data) st;
                    st2 = set_display n (tu_text data) st1;
                    st3 = force_control n (js_string_of (tu_text data)) [DomChange n, DomInput n] st2;
                    st4 = render_survey st3
                in run_callback data st4)))"

text \<open>\<open>choice.replace(/_/g, ' ')\<close>.\<close>

definition underscores_to_spaces :: "string \<Rightarrow> string" where
  "underscores_to_spaces s = map (\<lambda>c. if c = CHR ''_'' then CHR '' '' else c) s"

text \<open>\<open>data.choices.map(\<dots>)\<close>: \<open>replace\<close> exists on strings only.\<close>

fun choice_strings_list :: "json list \<Rightarrow> error + string list" where
  "choice_strings_list [] = Inr []"
| "choice_strings_list (JStr c # xs) =
     (case choice_strings_list xs of Inl e \<Rightarrow> Inl e | Inr cs \<Rightarrow> Inr (c # cs))"
| "choice_strings_list (_ # xs) = Inl TypeError"

definition choice_strings :: "json \<Rightarrow> error + string list" where
  "choice_strings cs = (case cs of JArr xs \<Rightarrow> choice_strings_list xs | _ \<Rightarrow> Inl TypeError)"

definition choice_items :: "string list \<Rightarrow> choice_item list" where
  "choice_items cs = map (\<lambda>c. \<lparr>cvalue = JStr c, ctext = JStr (underscores_to_spaces c)\<rparr>) cs"

text \<open>
  \<open>Array.prototype.includes\<close> compares with SameValueZero: primitives by value,
  arrays and objects by reference, and the current value is never the same
  object as an element of a freshly received payload.
\<close>

definition js_includes :: "json list \<Rightarrow> json option \<Rightarrow> bool" where
  "js_includes xs v =
     (case v of
        None \<Rightarrow> False
      | Some (JArr _) \<Rightarrow> False
      | Some (JObj _) \<Rightarrow> False
      | Some x \<Rightarrow> x \<in> set xs)"

definition js_truthy_opt :: "json option \<Rightarrow> bool" where
  "js_truthy_opt v = (case v of None \<Rightarrow> False | Some x \<Rightarrow> js_truthy x)"

definition updateChoices :: "choices_update \<Rightarrow> page \<Rightarrow> error + page" where
  "updateChoices data st =
     (case survey st of
        None \<Rightarrow> Inr (log (LogError ''Survey not initialized when trying to update choices'') st)
      | Some s \<Rightarrow>
          (case getQuestionByName s (cu_target data) of
             None \<Rightarrow> Inr (log (LogWarn ''Target question not found:'' (cu_target data)) st)
           | Some q \<Rightarrow>
               (let n = cu_target data;
                    currentValue = question_value s n
                in case choice_strings (cu_choices data) of
                     Inl e \<Rightarrow> Inl e
                   | Inr cs \<Rightarrow>
                       (let st1 = map_survey (update_question n (\<lambda>q. q\<lparr>qchoices := choice_items cs\<rparr>)) st
                        in if js_truthy_opt currentValue \<and> js_includes (map JStr cs) currentValue
                           then
                             (let c = js_string_of currentValue;
                                  st2 = set_question_value n currentValue st1;
                                  st3 = set_display n (Some (JStr (underscores_to_spaces c))) st2;
                                  st4 = force_control n c [DomChange n] st3
                              in Inr (render_survey st4))
                           else Inr st1))))"

subsection \<open>What the steps of the mutators change\<close>

lemma set_display_frame: "engine_frame st (set_display n v st)"
  unfolding set_display_def by (rule map_survey_frame) simp

lemma stored_set_display [simp]: "stored (set_display n v st) = stored st"
  by (simp add: set_display_def fun_eq_iff)

lemma synced_at_set_display [simp]: "synced_at N (set_display n v st) = synced_at N st"
  by (simp add: set_display_def synced_at_map_survey)

lemma survey_set_display:
  "survey (set_display n v st) = map_option (update_question n (\<lambda>q. q\<lparr>qdisplay := v\<rparr>)) (survey st)"
  by (simp add: set_display_def)

lemma force_control_cases:
  "force_control n str evs st = st \<or>
   force_control n str evs st =
     (map_survey (update_question n (\<lambda>q. q\<lparr>qcontrol := Control str\<rparr>)) st)\<lparr>dom_events := dom_events st @ evs\<rparr>"
  by (auto simp: force_control_def split: option.split control.split)

lemma force_control_frame: "engine_frame st (force_control n str evs st)"
proof -
  have "engine_frame st (map_survey (update_question n (\<lambda>q. q\<lparr>qcontrol := Control str\<rparr>)) st)"
    by (rule map_survey_frame) simp
  then show ?thesis using force_control_cases[of n str evs st] by (auto intro: dom_events_frame)
qed

lemma stored_force_control [simp]: "stored (force_control n str evs st) = stored st"
  using force_control_cases[of n str evs st] by (auto simp: fun_eq_iff)

lemma synced_at_force_control [simp]: "synced_at N (force_control n str evs st) = synced_at N st"
  using force_control_cases[of n str evs st] by (auto simp: synced_at_map_survey)

lemma question_value_force_control:
  "map_option (\<lambda>s. question_value s m) (survey (force_control n str evs st)) =
   map_option (\<lambda>s. question_value s m) (survey st)"
  using force_control_cases[of n str evs st] by (auto simp: map_survey_def option.map_comp comp_def)

lemma run_callback_cases: "run_callback data st = st \<or> (\<exists>e. run_callback data st = log e st)"
  by (auto simp: run_callback_def split: option.split callback.split cb_outcome.split)

lemma log_fields [simp]:
  "survey (log e st) = survey st" "stored (log e st) = stored st"
  "questionValues (log e st) = questionValues st" "built (log e st) = built st"
  "container (log e st) = container st" "uncaught (log e st) = uncaught st"
  "outbox (log e st) = outbox st"
  by (simp_all add: log_def)

lemma run_callback_fields [simp]:
  "survey (run_callback data st) = survey st" "stored (run_callback data st) = stored st"
  "questionValues (run_callback data st) = questionValues st"
  using run_callback_cases[of data st] by auto

lemma updateText_found:
  assumes "survey st = Some s" and "tu_target data \<in> question_names s"
  shows "updateText data st =
           run_callback data (render_survey
             (force_control (tu_target data) (js_string_of (tu_text data))
                [DomChange (tu_target data), DomInput (tu_target data)]
                (set_display (tu_target data) (tu_text data)
                   (set_question_value (tu_target data) (tu_text data) st))))"
proof -
  obtain q where "getQuestionByName s (tu_target data) = Some q"
    using assms(2) by (cases "getQuestionByName s (tu_target data)") (auto simp: getQuestionByName_None_iff)
  then show ?thesis using assms(1) by (simp add: updateText_def Let_def)
qed

text \<open>Both mutators write a value, a display value and the control, then render.\<close>

lemma write_render_frame:
  "engine_frame st (render_survey (force_control n str evs (set_display n d (set_question_value n v st))))"
  by (meson engine_frame_trans set_question_value_frame set_display_frame force_control_frame
            render_survey_frame)

lemma write_render_synced:
  assumes "synced_at N st"
    and "\<And>s. survey st = Some s \<Longrightarrow> n \<in> N \<Longrightarrow> OnValueChanged \<in> set (handlers s) \<or> stored st n = v"
  shows "synced_at N (render_survey (force_control n str evs (set_display n d (set_question_value n v st))))"
  using set_question_value_synced[OF assms] by (intro render_survey_synced) simp

lemma renders_set_display [simp]:
  "map_option renders (survey (set_display n v st)) = map_option renders (survey st)"
  by (cases "survey st") (simp_all add: set_display_def update_question_def)

lemma renders_force_control [simp]:
  "map_option renders (survey (force_control n str evs st)) = map_option renders (survey st)"
  using force_control_cases[of n str evs st]
  by (cases "survey st") (auto simp: update_question_def)

subsection \<open>updateText\<close>

text \<open>
  C12. Without a loaded survey, or without the target question, \<open>updateText\<close>
  changes nothing but the console, where it logs one error or one warning.
\<close>

theorem updateText_no_target:
  assumes "case survey st of None \<Rightarrow> True | Some s \<Rightarrow> tu_target data \<notin> question_names s"
  shows "updateText data st =
           log (if survey st = None then LogError ''Survey not initialized when trying to update text''
                else LogWarn ''Target question not found:'' (tu_target data)) st"
proof (cases "survey st")
  case None
  then show ?thesis by (simp add: updateText_def)
next
  case (Some s)
  with assms have "getQuestionByName s (tu_target data) = None" by (simp add: getQuestionByName_None_iff)
  with Some show ?thesis by (simp add: updateText_def)
qed

text \<open>
  C16. On a loaded survey whose value-changed handler is registered and whose
  store agrees with the target's value, \<open>updateText\<close> leaves the target with
  the new text as value, recorded in the store as well.
\<close>

theorem updateText_sets_value:
  assumes s: "survey st = Some s" and n: "tu_target data \<in> question_names s"
    and h: "OnValueChanged \<in> set (handlers s)" and sy: "synced_at {tu_target data} st"
  shows "\<exists>s'. survey (updateText data st) = Some s' \<and>
           question_value s' (tu_target data) = tu_text data \<and>
           stored (updateText data st) (tu_target data) = tu_text data"
proof -
  let ?n = "tu_target data" and ?t = "tu_text data"
  let ?st1 = "set_question_value ?n ?t st"
  let ?st3 = "force_control ?n (js_string_of ?t) [DomChange ?n, DomInput ?n] (set_display ?n ?t ?st1)"
  have sy1: "synced_at {?n} ?st1" using sy s h by (intro set_question_value_synced) auto
  have st1: "stored ?st1 ?n = ?t" using s h sy by (auto simp: stored_set_question_value synced_at_def)
  have sy4: "synced_at {?n} (render_survey ?st3)" using sy1 by (intro render_survey_synced) simp
  have st4: "stored (render_survey ?st3) ?n = ?t" using st1 by simp
  have "engine_frame st (render_survey ?st3)"
    by (meson engine_frame_trans set_question_value_frame set_display_frame force_control_frame
              render_survey_frame)
  then obtain s' where s': "survey (render_survey ?st3) = Some s'"
    using s by (cases "survey (render_survey ?st3)") (auto simp: engine_frame_def)
  then show ?thesis using updateText_found[OF s n] sy4 st4 by (auto simp: synced_at_def)
qed

text \<open>
  C20. A callback that throws is isolated: the run is the run without the
  callback, plus one logged error.
\<close>

theorem updateText_callback_isolated:
  assumes s: "survey st = Some s" and n: "tu_target data \<in> question_names s"
    and cb: "tu_callback data = Some (CbFun f)" and thr: "\<forall>q. f (tu_text data) q = CbThrows e"
  shows "updateText data st =
           log (LogException ''Error in update text callback:'' e) (updateText (data\<lparr>tu_callback := None\<rparr>) st)"
proof -
  let ?n = "tu_target data" and ?t = "tu_text data"
  let ?st4 = "render_survey (force_control ?n (js_string_of ?t) [DomChange ?n, DomInput ?n]
                (set_display ?n ?t (set_question_value ?n ?t st)))"
  have "engine_frame st ?st4"
    by (meson engine_frame_trans set_question_value_frame set_display_frame force_control_frame
              render_survey_frame)
  then obtain s4 where s4: "survey ?st4 = Some s4" "question_names s4 = question_names s"
    using engine_frame_survey[OF _ s] by blast
  then obtain q where "getQuestionByName s4 ?n = Some q"
    using n by (cases "getQuestionByName s4 ?n") (auto simp: getQuestionByName_None_iff)
  then have "run_callback data ?st4 = log (LogException ''Error in update text callback:'' e) ?st4"
    using s4 cb thr by (simp add: run_callback_def)
  moreover have "updateText (data\<lparr>tu_callback := None\<rparr>) st = ?st4"
    using updateText_found[of st s "data\<lparr>tu_callback := None\<rparr>"] s n by (simp add: run_callback_def)
  ultimately show ?thesis using updateText_found[OF s n] by simp
qed

subsection \<open>updateChoices\<close>

lemma choice_strings_list_Inr: "choice_strings_list (map JStr cs) = Inr cs"
  by (induction cs) auto

lemma choice_strings_list_Inl:
  "(choice_strings_list xs = Inl e) \<longleftrightarrow> e = TypeError \<and> (\<exists>x\<in>set xs. \<forall>c. x \<noteq> JStr c)"
  by (induction xs rule: choice_strings_list.induct) (auto split: sum.split)

lemma choice_strings_Inl:
  "(choice_strings j = Inl e) \<longleftrightarrow>
     e = TypeError \<and> \<not> (\<exists>xs. j = JArr xs \<and> (\<forall>x\<in>set xs. \<exists>c. x = JStr c))"
  by (cases j) (auto simp: choice_strings_def choice_strings_list_Inl)

text \<open>The test of line 203, for the choices as sent: a non-empty string among them.\<close>

lemma retained_iff:
  "(js_truthy_opt v \<and> js_includes (map JStr cs) v) \<longleftrightarrow> (\<exists>c. v = Some (JStr c) \<and> c \<noteq> [] \<and> c \<in> set cs)"
  by (auto simp: js_truthy_opt_def js_includes_def split: option.splits json.splits)

lemma updateChoices_found:
  assumes "survey st = Some s" and "cu_target data \<in> question_names s"
    and "choice_strings (cu_choices data) = Inr cs"
  shows "updateChoices data st =
           Inr (let n = cu_target data;
                    st1 = map_survey (update_question n (\<lambda>q. q\<lparr>qchoices := choice_items cs\<rparr>)) st
                in if \<exists>c. question_value s n = Some (JStr c) \<and> c \<noteq> [] \<and> c \<in> set cs
                   then render_survey
                          (force_control n (js_string_of (question_value s n)) [DomChange n]
                            (set_display n (Some (JStr (underscores_to_spaces (js_string_of (question_value s n)))))
                              (set_question_value n (question_value s n) st1)))
                   else st1)"
proof -
  obtain q where "getQuestionByName s (cu_target data) = Some q"
    using assms(2) by (cases "getQuestionByName s (cu_target data)") (auto simp: getQuestionByName_None_iff)
  then show ?thesis using assms(1,3) retained_iff[of "question_value s (cu_target data)" cs]
    by (auto simp: updateChoices_def Let_def)
qed

text \<open>
  C13. Without a loaded survey, or without the target question,
  \<open>updateChoices\<close> changes nothing but the console.
\<close>

theorem updateChoices_no_target:
  assumes "case survey st of None \<Rightarrow> True | Some s \<Rightarrow> cu_target data \<notin> question_names s"
  shows "updateChoices data st =
           Inr (log (if survey st = None then LogError ''Survey not initialized when trying to update choices''
                     else LogWarn ''Target question not found:'' (cu_target data)) st)"
proof (cases "survey st")
  case None
  then show ?thesis by (simp add: updateChoices_def)
next
  case (Some s)
  with assms have "getQuestionByName s (cu_target data) = None" by (simp add: getQuestionByName_None_iff)
  with Some show ?thesis by (simp add: updateChoices_def)
qed

text \<open>
  C21. A payload that is not an array of strings makes \<open>updateChoices\<close> throw
  \<open>TypeError\<close> to its caller, the Bridge, before it changes anything.
\<close>

theorem updateChoices_throws_on_non_strings:
  assumes "survey st = Some s" and "cu_target data \<in> question_names s"
    and "\<not> (\<exists>xs. cu_choices data = JArr xs \<and> (\<forall>x\<in>set xs. \<exists>c. x = JStr c))"
  shows "updateChoices data st = Inl TypeError"
proof -
  obtain q where "getQuestionByName s (cu_target data) = Some q"
    using assms(2) by (cases "getQuestionByName s (cu_target data)") (auto simp: getQuestionByName_None_iff)
  moreover have "choice_strings (cu_choices data) = Inl TypeError"
    using assms(3) by (simp add: choice_strings_Inl)
  ultimately show ?thesis using assms(1) by (simp add: updateChoices_def Let_def)
qed

lemma choice_items_fields:
  "map cvalue (choice_items cs) = map JStr cs"
  "map ctext (choice_items cs) = map (\<lambda>c. JStr (underscores_to_spaces c)) cs"
  by (simp_all add: choice_items_def)

lemma underscores_to_spaces_no_underscore:
  "CHR ''_'' \<notin> set (underscores_to_spaces c) \<and> length (underscores_to_spaces c) = length c"
  by (auto simp: underscores_to_spaces_def)

lemma choices_step:
  assumes "survey st = Some s" and "n \<in> question_names s"
  shows "\<exists>s1 q. survey (map_survey (update_question n (\<lambda>q. q\<lparr>qchoices := items\<rparr>)) st) = Some s1 \<and>
           getQuestionByName s1 n = Some (q\<lparr>qchoices := items\<rparr>) \<and>
           (\<forall>m. question_value s1 m = question_value s m) \<and> renders s1 = renders s \<and>
           question_names s1 = question_names s \<and> handlers s1 = handlers s"
proof -
  obtain q where "getQuestionByName s n = Some q"
    using assms(2) by (cases "getQuestionByName s n") (auto simp: getQuestionByName_None_iff)
  then show ?thesis using assms(1)
    by (auto simp: getQuestionByName_update_question) (simp_all add: update_question_def)
qed

text \<open>The choices a question was given survive every engine operation.\<close>

lemma choices_after_frame:
  assumes fr: "engine_frame st1 st'" and s1: "survey st1 = Some s1"
    and q1: "getQuestionByName s1 n = Some q1"
  shows "\<exists>s' q'. survey st' = Some s' \<and> getQuestionByName s' n = Some q' \<and> qchoices q' = qchoices q1"
proof -
  obtain s' where s': "survey st' = Some s'" "shape s' = shape s1"
    using engine_frame_survey[OF fr s1] by blast
  then have "map qname (questions s') = map qname (questions s1)"
    "map qchoices (questions s') = map qchoices (questions s1)" by (simp_all add: shape_def)
  then have "map_option qchoices (getQuestionByName s' n) = Some (qchoices q1)"
    using q1 find_qname_map_eq[of "questions s'" "questions s1" qchoices n]
    by (simp add: getQuestionByName_def)
  with s'(1) show ?thesis by auto
qed

lemma updateChoices_choices:
  assumes s: "survey st = Some s" and n: "cu_target data \<in> question_names s"
    and cs: "cu_choices data = JArr (map JStr cs)"
  shows "\<exists>st' s' q. updateChoices data st = Inr st' \<and> survey st' = Some s' \<and>
           getQuestionByName s' (cu_target data) = Some q \<and> qchoices q = choice_items cs"
proof -
  let ?n = "cu_target data"
  let ?st1 = "map_survey (update_question ?n (\<lambda>q. q\<lparr>qchoices := choice_items cs\<rparr>)) st"
  have cstr: "choice_strings (cu_choices data) = Inr cs"
    using cs by (simp add: choice_strings_def choice_strings_list_Inr)
  obtain s1 q where s1: "survey ?st1 = Some s1" and q1: "getQuestionByName s1 ?n = Some (q\<lparr>qchoices := choice_items cs\<rparr>)"
    using choices_step[OF s n] by blast
  obtain st' where eq: "updateChoices data st = Inr st'" and fr: "engine_frame ?st1 st'"
    using updateChoices_found[OF s n cstr] write_render_frame by (simp add: Let_def)
  obtain s' q' where "survey st' = Some s'" "getQuestionByName s' ?n = Some q'"
      "qchoices q' = choice_items cs"
    using choices_after_frame[OF fr s1 q1] by auto
  then show ?thesis using eq by auto
qed

text \<open>
  C15. When the payload is an array of strings, \<open>updateChoices\<close> gives the
  target question one choice per string: the string as value and, as label,
  the string with each underscore replaced by a space.
\<close>

theorem updateChoices_sets_choices:
  assumes s: "survey st = Some s" and n: "cu_target data \<in> question_names s"
    and cs: "cu_choices data = JArr (map JStr cs)"
  shows "\<exists>st' s' q. updateChoices data st = Inr st' \<and> survey st' = Some s' \<and>
           getQuestionByName s' (cu_target data) = Some q \<and>
           map cvalue (qchoices q) = map JStr cs \<and>
           map ctext (qchoices q) = map (\<lambda>c. JStr (underscores_to_spaces c)) cs"
  using updateChoices_choices[OF assms] by (auto simp: choice_items_fields)

text \<open>
  C7. When the current value of the target is not a non-empty string among
  the new choices, \<open>updateChoices\<close> replaces the choices and stops: the stale
  value stays and the survey is not rendered again.
\<close>

theorem updateChoices_keeps_stale_value:
  assumes s: "survey st = Some s" and n: "cu_target data \<in> question_names s"
    and cs: "cu_choices data = JArr (map JStr cs)"
    and stale: "\<not> (\<exists>c. question_value s (cu_target data) = Some (JStr c) \<and> c \<noteq> [] \<and> c \<in> set cs)"
  shows "\<exists>st' s'. updateChoices data st = Inr st' \<and> survey st' = Some s' \<and>
           question_value s' (cu_target data) = question_value s (cu_target data) \<and>
           renders s' = renders s"
proof -
  have cstr: "choice_strings (cu_choices data) = Inr cs"
    using cs by (simp add: choice_strings_def choice_strings_list_Inr)
  show ?thesis
    using updateChoices_found[OF s n cstr] stale choices_step[OF s n, of "choice_items cs"]
    by (auto simp: Let_def)
qed

text \<open>
  C22. When the current value is a non-empty string among the new choices and
  the store agrees with it, \<open>updateChoices\<close> keeps that value and renders the
  survey once more.
\<close>

theorem updateChoices_retains_value:
  assumes s: "survey st = Some s" and n: "cu_target data \<in> question_names s"
    and cs: "cu_choices data = JArr (map JStr cs)"
    and v: "question_value s (cu_target data) = Some (JStr c)" "c \<noteq> []" "c \<in> set cs"
    and sy: "synced_at {cu_target data} st"
  shows "\<exists>st' s'. updateChoices data st = Inr st' \<and> survey st' = Some s' \<and>
           question_value s' (cu_target data) = Some (JStr c) \<and> renders s' = Suc (renders s)"
proof -
  let ?n = "cu_target data" and ?v = "Some (JStr c)"
  let ?st1 = "map_survey (update_question ?n (\<lambda>q. q\<lparr>qchoices := choice_items cs\<rparr>)) st"
  let ?st' = "render_survey (force_control ?n c [DomChange ?n]
                (set_display ?n (Some (JStr (underscores_to_spaces c))) (set_question_value ?n ?v ?st1)))"
  have cstr: "choice_strings (cu_choices data) = Inr cs"
    using cs by (simp add: choice_strings_def choice_strings_list_Inr)
  have eq: "updateChoices data st = Inr ?st'"
    using updateChoices_found[OF s n cstr] v by (simp add: Let_def js_string_of_def)
  obtain s1 where s1: "survey ?st1 = Some s1" "\<forall>m. question_value s1 m = question_value s m"
    "renders s1 = renders s"
    using choices_step[OF s n, of "choice_items cs"] by blast
  have sy1: "synced_at {?n} ?st1" using sy by (simp add: synced_at_map_survey)
  have st1: "stored ?st1 ?n = ?v" using sy s v by (simp add: synced_at_def)
  have sy': "synced_at {?n} ?st'"
    using sy1 st1 by (intro write_render_synced) auto
  have "question_value s1 ?n = ?v" using s1 v by simp
  then have "stored (set_question_value ?n ?v ?st1) ?n = stored ?st1 ?n"
    using s1(1) by (simp add: stored_set_question_value del: survey_map_survey)
  then have "stored ?st' ?n = ?v" using st1 by simp
  moreover obtain s' where s': "survey ?st' = Some s'"
    using engine_frame_survey[OF write_render_frame s1(1)] by blast
  moreover have "renders s' = Suc (renders s)"
  proof -
    let ?x = "force_control ?n c [DomChange ?n]
                (set_display ?n (Some (JStr (underscores_to_spaces c))) (set_question_value ?n ?v ?st1))"
    have "map_option renders (survey ?x) = map_option renders (survey ?st1)" by simp
    then have "map_option renders (survey ?x) = Some (renders s1)"
      using s1(1) by (simp del: survey_map_survey)
    then obtain s3 where s3: "survey ?x = Some s3" "renders s3 = renders s1"
      unfolding map_option_eq_Some by blast
    have "map_option renders (survey ?st') = Some (Suc (renders s3))"
      using renders_render_survey[of ?x] s3(1) by simp
    then show ?thesis using s' s1(3) s3(2) by simp
  qed
  ultimately show ?thesis using eq sy' by (auto simp: synced_at_def)
qed

subsection \<open>Concrete runs\<close>

text \<open>
  A page after loading a one-question survey of the given type and then giving
  the question a value.
\<close>

definition sample_page :: "string \<Rightarrow> json option \<Rightarrow> page" where
  "sample_page ty v =
     set_question_value ''q1'' v
       (initializeSurvey (sample_definition [sample_question ''q1'' ty]) init_page)"

theorem updateText_no_target_witness:
  "(case survey (sample_page ''text'' None) of None \<Rightarrow> True
    | Some s \<Rightarrow> tu_target \<lparr>tu_target = ''q2'', tu_text = Some (JStr ''hello''), tu_callback = None\<rparr> \<notin> question_names s) \<and>
   updateText \<lparr>tu_target = ''q2'', tu_text = Some (JStr ''hello''), tu_callback = None\<rparr> (sample_page ''text'' None) =
     log (LogWarn ''Target question not found:'' ''q2'') (sample_page ''text'' None)"
proof -
  have h: "case survey (sample_page ''text'' None) of None \<Rightarrow> True
    | Some s \<Rightarrow> tu_target \<lparr>tu_target = ''q2'', tu_text = Some (JStr ''hello''), tu_callback = None\<rparr> \<notin> question_names s"
    by code_simp
  have ne: "(survey (sample_page ''text'' None) = None) = False" by code_simp
  show ?thesis using h updateText_no_target[OF h] by (simp only: ne if_False simp_thms) simp
qed

theorem updateText_sets_value_witness:
  "survey (sample_page ''text'' None) = Some (the (survey (sample_page ''text'' None))) \<and>
   tu_target \<lparr>tu_target = ''q1'', tu_text = Some (JStr ''hello''), tu_callback = None\<rparr>
     \<in> question_names (the (survey (sample_page ''text'' None))) \<and>
   OnValueChanged \<in> set (handlers (the (survey (sample_page ''text'' None)))) \<and>
   synced_at {tu_target \<lparr>tu_target = ''q1'', tu_text = Some (JStr ''hello''), tu_callback = None\<rparr>}
     (sample_page ''text'' None) \<and>
   (\<exists>s'. survey (updateText \<lparr>tu_target = ''q1'', tu_text = Some (JStr ''hello''), tu_callback = None\<rparr>
                    (sample_page ''text'' None)) = Some s' \<and>
          question_value s' ''q1'' = Some (JStr ''hello'') \<and>
          stored (updateText \<lparr>tu_target = ''q1'', tu_text = Some (JStr ''hello''), tu_callback = None\<rparr>
                    (sample_page ''text'' None)) ''q1'' = Some (JStr ''hello''))"
  (is "?h1 \<and> ?h2 \<and> ?h3 \<and> ?h4 \<and> ?c")
proof -
  have h: "?h1 \<and> ?h2 \<and> ?h3 \<and> ?h4" by code_simp
  then have ?c using updateText_sets_value[of "sample_page ''text'' None" "the (survey (sample_page ''text'' None))"
      "\<lparr>tu_target = ''q1'', tu_text = Some (JStr ''hello''), tu_callback = None\<rparr>"] by simp
  with h show ?thesis by blast
qed

theorem updateText_callback_isolated_witness:
  "survey (sample_page ''text'' None) = Some (the (survey (sample_page ''text'' None))) \<and>
   tu_target \<lparr>tu_target = ''q1'', tu_text = Some (JStr ''hi''), tu_callback = Some (CbFun (\<lambda>_ _. CbThrows TypeError))\<rparr>
     \<in> question_names (the (survey (sample_page ''text'' None))) \<and>
   tu_callback \<lparr>tu_target = ''q1'', tu_text = Some (JStr ''hi''), tu_callback = Some (CbFun (\<lambda>_ _. CbThrows TypeError))\<rparr>
     = Some (CbFun (\<lambda>_ _. CbThrows TypeError)) \<and>
   (\<forall>q. (\<lambda>_ _. CbThrows TypeError) (tu_text \<lparr>tu_target = ''q1'', tu_text = Some (JStr ''hi''),
          tu_callback = Some (CbFun (\<lambda>_ _. CbThrows TypeError))\<rparr>) (q::question) = CbThrows TypeError) \<and>
   updateText \<lparr>tu_target = ''q1'', tu_text = Some (JStr ''hi''), tu_callback = Some (CbFun (\<lambda>_ _. CbThrows TypeError))\<rparr>
       (sample_page ''text'' None) =
     log (LogException ''Error in update text callback:'' TypeError)
       (updateText (\<lparr>tu_target = ''q1'', tu_text = Some (JStr ''hi''),
          tu_callback = Some (CbFun (\<lambda>_ _. CbThrows TypeError))\<rparr>\<lparr>tu_callback := None\<rparr>) (sample_page ''text'' None))"
  (is "?h1 \<and> ?h2 \<and> ?h3 \<and> ?h4 \<and> ?c")
proof -
  have h: "?h1 \<and> ?h2" by code_simp
  have h34: "?h3 \<and> ?h4" by simp
  from h h34 have ?c by (intro updateText_callback_isolated[of _ "the (survey (sample_page ''text'' None))"]) auto
  with h h34 show ?thesis by blast
qed

theorem updateChoices_no_target_witness:
  "(case survey init_page of None \<Rightarrow> True
    | Some s \<Rightarrow> cu_target \<lparr>cu_target = ''q1'', cu_choices = JArr [JStr ''a'']\<rparr> \<notin> question_names s) \<and>
   updateChoices \<lparr>cu_target = ''q1'', cu_choices = JArr [JStr ''a'']\<rparr> init_page =
     Inr (log (LogError ''Survey not initialized when trying to update choices'') init_page)"
  using updateChoices_no_target[where st = init_page and data = "\<lparr>cu_target = ''q1'', cu_choices = JArr [JStr ''a'']\<rparr>"]
  by (simp add: init_page_def)

theorem updateChoices_throws_on_non_strings_witness:
  "survey (sample_page ''dropdown'' None) = Some (the (survey (sample_page ''dropdown'' None))) \<and>
   cu_target \<lparr>cu_target = ''q1'', cu_choices = JArr [JStr ''a'', JNum 1]\<rparr>
     \<in> question_names (the (survey (sample_page ''dropdown'' None))) \<and>
   \<not> (\<exists>xs. cu_choices \<lparr>cu_target = ''q1'', cu_choices = JArr [JStr ''a'', JNum 1]\<rparr> = JArr xs \<and>
          (\<forall>x\<in>set xs. \<exists>c. x = JStr c)) \<and>
   updateChoices \<lparr>cu_target = ''q1'', cu_choices = JArr [JStr ''a'', JNum 1]\<rparr> (sample_page ''dropdown'' None) =
     Inl TypeError"
  (is "?h1 \<and> ?h2 \<and> ?h3 \<and> ?c")
proof -
  have h: "?h1 \<and> ?h2" by code_simp
  have h3: ?h3 by simp
  from h h3 have ?c by (intro updateChoices_throws_on_non_strings[of _ "the (survey (sample_page ''dropdown'' None))"]) auto
  with h h3 show ?thesis by blast
qed

theorem updateChoices_sets_choices_witness:
  "survey (sample_page ''dropdown'' None) = Some (the (survey (sample_page ''dropdown'' None))) \<and>
   cu_target \<lparr>cu_target = ''q1'', cu_choices = JArr (map JStr [''a_1'', ''b_1''])\<rparr>
     \<in> question_names (the (survey (sample_page ''dropdown'' None))) \<and>
   cu_choices \<lparr>cu_target = ''q1'', cu_choices = JArr (map JStr [''a_1'', ''b_1''])\<rparr> = JArr (map JStr [''a_1'', ''b_1'']) \<and>
   (\<exists>st' s' q. updateChoices \<lparr>cu_target = ''q1'', cu_choices = JArr (map JStr [''a_1'', ''b_1''])\<rparr>
                  (sample_page ''dropdown'' None) = Inr st' \<and> survey st' = Some s' \<and>
      getQuestionByName s' ''q1'' = Some q \<and> map cvalue (qchoices q) = [JStr ''a_1'', JStr ''b_1''] \<and>
      map ctext (qchoices q) = [JStr ''a 1'', JStr ''b 1''])"
  (is "?h1 \<and> ?h2 \<and> ?h3 \<and> ?c")
proof -
  have h: "?h1 \<and> ?h2" by code_simp
  have h3: ?h3 by simp
  have u: "map (\<lambda>c. JStr (underscores_to_spaces c)) [''a_1'', ''b_1''] = [JStr ''a 1'', JStr ''b 1'']"
    by (simp add: underscores_to_spaces_def)
  from h h3 have "\<exists>st' s' q. updateChoices \<lparr>cu_target = ''q1'', cu_choices = JArr (map JStr [''a_1'', ''b_1''])\<rparr>
                  (sample_page ''dropdown'' None) = Inr st' \<and> survey st' = Some s' \<and>
      getQuestionByName s' ''q1'' = Some q \<and> map cvalue (qchoices q) = map JStr [''a_1'', ''b_1''] \<and>
      map ctext (qchoices q) = map (\<lambda>c. JStr (underscores_to_spaces c)) [''a_1'', ''b_1'']"
    using updateChoices_sets_choices[where st = "sample_page ''dropdown'' None"
        and s = "the (survey (sample_page ''dropdown'' None))"
        and data = "\<lparr>cu_target = ''q1'', cu_choices = JArr (map JStr [''a_1'', ''b_1''])\<rparr>"
        and cs = "[''a_1'', ''b_1'']"] by simp
  then have ?c unfolding u by simp
  with h h3 show ?thesis by blast
qed

theorem updateChoices_keeps_stale_value_witness:
  "survey (sample_page ''dropdown'' (Some (JStr ''a''))) = Some (the (survey (sample_page ''dropdown'' (Some (JStr ''a''))))) \<and>
   cu_target \<lparr>cu_target = ''q1'', cu_choices = JArr (map JStr [''a_1'', ''b_1''])\<rparr>
     \<in> question_names (the (survey (sample_page ''dropdown'' (Some (JStr ''a''))))) \<and>
   cu_choices \<lparr>cu_target = ''q1'', cu_choices = JArr (map JStr [''a_1'', ''b_1''])\<rparr> = JArr (map JStr [''a_1'', ''b_1'']) \<and>
   \<not> (\<exists>c. question_value (the (survey (sample_page ''dropdown'' (Some (JStr ''a''))))) ''q1'' = Some (JStr c) \<and>
          c \<noteq> [] \<and> c \<in> set [''a_1'', ''b_1'']) \<and>
   (\<exists>st' s'. updateChoices \<lparr>cu_target = ''q1'', cu_choices = JArr (map JStr [''a_1'', ''b_1''])\<rparr>
                 (sample_page ''dropdown'' (Some (JStr ''a''))) = Inr st' \<and> survey st' = Some s' \<and>
      question_value s' ''q1'' = Some (JStr ''a'') \<and>
      renders s' = renders (the (survey (sample_page ''dropdown'' (Some (JStr ''a''))))))"
  (is "?h1 \<and> ?h2 \<and> ?h3 \<and> ?h4 \<and> ?c")
proof -
  have v: "question_value (the (survey (sample_page ''dropdown'' (Some (JStr ''a''))))) ''q1'' = Some (JStr ''a'')"
    by code_simp
  have h: "?h1 \<and> ?h2" by code_simp
  have h3: ?h3 by simp
  have h4: ?h4 by (simp add: v)
  from h h3 h4 have "\<exists>st' s'. updateChoices \<lparr>cu_target = ''q1'', cu_choices = JArr (map JStr [''a_1'', ''b_1''])\<rparr>
                 (sample_page ''dropdown'' (Some (JStr ''a''))) = Inr st' \<and> survey st' = Some s' \<and>
      question_value s' ''q1'' = question_value (the (survey (sample_page ''dropdown'' (Some (JStr ''a''))))) ''q1'' \<and>
      renders s' = renders (the (survey (sample_page ''dropdown'' (Some (JStr ''a'')))))"
    using updateChoices_keeps_stale_value[where st = "sample_page ''dropdown'' (Some (JStr ''a''))"
        and s = "the (survey (sample_page ''dropdown'' (Some (JStr ''a''))))"
        and data = "\<lparr>cu_target = ''q1'', cu_choices = JArr (map JStr [''a_1'', ''b_1''])\<rparr>"
        and cs = "[''a_1'', ''b_1'']"] by simp
  then have ?c unfolding v .
  with h h3 h4 show ?thesis by blast
qed

theorem updateChoices_retains_value_witness:
  "survey (sample_page ''dropdown'' (Some (JStr ''a_1''))) = Some (the (survey (sample_page ''dropdown'' (Some (JStr ''a_1''))))) \<and>
   cu_target \<lparr>cu_target = ''q1'', cu_choices = JArr (map JStr [''a_1'', ''b_1''])\<rparr>
     \<in> question_names (the (survey (sample_page ''dropdown'' (Some (JStr ''a_1''))))) \<and>
   cu_choices \<lparr>cu_target = ''q1'', cu_choices = JArr (map JStr [''a_1'', ''b_1''])\<rparr> = JArr (map JStr [''a_1'', ''b_1'']) \<and>
   question_value (the (survey (sample_page ''dropdown'' (Some (JStr ''a_1''))))) ''q1'' = Some (JStr ''a_1'') \<and>
   ''a_1'' \<noteq> [] \<and> ''a_1'' \<in> set [''a_1'', ''b_1''] \<and>
   synced_at {cu_target \<lparr>cu_target = ''q1'', cu_choices = JArr (map JStr [''a_1'', ''b_1''])\<rparr>}
     (sample_page ''dropdown'' (Some (JStr ''a_1''))) \<and>
   (\<exists>st' s'. updateChoices \<lparr>cu_target = ''q1'', cu_choices = JArr (map JStr [''a_1'', ''b_1''])\<rparr>
                 (sample_page ''dropdown'' (Some (JStr ''a_1''))) = Inr st' \<and> survey st' = Some s' \<and>
      question_value s' ''q1'' = Some (JStr ''a_1'') \<and>
      renders s' = Suc (renders (the (survey (sample_page ''dropdown'' (Some (JStr ''a_1'')))))))"
  (is "?h1 \<and> ?h2 \<and> ?h3 \<and> ?h4 \<and> ?h5 \<and> ?h6 \<and> ?h7 \<and> ?c")
proof -
  have h: "?h1 \<and> ?h2 \<and> ?h4 \<and> ?h7" by code_simp
  have h356: "?h3 \<and> ?h5 \<and> ?h6" by simp
  from h h356 have ?c
    using updateChoices_retains_value[where st = "sample_page ''dropdown'' (Some (JStr ''a_1''))"
        and s = "the (survey (sample_page ''dropdown'' (Some (JStr ''a_1''))))"
        and data = "\<lparr>cu_target = ''q1'', cu_choices = JArr (map JStr [''a_1'', ''b_1''])\<rparr>"
        and cs = "[''a_1'', ''b_1'']" and c = "''a_1''"] by simp
  with h h356 show ?thesis by blast
qed

end
