(* ===== verification/Legacy.thy ===== *)
theory Legacy
  imports Mutators
begin

text \<open>
  The superseded script \<open>src/www/_survey.js\<close>, kept in the repository beside
  \<open>survey.js\<close>. It shares the page state of \<open>Page\<close> and the Form Engine
  contract of \<open>FormEngine\<close>, but keeps no Value Store and no last definition:
  every \<open>loadSurvey\<close> builds a new instance with only the completion handler,
  and \<open>updateChoices\<close> installs the raw values as labels. It handles two
  message kinds only.
\<close>

datatype legacy_inbound = LegacyLoadSurvey json | LegacyUpdateChoices choices_update

text \<open>Lines 4--26. \<open>new Survey.Model\<close> accepts any value, so only \<open>JSON.parse\<close> throws.\<close>

definition legacy_initializeSurvey :: "json \<Rightarrow> page \<Rightarrow> page" where
  "legacy_initializeSurvey surveyJSON st =
     (case parse_definition surveyJSON of
        Inl e \<Rightarrow> log (LogException ''Error initializing survey:'' e) st
      | Inr d \<Rightarrow>
          (let st1 = st\<lparr>survey := Some (survey_of_json (built st) d), built := Suc (built st)\<rparr>;
               st2 = map_survey (\<lambda>s. s\<lparr>handlers := handlers s @ [OnComplete]\<rparr>) st1
           in bind_container st2))"

text \<open>Lines 34--43: \<open>data.choices.map\<close> exists on arrays only; value and label are the raw element.\<close>

definition legacy_updateChoices :: "choices_update \<Rightarrow> page \<Rightarrow> error + page" where
  "legacy_updateChoices data st =
     (case survey st of
        None \<Rightarrow> Inr st
      | Some s \<Rightarrow>
          (case getQuestionByName s (cu_target data) of
             None \<Rightarrow> Inr st
           | Some q \<Rightarrow>
               (case cu_choices data of
                  JArr xs \<Rightarrow>
                    Inr (render_survey
                          (map_survey (update_question (cu_target data)
                             (\<lambda>q. q\<lparr>qchoices := map (\<lambda>c. \<lparr>cvalue = c, ctext = c\<rparr>) xs\<rparr>)) st))
                | _ \<Rightarrow> Inl TypeError)))"

text \<open>Lines 29--43: the two message handlers; an escaping exception is recorded.\<close>

fun legacy_step :: "legacy_inbound \<Rightarrow> page \<Rightarrow> page" where
  "legacy_step (LegacyLoadSurvey j) st = legacy_initializeSurvey j st"
| "legacy_step (LegacyUpdateChoices d) st =
     (case legacy_updateChoices d st of Inl e \<Rightarrow> st\<lparr>uncaught := uncaught st @ [e]\<rparr> | Inr st' \<Rightarrow> st')"

text \<open>A legacy page after loading a one-question dropdown survey.\<close>

definition legacy_sample :: page where
  "legacy_sample = legacy_initializeSurvey (sample_definition [sample_question ''q1'' ''dropdown'']) init_page"

subsection \<open>Rendering without the dropdown hook\<close>

lemma fire_after_render_no_hook:
  "OnAfterRenderQuestion \<notin> set hs \<Longrightarrow> fire_after_render hs i st = st"
  unfolding fire_after_render_def by (induction hs arbitrary: st) auto

lemma render_survey_no_hook:
  assumes "survey st = Some s" and "OnAfterRenderQuestion \<notin> set (handlers s)"
  shows "render_survey st = map_survey (\<lambda>s. s\<lparr>renders := Suc (renders s)\<rparr>) st"
proof -
  have "fold (fire_after_render (handlers s)) idx x = x" for idx x
    using assms(2) by (induction idx arbitrary: x) (simp_all add: fire_after_render_no_hook)
  then show ?thesis using assms(1) by (simp add: render_survey_def)
qed

lemma legacy_updateChoices_choices:
  assumes s: "survey st = Some s" and n: "cu_target d \<in> question_names s" and cs: "cu_choices d = JArr xs"
  shows "\<exists>st' s' q. legacy_updateChoices d st = Inr st' \<and> survey st' = Some s' \<and>
           getQuestionByName s' (cu_target d) = Some q \<and>
           qchoices q = map (\<lambda>c. \<lparr>cvalue = c, ctext = c\<rparr>) xs \<and> renders s' = Suc (renders s)"
proof -
  let ?items = "map (\<lambda>c. \<lparr>cvalue = c, ctext = c\<rparr>) xs"
  let ?st1 = "map_survey (update_question (cu_target d) (\<lambda>q. q\<lparr>qchoices := ?items\<rparr>)) st"
  obtain s1 q where s1: "survey ?st1 = Some s1" and q1: "getQuestionByName s1 (cu_target d) = Some (q\<lparr>qchoices := ?items\<rparr>)"
      and r1: "renders s1 = renders s"
    using choices_step[OF s n] by blast
  obtain q0 where "getQuestionByName s (cu_target d) = Some q0"
    using n by (cases "getQuestionByName s (cu_target d)") (auto simp: getQuestionByName_None_iff)
  then have eq: "legacy_updateChoices d st = Inr (render_survey ?st1)"
    using s cs by (simp add: legacy_updateChoices_def)
  obtain s' q' where "survey (render_survey ?st1) = Some s'" "getQuestionByName s' (cu_target d) = Some q'"
      "qchoices q' = ?items"
    using choices_after_frame[OF render_survey_frame s1 q1] by auto
  moreover have "map_option renders (survey (render_survey ?st1)) = Some (Suc (renders s))"
    using renders_render_survey[of ?st1] by (simp only: s1 r1 option.map comp_def)
  ultimately show ?thesis using eq by auto
qed

text \<open>
  C23. The legacy \<open>updateChoices\<close> gives an existing target question one
  choice per element of the array, with the raw element as both value and
  label, and renders once more.
\<close>

theorem legacy_updateChoices_raw_labels:
  assumes "survey st = Some s" and "cu_target d \<in> question_names s" and "cu_choices d = JArr xs"
  shows "\<exists>st' s' q. legacy_updateChoices d st = Inr st' \<and> survey st' = Some s' \<and>
           getQuestionByName s' (cu_target d) = Some q \<and>
           map cvalue (qchoices q) = xs \<and> map ctext (qchoices q) = xs \<and> renders s' = Suc (renders s)"
  using legacy_updateChoices_choices[OF assms] by (auto simp: comp_def)

text \<open>
  C24. Without a survey, or without the target question, the legacy
  \<open>updateChoices\<close> does nothing at all, not even log.
\<close>

theorem legacy_updateChoices_silent:
  assumes "case survey st of None \<Rightarrow> True | Some s \<Rightarrow> cu_target d \<notin> question_names s"
  shows "legacy_updateChoices d st = Inr st"
  using assms
  by (auto simp: legacy_updateChoices_def getQuestionByName_None_iff split: option.splits
           dest: getQuestionByName_Some_name)

text \<open>
  C25. Every legacy load of a definition that parses builds a fresh instance
  with no values and only the completion handler, bound to the container:
  loading the same definition again rebuilds, and every answer is dropped.
\<close>

theorem legacy_load_discards_answers:
  assumes "parse_definition j = Inr d"
  shows "\<exists>s'. survey (legacy_initializeSurvey j st) = Some s' \<and> sid s' = built st \<and>
           questions s' = definition_questions d \<and> sdata s' = [] \<and> handlers s' = [OnComplete] \<and>
           built (legacy_initializeSurvey j st) = Suc (built st) \<and>
           container (legacy_initializeSurvey j st) = Some (built st)"
proof -
  let ?st2 = "map_survey (\<lambda>s. s\<lparr>handlers := handlers s @ [OnComplete]\<rparr>)
                (st\<lparr>survey := Some (survey_of_json (built st) d), built := Suc (built st)\<rparr>)"
  let ?st3 = "?st2\<lparr>container := map_option sid (survey ?st2)\<rparr>"
  let ?s = "(survey_of_json (built st) d)\<lparr>handlers := [OnComplete]\<rparr>"
  have s3: "survey ?st3 = Some ?s" by (simp add: survey_of_json_def)
  have "render_survey ?st3 = map_survey (\<lambda>s. s\<lparr>renders := Suc (renders s)\<rparr>) ?st3"
    by (rule render_survey_no_hook[OF s3]) simp
  then show ?thesis using assms
    by (simp add: legacy_initializeSurvey_def bind_container_def survey_of_json_def)
qed

subsection \<open>Concrete runs\<close>

theorem legacy_updateChoices_raw_labels_witness:
  "survey legacy_sample = Some (the (survey legacy_sample)) \<and>
   cu_target \<lparr>cu_target = ''q1'', cu_choices = JArr [JStr ''a_1'', JNum 2]\<rparr> \<in> question_names (the (survey legacy_sample)) \<and>
   cu_choices \<lparr>cu_target = ''q1'', cu_choices = JArr [JStr ''a_1'', JNum 2]\<rparr> = JArr [JStr ''a_1'', JNum 2] \<and>
   (\<exists>st' s' q. legacy_updateChoices \<lparr>cu_target = ''q1'', cu_choices = JArr [JStr ''a_1'', JNum 2]\<rparr> legacy_sample = Inr st' \<and>
      survey st' = Some s' \<and> getQuestionByName s' ''q1'' = Some q \<and>
      map cvalue (qchoices q) = [JStr ''a_1'', JNum 2] \<and> map ctext (qchoices q) = [JStr ''a_1'', JNum 2] \<and>
      renders s' = Suc (renders (the (survey legacy_sample))))"
proof -
  have h: "survey legacy_sample = Some (the (survey legacy_sample)) \<and>
           ''q1'' \<in> question_names (the (survey legacy_sample))" by code_simp
  then show ?thesis
    using legacy_updateChoices_raw_labels[of legacy_sample "the (survey legacy_sample)"
        "\<lparr>cu_target = ''q1'', cu_choices = JArr [JStr ''a_1'', JNum 2]\<rparr>" "[JStr ''a_1'', JNum 2]"]
    by simp
qed

theorem legacy_updateChoices_silent_witness:
  "(case survey init_page of None \<Rightarrow> True
    | Some s \<Rightarrow> cu_target \<lparr>cu_target = ''q1'', cu_choices = JArr []\<rparr> \<notin> question_names s) \<and>
   legacy_updateChoices \<lparr>cu_target = ''q1'', cu_choices = JArr []\<rparr> init_page = Inr init_page"
  using legacy_updateChoices_silent[where st = init_page and d = "\<lparr>cu_target = ''q1'', cu_choices = JArr []\<rparr>"]
  by (simp add: init_page_def)

theorem legacy_load_discards_answers_witness:
  "parse_definition (sample_definition [sample_question ''q1'' ''dropdown'']) =
     Inr (sample_definition [sample_question ''q1'' ''dropdown'']) \<and>
   (\<exists>s'. survey (legacy_initializeSurvey (sample_definition [sample_question ''q1'' ''dropdown'']) legacy_sample) = Some s' \<and>
      sid s' = built legacy_sample \<and> sdata s' = [] \<and>
      built (legacy_initializeSurvey (sample_definition [sample_question ''q1'' ''dropdown'']) legacy_sample) =
        Suc (built legacy_sample))"
proof -
  have h: "parse_definition (sample_definition [sample_question ''q1'' ''dropdown'']) =
     Inr (sample_definition [sample_question ''q1'' ''dropdown''])"
    by (simp add: parse_definition_def sample_definition_def)
  show ?thesis using legacy_load_discards_answers[OF h, of legacy_sample] h by auto
qed

end
