(* ===== verification/JsonFuel.thy ===== *)
theory JsonFuel
  imports JsonParse
begin

text \<open>
  The fuel of \<open>json_parse\<close> (\<open>JsonParse\<close>). Every successful call of
  \<open>parse_value\<close>, \<open>parse_elems\<close> or \<open>parse_members\<close> consumes at least one
  character, and needs no more fuel than the characters it consumes; so the
  fuel \<open>json_parse\<close> gives, one more than the length of the text, is
  enough, and more fuel never changes a result.
\<close>

lemma length_skip_ws: "length (skip_ws s) \<le> length s"
  by (induction s) auto

lemma skip_ws_ConsD: "skip_ws s = c # cs \<Longrightarrow> length cs < length s"
  using length_skip_ws[of s] by simp

lemma parse_chars_length: "parse_chars s = Some (x, r) \<Longrightarrow> length r < length s"
proof (induction "length s" arbitrary: s x rule: less_induct)
  case less
  then obtain c cs where s: "s = c # cs" by (cases s) auto
  from less.prems show ?case unfolding s
    by (auto simp: s split: if_splits list.splits option.splits prod.splits dest!: less.hyps[rotated])
qed

lemma takeWhile_drop_length: "takeWhile P s \<noteq> [] \<Longrightarrow> length s - length (takeWhile P s) < length s"
  by (cases s) auto

lemma parse_int_length: "parse_int s = Some (n, r) \<Longrightarrow> length r < length s"
  by (auto simp: parse_int_def Let_def takeWhile_drop_length split: if_splits)

lemma parse_literal_length: "parse_literal s = Some (x, r) \<Longrightarrow> length r < length s"
  by (auto simp: parse_literal_def split: if_splits dest!: arg_cong[where f = length])

lemma parse_length:
  "parse_value f s = Some (v, r) \<Longrightarrow> length r < length s"
  "parse_elems f acc s = Some (v, r) \<Longrightarrow> length r < length s"
  "parse_members f macc s = Some (v, r) \<Longrightarrow> length r < length s"
proof (induction f s and f acc s and f macc s arbitrary: v r and acc v r and macc v r
       rule: parse_value_parse_elems_parse_members.induct)
  case (2 f s)
  from "2.prems" obtain c cs where sk: "skip_ws s = c # cs" by (cases "skip_ws s") auto
  have lc: "length cs < length s" using sk by (rule skip_ws_ConsD)
  show ?case
  proof (cases "c = CHR ''{'' \<or> c = CHR ''[''")
    case True
    then obtain d r0 where sk2: "skip_ws cs = d # r0" using "2.prems" sk by (auto split: list.splits)
    have "length r0 < length cs" using sk2 by (rule skip_ws_ConsD)
    with True "2.prems" sk sk2 lc show ?thesis
      by (auto split: if_splits intro: less_trans "2.IH"[OF sk])
  next
    case False
    with "2.prems" sk lc show ?thesis
      by (auto split: if_splits dest!: parse_chars_length parse_int_length parse_literal_length)
  qed
next
  case (4 f acc s)
  from "4.prems" obtain v1 r1 d r' where p1: "parse_value f s = Some (v1, r1)"
      and sk: "skip_ws r1 = d # r'"
      and rest: "(if d = CHR '','' then parse_elems f (acc @ [v1]) r'
                  else if d = CHR '']'' then Some (JArr (acc @ [v1]), r') else None) = Some (v, r)"
    by (auto split: option.splits prod.splits list.splits)
  have "length r1 < length s" by (rule "4.IH"(1)[OF p1])
  moreover have "length r' < length r1" using sk by (rule skip_ws_ConsD)
  moreover have "d = CHR '','' \<Longrightarrow> length r < length r'"
    using rest "4.IH"(2)[OF p1 refl sk] by auto
  ultimately show ?case using rest by (auto split: if_splits)
next
  case (6 f macc s)
  from "6.prems" obtain q cs k r1 col r' v1 r'' d r3 where
      sk: "skip_ws s = q # cs" and q: "q = CHR 0x22" and pc: "parse_chars cs = Some (k, r1)"
      and sk1: "skip_ws r1 = col # r'" and col: "col = CHR '':''" and pv: "parse_value f r' = Some (v1, r'')"
      and sk2: "skip_ws r'' = d # r3"
      and rest: "(if d = CHR '','' then parse_members f (AList.update k v1 macc) r3
                  else if d = CHR ''}'' then Some (JObj (AList.update k v1 macc), r3) else None) = Some (v, r)"
    by (auto split: option.splits prod.splits list.splits if_splits)
  have "length r'' < length r'" using "6.IH"(1) sk q pc sk1 col pv by blast
  then have "length r3 < length s"
    using skip_ws_ConsD[OF sk] parse_chars_length[OF pc] skip_ws_ConsD[OF sk1] skip_ws_ConsD[OF sk2]
    by linarith
  moreover have "d = CHR '','' \<Longrightarrow> length r < length r3"
    using rest "6.IH"(2) sk q pc sk1 col pv sk2 by fastforce
  ultimately show ?case using rest by (auto split: if_splits)
qed simp_all

lemma parse_fuel:
  "parse_value f s = Some (v, r) \<Longrightarrow> length s - length r \<le> g \<Longrightarrow> parse_value g s = Some (v, r)"
  "parse_elems f acc s = Some (v, r) \<Longrightarrow> length s - length r \<le> g \<Longrightarrow> parse_elems g acc s = Some (v, r)"
  "parse_members f macc s = Some (v, r) \<Longrightarrow> length s - length r \<le> g \<Longrightarrow>
   parse_members g macc s = Some (v, r)"
proof (induction f s and f acc s and f macc s arbitrary: v r g and acc v r g and macc v r g
       rule: parse_value_parse_elems_parse_members.induct)
  case (2 f s)
  have "length r < length s" by (rule parse_length(1)[OF "2.prems"(1)])
  then obtain g' where g: "g = Suc g'" using "2.prems"(2) by (cases g) auto
  from "2.prems" obtain c cs where sk: "skip_ws s = c # cs" by (cases "skip_ws s") auto
  have g': "length cs - length r \<le> g'" using "2.prems"(2) g skip_ws_ConsD[OF sk] by linarith
  show ?case
  proof (cases "c = CHR ''{'' \<or> c = CHR ''[''")
    case True
    then obtain d r0 where sk2: "skip_ws cs = d # r0" using "2.prems"(1) sk by (auto split: list.splits)
    with True "2.prems"(1) sk g g' show ?thesis
      by (auto split: if_splits intro: "2.IH"[OF sk])
  next
    case False
    with "2.prems"(1) sk show ?thesis by (simp add: g)
  qed
next
  case (4 f acc s)
  have "length r < length s" by (rule parse_length(2)[OF "4.prems"(1)])
  then obtain g' where g: "g = Suc g'" using "4.prems"(2) by (cases g) auto
  from "4.prems"(1) obtain v1 r1 d r' where p1: "parse_value f s = Some (v1, r1)"
      and sk: "skip_ws r1 = d # r'"
      and rest: "(if d = CHR '','' then parse_elems f (acc @ [v1]) r'
                  else if d = CHR '']'' then Some (JArr (acc @ [v1]), r') else None) = Some (v, r)"
    by (auto split: option.splits prod.splits list.splits)
  have l1: "length r' < length r1" using sk by (rule skip_ws_ConsD)
  have rr: "length r \<le> length r'"
  proof (cases "d = CHR '',''")
    case True
    then show ?thesis using rest parse_length(2)[of f "acc @ [v1]" r' v r] by simp
  next
    case False
    then show ?thesis using rest by (simp split: if_splits)
  qed
  have "length s - length r1 \<le> g'" using "4.prems"(2) g l1 rr by linarith
  then have pv: "parse_value g' s = Some (v1, r1)" by (rule "4.IH"(1)[OF p1])
  show ?case
  proof (cases "d = CHR '',''")
    case True
    then have pe: "parse_elems f (acc @ [v1]) r' = Some (v, r)" using rest by simp
    have "length r' - length r \<le> g'"
      using "4.prems"(2) g l1 parse_length(1)[OF p1] by linarith
    then have "parse_elems g' (acc @ [v1]) r' = Some (v, r)" by (rule "4.IH"(2)[OF p1 refl sk True pe])
    then show ?thesis using pv sk True by (simp add: g)
  next
    case False
    then show ?thesis using pv sk rest by (simp add: g)
  qed
next
  case (6 f macc s)
  have "length r < length s" by (rule parse_length(3)[OF "6.prems"(1)])
  then obtain g' where g: "g = Suc g'" using "6.prems"(2) by (cases g) auto
  from "6.prems"(1) obtain q cs k r1 col r' v1 r'' d r3 where
      sk: "skip_ws s = q # cs" and q: "q = CHR 0x22" and pc: "parse_chars cs = Some (k, r1)"
      and sk1: "skip_ws r1 = col # r'" and col: "col = CHR '':''" and pv: "parse_value f r' = Some (v1, r'')"
      and sk2: "skip_ws r'' = d # r3"
      and rest: "(if d = CHR '','' then parse_members f (AList.update k v1 macc) r3
                  else if d = CHR ''}'' then Some (JObj (AList.update k v1 macc), r3) else None) = Some (v, r)"
    by (auto split: option.splits prod.splits list.splits if_splits)
  have q': "\<not> q \<noteq> CHR 0x22" and col': "\<not> col \<noteq> CHR '':''" using q col by simp_all
  have l: "length r' < length s" "length r3 < length r''"
    using skip_ws_ConsD[OF sk] parse_chars_length[OF pc] skip_ws_ConsD[OF sk1] skip_ws_ConsD[OF sk2]
    by linarith+
  have rr: "length r \<le> length r3"
  proof (cases "d = CHR '',''")
    case True
    then show ?thesis using rest parse_length(3)[of f "AList.update k v1 macc" r3 v r] by simp
  next
    case False
    then show ?thesis using rest by (simp split: if_splits)
  qed
  have "length r' - length r'' \<le> g'" using "6.prems"(2) g l rr by linarith
  then have pv': "parse_value g' r' = Some (v1, r'')" by (rule "6.IH"(1)[OF sk q' pc refl sk1 col' pv])
  show ?case
  proof (cases "d = CHR '',''")
    case True
    then have pm: "parse_members f (AList.update k v1 macc) r3 = Some (v, r)" using rest by simp
    have "length r3 - length r \<le> g'" using "6.prems"(2) g l parse_length(1)[OF pv] by linarith
    then have "parse_members g' (AList.update k v1 macc) r3 = Some (v, r)"
      by (rule "6.IH"(2)[OF sk q' pc refl sk1 col' pv refl sk2 True pm])
    then show ?thesis using sk q pc sk1 col pv' sk2 True by (simp add: g)
  next
    case False
    then show ?thesis using sk q pc sk1 col pv' sk2 rest by (simp add: g)
  qed
qed simp_all

lemma parse_value_fuel_enough:
  assumes "length s < f" shows "parse_value f s = parse_value (Suc (length s)) s"
proof (cases "parse_value (Suc (length s)) s")
  case (Some vr)
  then show ?thesis using assms parse_fuel(1)[of "Suc (length s)" s "fst vr" "snd vr" f] by simp
next
  case None
  show ?thesis
  proof (cases "parse_value f s")
    case (Some vr)
    then have "parse_value (Suc (length s)) s = Some vr"
      using parse_fuel(1)[of f s "fst vr" "snd vr" "Suc (length s)"] by simp
    with None show ?thesis by simp
  qed (use None in simp)
qed

text \<open>
  The fuel of \<open>json_parse\<close> is never the reason it fails: with any fuel
  larger than the length of the text, the parse gives the same result.
\<close>

lemma json_parse_fuel_enough:
  "length s < f \<Longrightarrow>
   json_parse s = (case parse_value f s of None \<Rightarrow> None | Some (v, r) \<Rightarrow> if skip_ws r = [] then Some v else None)"
  by (simp add: json_parse_def parse_value_fuel_enough)

end
