(* ===== verification/JsonRoundtrip.thy ===== *)
theory JsonRoundtrip
  imports JsonFuel
begin

text \<open>
  \<open>JSON.parse\<close> inverts \<open>JSON.stringify\<close> on well-formed values (objects
  with distinct member names), every parse result is well-formed, and so the
  change detector's \<open>areJSONsEqual\<close> (\<open>src/www/survey.js\<close>, lines 6--8)
  is structural equality on such values. The proof follows the descent:
  strings through their escapes, integers through their digits, arrays and
  objects element by element with the fuel their text provides.
\<close>

lemma hex_value_hex_digit: "n < 16 \<Longrightarrow> hex_value (hex_digit n) = Some n"
  by (auto simp: hex_value_def hex_digit_def Let_def)

lemma parse_chars_esc_char:
  "parse_chars (esc_char c @ x) = map_option (\<lambda>(s, r). (c # s, r)) (parse_chars x)"
proof -
  consider "c = CHR 0x22" | "c = CHR 0x5C" | "c = CHR 0x08" | "c = CHR 0x09" | "c = CHR 0x0A"
    | "c = CHR 0x0C" | "c = CHR 0x0D"
    | "of_char c < (32::nat)" "c \<notin> {CHR 0x08, CHR 0x09, CHR 0x0A, CHR 0x0C, CHR 0x0D}"
    | "\<not> of_char c < (32::nat)" "c \<noteq> CHR 0x22" "c \<noteq> CHR 0x5C"
    by fastforce
  then show ?thesis
  proof cases
    case 8
    let ?n = "of_char c :: nat"
    have ne: "c \<noteq> CHR 0x22" "c \<noteq> CHR 0x5C" using 8(1) by auto
    have e: "esc_char c = [CHR 0x5C, CHR ''u'', CHR ''0'', CHR ''0'', hex_digit (?n div 16), hex_digit (?n mod 16)]"
      using 8 ne unfolding esc_char_def by simp
    have h: "hex_value CHR ''0'' = Some 0" "hex_value (hex_digit (?n div 16)) = Some (?n div 16)"
        "hex_value (hex_digit (?n mod 16)) = Some (?n mod 16)"
      using 8(1) by (simp add: hex_value_def, simp_all add: hex_value_hex_digit)
    have u: "utf8_bytes ?n = [c]"
      using 8(1) by (simp add: utf8_bytes_def)
    show ?thesis by (simp add: e h u)
  qed (simp_all add: esc_char_def simple_escape_def)
qed

lemma parse_chars_esc: "parse_chars (concat (map esc_char s) @ CHR 0x22 # rest) = Some (s, rest)"
  by (induction s) (simp_all add: parse_chars_esc_char)

subsection \<open>Numbers\<close>

lemma digit_char: "k < 10 \<Longrightarrow> of_char (char_of (48 + k)) = 48 + (k::nat)"
  by simp

lemma digit_char_ne0: "0 < k \<Longrightarrow> k < (10::nat) \<Longrightarrow> char_of (48 + k) \<noteq> CHR ''0''"
proof
  assume "0 < k" "k < 10" "char_of (48 + k) = CHR ''0''"
  then have "of_char (char_of (48 + k)) = (of_char CHR ''0'' :: nat)" by simp
  with \<open>0 < k\<close> \<open>k < 10\<close> show False by simp
qed

lemma nat_digits_small: "n < 10 \<Longrightarrow> nat_digits n = [char_of (48 + n)]"
  by (subst nat_digits.simps) simp

lemma nat_digits_big: "\<not> n < 10 \<Longrightarrow> nat_digits n = nat_digits (n div 10) @ [char_of (48 + n mod 10)]"
  by (subst nat_digits.simps) simp

lemma digits_value_snoc: "digits_value (xs @ [d]) = 10 * digits_value xs + (of_char d - 48)"
  by (simp add: digits_value_def)

lemma nat_digits_facts:
  "nat_digits n \<noteq> [] \<and> list_all is_json_digit (nat_digits n) \<and> digits_value (nat_digits n) = n \<and>
   (0 < n \<longrightarrow> hd (nat_digits n) \<noteq> CHR ''0'')"
proof (induction n rule: nat_digits.induct)
  case (1 n)
  show ?case
  proof (cases "n < 10")
    case True
    then show ?thesis
      by (simp add: nat_digits_small is_json_digit_def digits_value_def digit_char_ne0)
  next
    case False
    then have "0 < n div 10" "n mod 10 < 10" by simp_all
    with 1 False show ?thesis
      by (simp add: nat_digits_big is_json_digit_def digits_value_snoc hd_append)
  qed
qed

definition value_end :: "string \<Rightarrow> bool" where
  "value_end r \<longleftrightarrow> r = [] \<or> hd r = CHR '','' \<or> hd r = CHR '']'' \<or> hd r = CHR ''}''"

lemma takeWhile_value_end: "value_end r \<Longrightarrow> takeWhile is_json_digit r = []"
  by (cases r) (auto simp: value_end_def is_json_digit_def)

lemma takeWhile_digits:
  "list_all is_json_digit ds \<Longrightarrow> value_end r \<Longrightarrow> takeWhile is_json_digit (ds @ r) = ds"
  by (induction ds) (simp_all add: takeWhile_value_end)

lemma parse_nat_digits:
  assumes "value_end r"
  shows "parse_int (nat_digits m @ r) = Some (int m, r)"
    and "0 < m \<Longrightarrow> parse_int (CHR ''-'' # nat_digits m @ r) = Some (- int m, r)"
proof -
  obtain c cs where c: "nat_digits m = c # cs" using nat_digits_facts[of m] by (cases "nat_digits m") auto
  have dg: "is_json_digit c" using nat_digits_facts[of m] c by simp
  then have nm: "c \<noteq> CHR ''-''" by (auto simp: is_json_digit_def)
  have tw: "takeWhile is_json_digit (nat_digits m @ r) = nat_digits m"
    using nat_digits_facts[of m] assms by (simp add: takeWhile_digits)
  have ne: "r \<noteq> [] \<Longrightarrow> hd r \<noteq> CHR ''.'' \<and> hd r \<noteq> CHR ''e'' \<and> hd r \<noteq> CHR ''E''"
    using assms by (auto simp: value_end_def)
  have z: "c = CHR ''0'' \<Longrightarrow> m = 0 \<and> cs = []"
    using nat_digits_facts[of m] c nat_digits_small[of 0] by (cases "m = 0") auto
  show "parse_int (nat_digits m @ r) = Some (int m, r)"
    using nat_digits_facts[of m] c nm tw ne z by (auto simp: parse_int_def Let_def)
  show "0 < m \<Longrightarrow> parse_int (CHR ''-'' # nat_digits m @ r) = Some (- int m, r)"
    using nat_digits_facts[of m] c tw ne by (auto simp: parse_int_def Let_def)
qed

lemma parse_int_string: "value_end r \<Longrightarrow> parse_int (int_string i @ r) = Some (i, r)"
  using parse_nat_digits[of r "nat (- i)"] parse_nat_digits(1)[of r "nat i"]
  by (auto simp: int_string_def)

subsection \<open>Values\<close>

lemma int_string_Cons: "\<exists>c cs. int_string i = c # cs \<and> (c = CHR ''-'' \<or> is_json_digit c)"
proof -
  obtain c cs where "nat_digits (nat i) = c # cs" "is_json_digit c"
    using nat_digits_facts[of "nat i"] by (cases "nat_digits (nat i)") auto
  then show ?thesis by (auto simp: int_string_def)
qed

lemma skip_ws_Cons_nows: "\<not> is_ws c \<Longrightarrow> skip_ws (c # s) = c # s"
  by simp

lemma update_new: "k \<notin> fst ` set m \<Longrightarrow> AList.update k v m = m @ [(k, v)]"
  by (induction m) auto

lemma parse_value_num:
  assumes "value_end r" and "0 < g"
  shows "parse_value g (int_string i @ r) = Some (JNum i, r)"
proof -
  obtain c cs where c: "int_string i = c # cs" "c = CHR ''-'' \<or> is_json_digit c"
    using int_string_Cons by blast
  then have nws: "\<not> is_ws c" "c \<noteq> CHR ''{''" "c \<noteq> CHR ''[''" "c \<noteq> CHR 0x22"
    by (auto simp: is_ws_def is_json_digit_def)
  obtain g' where g: "g = Suc g'" using assms(2) by (cases g) auto
  have "parse_int (c # cs @ r) = Some (i, r)" using parse_int_string[OF assms(1), of i] c by simp
  then show ?thesis using c nws by (simp add: g)
qed

definition parses_back :: "json \<Rightarrow> bool" where
  "parses_back x \<longleftrightarrow>
     (\<forall>g r. value_end r \<longrightarrow> length (json_stringify x) \<le> g \<longrightarrow>
        parse_value g (json_stringify x @ r) = Some (x, r))"

lemma parse_elems_stringify:
  assumes "\<forall>x\<in>set xs. parses_back x" and "xs \<noteq> []"
    and "length (join_with CHR '','' (map json_stringify xs)) < g"
  shows "parse_elems g acc (join_with CHR '','' (map json_stringify xs) @ CHR '']'' # r) =
           Some (JArr (acc @ xs), r)"
  using assms
proof (induction xs arbitrary: acc g rule: induct_list012)
  case (2 x)
  obtain g' where g: "g = Suc g'" using "2.prems"(3) by (cases g) auto
  have "parse_value g' (json_stringify x @ CHR '']'' # r) = Some (x, CHR '']'' # r)"
    using "2.prems" g by (simp add: parses_back_def value_end_def)
  then show ?case by (simp add: g is_ws_def)
next
  case (3 x y ys)
  obtain g' where g: "g = Suc g'" using "3.prems"(3) by (cases g) auto
  have "parse_value g' (json_stringify x @ CHR '','' # join_with CHR '','' (map json_stringify (y # ys)) @ CHR '']'' # r)
          = Some (x, CHR '','' # join_with CHR '','' (map json_stringify (y # ys)) @ CHR '']'' # r)"
    using "3.prems" g by (simp add: parses_back_def value_end_def)
  moreover have "parse_elems g' (acc @ [x]) (join_with CHR '','' (map json_stringify (y # ys)) @ CHR '']'' # r)
          = Some (JArr ((acc @ [x]) @ y # ys), r)"
    using "3.prems" g by (intro "3.IH") auto
  ultimately show ?case by (simp only: join_with.simps(3) list.map) (simp add: g is_ws_def del: join_with.simps)
qed simp

lemma parse_members_stringify:
  assumes "\<forall>(k, x)\<in>set kvs. parses_back x" and "kvs \<noteq> []"
    and "distinct (map fst (macc @ kvs))"
    and "length (join_with CHR '','' (map (\<lambda>(k, v). quote_json k @ CHR '':'' # json_stringify v) kvs)) < g"
  shows "parse_members g macc
           (join_with CHR '','' (map (\<lambda>(k, v). quote_json k @ CHR '':'' # json_stringify v) kvs) @ CHR ''}'' # r) =
         Some (JObj (macc @ kvs), r)"
  using assms
proof (induction kvs arbitrary: macc g rule: induct_list012)
  case (2 kv)
  obtain k x where kv: "kv = (k, x)" by fastforce
  obtain g' where g: "g = Suc g'" using "2.prems"(4) by (cases g) auto
  have "parse_value g' (json_stringify x @ CHR ''}'' # r) = Some (x, CHR ''}'' # r)"
    using "2.prems" g kv by (simp add: parses_back_def value_end_def quote_json_def)
  moreover have "AList.update k x macc = macc @ [(k, x)]" using "2.prems"(3) kv by (simp add: update_new)
  ultimately show ?case using kv by (simp add: g is_ws_def quote_json_def parse_chars_esc)
next
  case (3 kv kv' kvs)
  obtain k x where kv: "kv = (k, x)" by fastforce
  obtain g' where g: "g = Suc g'" using "3.prems"(4) by (cases g) auto
  let ?rest = "join_with CHR '','' (map (\<lambda>(k, v). quote_json k @ CHR '':'' # json_stringify v) (kv' # kvs)) @ CHR ''}'' # r"
  have "parse_value g' (json_stringify x @ CHR '','' # ?rest) = Some (x, CHR '','' # ?rest)"
    using "3.prems" g kv by (simp add: parses_back_def value_end_def quote_json_def)
  moreover have "AList.update k x macc = macc @ [(k, x)]" using "3.prems"(3) kv by (simp add: update_new)
  moreover have "parse_members g' (macc @ [(k, x)]) ?rest = Some (JObj ((macc @ [(k, x)]) @ kv' # kvs), r)"
    using "3.prems" g kv by (intro "3.IH") (auto simp: quote_json_def)
  ultimately show ?case using kv
    by (simp only: join_with.simps(3) list.map)
       (simp add: g is_ws_def quote_json_def parse_chars_esc del: join_with.simps)
qed simp

lemma stringify_Cons:
  "\<exists>c cs. json_stringify v = c # cs \<and> \<not> is_ws c \<and> c \<noteq> CHR '']'' \<and> c \<noteq> CHR ''}''"
proof (cases v)
  case (JNum i)
  obtain c cs where "int_string i = c # cs" "c = CHR ''-'' \<or> is_json_digit c"
    using int_string_Cons by blast
  with JNum show ?thesis by (auto simp: is_ws_def is_json_digit_def)
qed (auto simp: is_ws_def quote_json_def)

lemma join_Cons:
  assumes "xs \<noteq> []" and "\<And>x. x \<in> set xs \<Longrightarrow> \<exists>c cs. h x = c # cs \<and> P c"
  shows "\<exists>c cs. join_with CHR '','' (map h xs) = c # cs \<and> P c"
proof -
  obtain x xs' where xs: "xs = x # xs'" using assms(1) by (cases xs) auto
  obtain c cs where "h x = c # cs" "P c" using assms(2)[of x] xs by auto
  with xs show ?thesis by (cases xs') auto
qed

lemma parses_back_intro:
  assumes "\<And>g r. value_end r \<Longrightarrow> length (json_stringify x) \<le> Suc g \<Longrightarrow>
             parse_value (Suc g) (json_stringify x @ r) = Some (x, r)"
    and "json_stringify x \<noteq> []"
  shows "parses_back x"
  unfolding parses_back_def
proof (intro allI impI)
  fix g r assume "value_end r" "length (json_stringify x) \<le> g"
  moreover obtain g' where "g = Suc g'" using assms(2) calculation(2) by (cases g) auto
  ultimately show "parse_value g (json_stringify x @ r) = Some (x, r)" using assms(1) by simp
qed

lemma parses_back_wf: "json_wf v \<Longrightarrow> parses_back v"
proof (induction v rule: json_stringify.induct)
  case (3 n)
  obtain c cs where "int_string n = c # cs" using int_string_Cons by blast
  then have "0 < length (int_string n)" by simp
  show ?case unfolding parses_back_def
  proof (intro allI impI)
    fix g r assume r: "value_end r" and g: "length (json_stringify (JNum n)) \<le> g"
    then have "0 < g" using \<open>0 < length (int_string n)\<close> by (simp del: length_greater_0_conv)
    with r show "parse_value g (json_stringify (JNum n) @ r) = Some (JNum n, r)"
      by (simp add: parse_value_num)
  qed
next
  case (5 xs)
  show ?case unfolding parses_back_def
  proof (intro allI impI)
    fix g r assume r: "value_end r" and g: "length (json_stringify (JArr xs)) \<le> g"
    then obtain g' where g': "g = Suc g'" by (cases g) auto
    show "parse_value g (json_stringify (JArr xs) @ r) = Some (JArr xs, r)"
    proof (cases "xs = []")
      case True
      then show ?thesis by (simp add: g' is_ws_def)
    next
      case False
      obtain c cs where c: "join_with CHR '','' (map json_stringify xs) = c # cs" "\<not> is_ws c \<and> c \<noteq> CHR '']''"
        using join_Cons[OF False, of json_stringify "\<lambda>c. \<not> is_ws c \<and> c \<noteq> CHR '']''"] stringify_Cons by blast
      have "parse_elems g' [] (join_with CHR '','' (map json_stringify xs) @ CHR '']'' # r) = Some (JArr xs, r)"
        using parse_elems_stringify[of xs g' "[]" r] "5.IH" "5.prems" False g g' by (auto simp: list_all_iff)
      with c show ?thesis by (simp add: g' is_ws_def)
    qed
  qed
next
  case (6 kvs)
  show ?case unfolding parses_back_def
  proof (intro allI impI)
    fix g r assume r: "value_end r" and g: "length (json_stringify (JObj kvs)) \<le> g"
    then obtain g' where g': "g = Suc g'" by (cases g) auto
    show "parse_value g (json_stringify (JObj kvs) @ r) = Some (JObj kvs, r)"
    proof (cases "kvs = []")
      case True
      then show ?thesis by (simp add: g' is_ws_def)
    next
      case False
      let ?m = "\<lambda>(k, v). quote_json k @ CHR '':'' # json_stringify v"
      obtain c cs where c: "join_with CHR '','' (map ?m kvs) = c # cs" "\<not> is_ws c \<and> c \<noteq> CHR ''}''"
        using join_Cons[OF False, of ?m "\<lambda>c. \<not> is_ws c \<and> c \<noteq> CHR ''}''"]
        by (auto simp: quote_json_def is_ws_def)
      have "\<forall>(k, x)\<in>set kvs. parses_back x" using "6.IH" "6.prems" by (auto simp: list_all_iff)
      then have "parse_members g' [] (join_with CHR '','' (map ?m kvs) @ CHR ''}'' # r) = Some (JObj kvs, r)"
        using parse_members_stringify[of kvs "[]" g' r] "6.prems" False g g' by auto
      with c show ?thesis by (simp add: g' is_ws_def)
    qed
  qed
qed (auto intro!: parses_back_intro
          simp: is_ws_def is_json_digit_def parse_literal_def quote_json_def parse_chars_esc split: if_splits)

subsection \<open>Parse results are well-formed\<close>

lemma list_all_update:
  "json_wf x \<Longrightarrow> list_all (\<lambda>(k, v). json_wf v) m \<Longrightarrow> list_all (\<lambda>(k, v). json_wf v) (AList.update k x m)"
  by (induction m) auto

lemma parse_wf:
  "parse_value f s = Some (v, r) \<Longrightarrow> json_wf v"
  "parse_elems f acc s = Some (v, r) \<Longrightarrow> list_all json_wf acc \<Longrightarrow> json_wf v"
  "parse_members f macc s = Some (v, r) \<Longrightarrow> distinct (map fst macc) \<Longrightarrow>
   list_all (\<lambda>(k, x). json_wf x) macc \<Longrightarrow> json_wf v"
proof (induction f s and f acc s and f macc s arbitrary: v r and acc v r and macc v r
       rule: parse_value_parse_elems_parse_members.induct)
  case (2 f s)
  then show ?case
    by (auto simp: parse_literal_def split: list.splits if_splits option.splits prod.splits)
next
  case (4 f acc s)
  then show ?case by (auto split: list.splits if_splits option.splits prod.splits)
next
  case (6 f macc s)
  from "6.prems"(1) obtain q cs k r1 col r' v1 r'' d r3 where
      sk: "skip_ws s = q # cs" and q: "q = CHR 0x22" and pc: "parse_chars cs = Some (k, r1)"
      and sk1: "skip_ws r1 = col # r'" and col: "col = CHR '':''" and pv: "parse_value f r' = Some (v1, r'')"
      and sk2: "skip_ws r'' = d # r3"
      and rest: "(if d = CHR '','' then parse_members f (AList.update k v1 macc) r3
                  else if d = CHR ''}'' then Some (JObj (AList.update k v1 macc), r3) else None) = Some (v, r)"
    by (auto split: option.splits prod.splits list.splits if_splits)
  have "json_wf v1" using "6.IH"(1) sk q pc sk1 col pv by blast
  then have m: "distinct (map fst (AList.update k v1 macc))"
      "list_all (\<lambda>(k, x). json_wf x) (AList.update k v1 macc)"
    using "6.prems"(2,3) by (simp_all add: distinct_update list_all_update)
  show ?case
  proof (cases "d = CHR '',''")
    case True
    then show ?thesis using rest m "6.IH"(2) sk q pc sk1 col pv sk2 by fastforce
  next
    case False
    then show ?thesis using rest m by (auto simp: list_all_iff split: if_splits)
  qed
qed simp_all

subsection \<open>The laws\<close>

lemma parse_stringify_wf:
  assumes "json_wf v"
  shows "parse_value (Suc (length (json_stringify v))) (json_stringify v) = Some (v, [])"
proof -
  have "value_end []" by (simp add: value_end_def)
  moreover have "length (json_stringify v) \<le> Suc (length (json_stringify v))" by simp
  ultimately have "parse_value (Suc (length (json_stringify v))) (json_stringify v @ []) = Some (v, [])"
    using parses_back_wf[OF assms] unfolding parses_back_def by blast
  then show ?thesis by (simp only: append_Nil2)
qed

lemma stringify_inj:
  assumes "json_wf a" and "json_wf b" and "json_stringify a = json_stringify b"
  shows "a = b"
  using parse_stringify_wf[OF assms(1)] parse_stringify_wf[OF assms(2)] assms(3) by simp

text \<open>Parsing the serialization of a well-formed value gives the value back.\<close>

lemma json_parse_stringify: "json_wf v \<Longrightarrow> json_parse (json_stringify v) = Some v"
  using parse_stringify_wf by (simp add: json_parse_def)

text \<open>
  Every value \<open>JSON.parse\<close> returns is well-formed: a member name repeated
  in the text appears once in the object.
\<close>

lemma json_parse_wf: "json_parse s = Some v \<Longrightarrow> json_wf v"
proof -
  assume "json_parse s = Some v"
  then obtain r where "parse_value (Suc (length s)) s = Some (v, r)"
    by (auto simp: json_parse_def split: option.splits if_splits simp del: parse_value.simps)
  then show ?thesis by (rule parse_wf(1))
qed

text \<open>
  C28. On well-formed values, \<open>areJSONsEqual\<close> is equality: two values
  serialize alike exactly when they are the same value, member order
  included.
\<close>

theorem areJSONsEqual_iff: "json_wf a \<Longrightarrow> json_wf b \<Longrightarrow> areJSONsEqual a b \<longleftrightarrow> a = b"
  using stringify_inj by (auto simp: areJSONsEqual_def)

subsection \<open>Concrete values\<close>

theorem areJSONsEqual_iff_witness:
  "json_wf (JObj [(''a'', JNum 1), (''b'', JNull)]) \<and> json_wf (JObj [(''b'', JNull), (''a'', JNum 1)]) \<and>
   (areJSONsEqual (JObj [(''a'', JNum 1), (''b'', JNull)]) (JObj [(''b'', JNull), (''a'', JNum 1)]) \<longleftrightarrow>
    JObj [(''a'', JNum 1), (''b'', JNull)] = JObj [(''b'', JNull), (''a'', JNum 1)])"
  using areJSONsEqual_iff[of "JObj [(''a'', JNum 1), (''b'', JNull)]" "JObj [(''b'', JNull), (''a'', JNum 1)]"]
  by simp

end
