(* ===== verification/Bridge.thy ===== *)
theory Bridge
  imports Mutators
begin

text \<open>
  The Bridge Adapter of \<open>src/www/survey.js\<close> (lines 129--219): the three
  custom message handlers registered with Shiny, and the events of the Form
  Engine's user interface that reach the page code through the registered
  handlers. \<open>bridge_step\<close> processes one event to completion, in delivery
  order; an exception escaping a message handler is recorded in
  \<open>uncaught\<close> (Shiny reports it in the browser console and carries on).
  \<open>reachable\<close> is the set of page states a session reaches from page load,
  and \<open>page_inv\<close> is the invariant every such state satisfies.
\<close>

datatype inbound = LoadSurvey json | UpdateTextMsg text_update | UpdateChoicesMsg choices_update

text \<open>What a respondent does in the rendered form: answer a question, or complete the survey.\<close>

datatype ui_event = UserAnswer string "json option" | UserComplete

datatype event = Inbound inbound | Ui ui_event

text \<open>Lines 129--132, 134--181 and 183--219: dispatch on the message name.\<close>

definition handle_message :: "inbound \<Rightarrow> page \<Rightarrow> error + page" where
  "handle_message m st =
     (case m of
        LoadSurvey j \<Rightarrow> Inr (initializeSurvey j st)
      | UpdateTextMsg d \<Rightarrow> Inr (updateText d st)
      | UpdateChoicesMsg d \<Rightarrow> updateChoices d st)"

text \<open>
  The Form Engine's side of a respondent's answer: the question's value is set,
  which fires the value-changed handlers; a completed survey takes no answers.
\<close>

definition user_answer :: "string \<Rightarrow> json option \<Rightarrow> page \<Rightarrow> page" where
  "user_answer n v st =
     (case survey st of
        None \<Rightarrow> st
      | Some s \<Rightarrow> if n \<in> question_names s \<and> \<not> completed s then set_question_value n v st else st)"

definition user_complete :: "page \<Rightarrow> page" where
  "user_complete st =
     (case survey st of
        None \<Rightarrow> st
      | Some s \<Rightarrow>
          if completed s then st
          else fire_complete (handlers s) (map_survey (\<lambda>s. s\<lparr>completed := True\<rparr>) st))"

fun bridge_step :: "event \<Rightarrow> page \<Rightarrow> page" where
  "bridge_step (Inbound m) st =
     (case handle_message m st of Inl e \<Rightarrow> st\<lparr>uncaught := uncaught st @ [e]\<rparr> | Inr st' \<Rightarrow> st')"
| "bridge_step (Ui (UserAnswer n v)) st = user_answer n v st"
| "bridge_step (Ui UserComplete) st = user_complete st"

definition run_events :: "event list \<Rightarrow> page \<Rightarrow> page" where
  "run_events es st = fold bridge_step es st"

inductive reachable :: "page \<Rightarrow> bool" where
  init: "reachable init_page"
| step: "reachable st \<Longrightarrow> reachable (bridge_step e st)"

text \<open>
  The invariant of a session: the store has one entry per key; with no
  instance nothing was ever accepted; the live instance is the last one built,
  is the one bound to the container, carries exactly the three handlers, has
  the questions of the last accepted definition, and agrees with the store on
  every one of its questions.
\<close>

definition page_inv :: "page \<Rightarrow> bool" where
  "page_inv st \<longleftrightarrow>
     distinct (map fst (questionValues st)) \<and>
     (case survey st of
        None \<Rightarrow> container st = None \<and> lastLoadedSurveyJSON st = None \<and> built st = 0
      | Some s \<Rightarrow>
          handlers s = std_handlers \<and> container st = Some (sid s) \<and> built st = Suc (sid s) \<and>
          lastLoadedSurveyJSON st \<noteq> None \<and>
          question_names s = definition_names (the (lastLoadedSurveyJSON st)) \<and>
          synced_at (question_names s) st)"

text \<open>A session: a two-question survey is loaded and the dropdown answered.\<close>

definition sample_survey :: json where
  "sample_survey = sample_definition [sample_question ''q1'' ''dropdown'', sample_question ''q2'' ''text'']"

definition sample_session :: page where
  "sample_session =
     run_events [Inbound (LoadSurvey sample_survey), Ui (UserAnswer ''q1'' (Some (JStr ''a'')))] init_page"

text \<open>
  A name \<open>n\<close> for which the fallback \<open>document.querySelector(`[name="n"]`)\<close>
  of lines 157 and 210 is a valid selector: inside the double-quoted
  attribute value, a quote, a backslash or a line break would end the string
  or start an escape, and the call would throw \<open>SyntaxError\<close>. The model of
  that lookup (\<open>force_control\<close>) never throws, which is faithful for these
  names.
\<close>

definition selector_safe :: "string \<Rightarrow> bool" where
  "selector_safe n \<longleftrightarrow>
     (\<forall>c\<in>set n. c \<noteq> CHR 0x22 \<and> c \<noteq> CHR 0x5C \<and> c \<noteq> CHR 0x0A \<and> c \<noteq> CHR 0x0D \<and> c \<noteq> CHR 0x0C)"

fun message_selector_safe :: "inbound \<Rightarrow> bool" where
  "message_selector_safe (LoadSurvey _) = True"
| "message_selector_safe (UpdateTextMsg d) = selector_safe (tu_target d)"
| "message_selector_safe (UpdateChoicesMsg d) = selector_safe (cu_target d)"

lemma restore_entry_frame: "engine_frame st (restore_entry kv st)"
proof -
  obtain k v where kv: "kv = (k, v)" by fastforce
  have "engine_frame st (map_survey (update_question k (\<lambda>q. q\<lparr>qdisplay := v\<rparr>)) (set_question_value k v st))"
    by (rule engine_frame_trans[OF set_question_value_frame map_survey_frame]) simp
  then show ?thesis using set_question_value_frame[of st k v]
    by (auto simp: kv restore_entry_def Let_def split: option.split)
qed

lemma restoreQuestionValues_frame: "engine_frame st (restoreQuestionValues st)"
  unfolding restoreQuestionValues_def
  by (auto split: option.split intro: engine_frame_fold restore_entry_frame)

lemma activate_survey_keys:
  "map_keys (questionValues st) \<subseteq> map_keys (questionValues (activate_survey st))"
proof -
  let ?x = "register_handlers (restoreQuestionValues st)"
  let ?y = "?x\<lparr>container := map_option sid (survey ?x)\<rparr>"
  have "map_keys (questionValues st) \<subseteq> map_keys (questionValues (restoreQuestionValues st))"
    using restoreQuestionValues_frame[of st] by (simp add: engine_frame_def)
  also have "\<dots> = map_keys (questionValues ?y)" by (simp add: register_handlers_def map_survey_def)
  also have "\<dots> \<subseteq> map_keys (questionValues (render_survey ?y))"
    using render_survey_frame[of ?y] by (simp add: engine_frame_def)
  finally show ?thesis by (simp add: activate_survey_def bind_container_def)
qed

lemma initialize_body_keys:
  "map_keys (questionValues st) \<subseteq> map_keys (questionValues (fst (initialize_body j st)))"
proof -
  let ?st1 = "preserveQuestionValues st"
  have p: "map_keys (questionValues st) \<subseteq> map_keys (questionValues ?st1)"
    using preserveQuestionValues_frame[of st] by (simp add: engine_frame_def)
  show ?thesis
  proof (cases "parse_definition j")
    case (Inr d)
    show ?thesis
    proof (cases "updateDocumentTitle d ?st1")
      case (Inr st2)
      then have q: "questionValues st2 = questionValues ?st1"
        by (auto dest: updateDocumentTitle_Inr)
      let ?st5 = "st2\<lparr>container := None, dropdown_settings := True,
                      survey := Some (survey_of_json (built st2) d), built := Suc (built st2),
                      lastLoadedSurveyJSON := Some d\<rparr>"
      have "map_keys (questionValues ?st5) \<subseteq> map_keys (questionValues (activate_survey ?st5))"
        by (rule activate_survey_keys)
      with p q \<open>parse_definition j = Inr d\<close> Inr show ?thesis
        by (auto simp: initialize_body_def log_def Let_def)
    qed (use p \<open>parse_definition j = Inr d\<close> in \<open>simp add: initialize_body_def\<close>)
  qed (use p in \<open>simp add: initialize_body_def\<close>)
qed

lemma initializeSurvey_keys:
  "map_keys (questionValues st) \<subseteq> map_keys (questionValues (initializeSurvey j st))"
proof (cases "initialize_body j st")
  case (Pair st' e)
  with initialize_body_keys[of st j] show ?thesis
    by (cases e) (auto simp: initializeSurvey_def log_def)
qed

subsection \<open>The invariant across the steps\<close>

lemma page_inv_log [simp]: "page_inv (log e st) = page_inv st"
  by (simp add: page_inv_def synced_at_def split: option.split)

lemma page_inv_uncaught [simp]: "page_inv (st\<lparr>uncaught := u\<rparr>) = page_inv st"
  by (simp add: page_inv_def synced_at_def stored_def split: option.split)

lemma page_inv_frame:
  assumes inv: "page_inv st" and fr: "engine_frame st st'"
    and sy: "\<And>s. survey st = Some s \<Longrightarrow> synced_at (question_names s) st'"
  shows "page_inv st'"
proof (cases "survey st")
  case None
  then have "survey st' = None" using fr by (simp add: engine_frame_def)
  with None inv fr show ?thesis by (auto simp: page_inv_def engine_frame_def)
next
  case (Some s)
  obtain s' where s': "survey st' = Some s'" "shape s' = shape s"
      "question_names s' = question_names s" "handlers s' = handlers s"
    using engine_frame_survey[OF fr Some] by blast
  have "sid s' = sid s" using shape_eqD[OF s'(2)] by simp
  with inv fr Some s' sy[OF Some] show ?thesis
    by (auto simp: page_inv_def engine_frame_def)
qed

lemma page_inv_map_survey:
  assumes "\<And>s. sid (f s) = sid s \<and> handlers (f s) = handlers s \<and> question_names (f s) = question_names s"
    and "\<And>s n. question_value (f s) n = question_value s n"
  shows "page_inv (map_survey f st) = page_inv st"
  using assms
  by (cases "survey st") (simp_all add: page_inv_def synced_at_map_survey)

lemma synced_at_preserve: "synced_at N st \<Longrightarrow> synced_at N (preserveQuestionValues st)"
  by (auto simp: synced_at_def stored_preserveQuestionValues split: option.split)

lemma page_inv_preserve:
  assumes "page_inv st" shows "page_inv (preserveQuestionValues st)"
proof (rule page_inv_frame[OF assms preserveQuestionValues_frame])
  fix s assume "survey st = Some s"
  then have "synced_at (question_names s) st" using assms by (auto simp: page_inv_def)
  then show "synced_at (question_names s) (preserveQuestionValues st)" by (rule synced_at_preserve)
qed

lemma names_eq_map: "map qname xs = map qname ys \<Longrightarrow> qname ` set xs = qname ` set ys"
  by (metis set_map)

lemma page_inv_accepted:
  assumes "accepted st d st'" and "distinct (map fst (questionValues st))"
  shows "page_inv st'"
proof -
  obtain s' where s': "survey st' = Some s'" "sid s' = built st" "handlers s' = std_handlers"
      "map qname (questions s') = map qname (definition_questions d)"
      "\<forall>n\<in>question_names s'. question_value s' n = stored (preserveQuestionValues st) n"
    using assms(1) by (auto simp: accepted_def)
  have "question_names s' = definition_names d"
    using names_eq_map[OF s'(4)] by (simp add: question_names_def definition_names_def)
  with s' assms show ?thesis by (auto simp: page_inv_def accepted_def synced_at_def)
qed

lemma page_inv_initializeSurvey:
  assumes inv: "page_inv st"
  shows "page_inv (initializeSurvey j st)"
proof (cases "is_unchanged st j")
  case True
  then show ?thesis using inv by (simp add: initializeSurvey_skip)
next
  case ch: False
  have dist: "distinct (map fst (questionValues st))" using inv by (simp add: page_inv_def)
  show ?thesis
  proof (cases "\<exists>d. parse_definition j = Inr d \<and> d \<noteq> JNull")
    case True
    then obtain d where "parse_definition j = Inr d" "d \<noteq> JNull" by blast
    then have "accepted st d (initializeSurvey j st)" using initializeSurvey_accepted[OF ch _ _ dist] by blast
    then show ?thesis using dist by (rule page_inv_accepted)
  next
    case False
    then obtain e where "parse_definition j = Inl e \<or> (parse_definition j = Inr JNull \<and> e = TypeError)"
      by (cases "parse_definition j") auto
    then show ?thesis using initializeSurvey_error[OF ch] page_inv_preserve[OF inv] by simp
  qed
qed

lemma page_inv_run_callback [simp]: "page_inv (run_callback d st) = page_inv st"
  using run_callback_cases[of d st] by auto

lemma page_inv_outbox [simp]: "page_inv (st\<lparr>outbox := ob\<rparr>) = page_inv st"
  by (simp add: page_inv_def synced_at_def stored_def split: option.split)

lemma page_inv_set_question_value:
  assumes inv: "page_inv st"
  shows "page_inv (set_question_value n v st)"
proof (rule page_inv_frame[OF inv set_question_value_frame])
  fix s assume s: "survey st = Some s"
  with inv have "synced_at (question_names s) st" "handlers s = std_handlers" by (auto simp: page_inv_def)
  with s show "synced_at (question_names s) (set_question_value n v st)"
    by (intro set_question_value_synced) (auto simp: std_handlers_def)
qed

lemma page_inv_write_render [simp]:
  assumes inv: "page_inv st"
  shows "page_inv (render_survey (force_control n str evs (set_display n d (set_question_value n v st))))"
proof (rule page_inv_frame[OF inv write_render_frame])
  fix s assume s: "survey st = Some s"
  with inv have "synced_at (question_names s) st" "handlers s = std_handlers" by (auto simp: page_inv_def)
  with s show "synced_at (question_names s)
                 (render_survey (force_control n str evs (set_display n d (set_question_value n v st))))"
    by (intro write_render_synced) (auto simp: std_handlers_def)
qed

lemma page_inv_updateText: "page_inv st \<Longrightarrow> page_inv (updateText d st)"
  by (auto simp: updateText_def Let_def split: option.split)

lemma page_inv_choices_step [simp]:
  "page_inv (map_survey (update_question n (\<lambda>q. q\<lparr>qchoices := items\<rparr>)) st) = page_inv st"
  by (rule page_inv_map_survey) (simp_all add: question_value_update_question)

lemma page_inv_updateChoices: "page_inv st \<Longrightarrow> updateChoices d st = Inr st' \<Longrightarrow> page_inv st'"
  by (auto simp: updateChoices_def Let_def split: option.splits sum.splits if_splits)

lemma fire_complete_outbox: "\<exists>ob. fire_complete hs st = st\<lparr>outbox := ob\<rparr>"
  unfolding fire_complete_def
proof (induction hs arbitrary: st)
  case Nil
  show ?case by (rule exI[where x = "outbox st"]) simp
next
  case (Cons h hs)
  have "\<exists>ob. (if h = OnComplete then on_complete st else st) = st\<lparr>outbox := ob\<rparr>"
    by (auto simp: on_complete_def split: option.split intro: exI[where x = "outbox st"])
  then obtain ob where "(if h = OnComplete then on_complete st else st) = st\<lparr>outbox := ob\<rparr>" ..
  with Cons.IH[of "st\<lparr>outbox := ob\<rparr>"] show ?case by auto
qed

lemma page_inv_user_complete:
  assumes inv: "page_inv st" shows "page_inv (user_complete st)"
proof (cases "survey st")
  case (Some s)
  let ?st1 = "map_survey (\<lambda>s. s\<lparr>completed := True\<rparr>) st"
  have m: "page_inv ?st1"
    using inv by (subst page_inv_map_survey) (simp_all add: question_names_def question_value_def)
  obtain ob where "fire_complete (handlers s) ?st1 = ?st1\<lparr>outbox := ob\<rparr>"
    using fire_complete_outbox by blast
  with m inv Some show ?thesis by (simp add: user_complete_def)
qed (use inv in \<open>simp add: user_complete_def\<close>)

lemma page_inv_bridge_step: "page_inv st \<Longrightarrow> page_inv (bridge_step e st)"
proof (cases e)
  case (Inbound m)
  moreover assume "page_inv st"
  ultimately show ?thesis
    by (cases m) (auto simp: handle_message_def page_inv_initializeSurvey page_inv_updateText
                       dest: page_inv_updateChoices split: sum.split)
next
  case (Ui u)
  moreover assume "page_inv st"
  ultimately show ?thesis
    by (cases u) (auto simp: user_answer_def page_inv_set_question_value page_inv_user_complete
                       split: option.split)
qed

lemma page_inv_init_page: "page_inv init_page"
  by (simp add: page_inv_def init_page_def)

lemma reachable_inv: "reachable st \<Longrightarrow> page_inv st"
  by (induction rule: reachable.induct) (simp_all add: page_inv_init_page page_inv_bridge_step)

lemma reachable_run_events: "reachable st \<Longrightarrow> reachable (run_events es st)"
  unfolding run_events_def by (induction es arbitrary: st) (auto intro: reachable.step)

lemma reachable_page_inv_facts:
  assumes "reachable st" and "survey st = Some s"
  shows "distinct (map fst (questionValues st))" "handlers s = std_handlers"
    "container st = Some (sid s)" "built st = Suc (sid s)"
    "\<exists>d. lastLoadedSurveyJSON st = Some d \<and> question_names s = definition_names d"
    "synced_at (question_names s) st"
  using reachable_inv[OF assms(1)] assms(2) by (auto simp: page_inv_def)

lemma reachable_distinct: "reachable st \<Longrightarrow> distinct (map fst (questionValues st))"
  using reachable_inv by (auto simp: page_inv_def)

lemma stored_preserve_reachable:
  assumes "reachable st" shows "stored (preserveQuestionValues st) = stored st"
proof (cases "survey st")
  case (Some s)
  then have "synced_at (question_names s) st" using reachable_page_inv_facts(6)[OF assms] by blast
  with Some show ?thesis by (auto simp: fun_eq_iff stored_preserveQuestionValues synced_at_def)
qed (simp add: fun_eq_iff stored_preserveQuestionValues)

lemma bridge_load: "bridge_step (Inbound (LoadSurvey j)) st = initializeSurvey j st"
  by (simp add: handle_message_def)

lemma stored_initializeSurvey_reachable:
  assumes "reachable st"
  shows "stored (initializeSurvey j st) = stored st"
proof (cases "is_unchanged st j")
  case True
  then show ?thesis by (simp add: initializeSurvey_skip)
next
  case ch: False
  show ?thesis
  proof (cases "\<exists>d. parse_definition j = Inr d \<and> d \<noteq> JNull")
    case True
    then obtain d where "parse_definition j = Inr d" "d \<noteq> JNull" by blast
    then have "accepted st d (initializeSurvey j st)"
      using initializeSurvey_accepted[OF ch _ _ reachable_distinct[OF assms]] by blast
    then show ?thesis using stored_preserve_reachable[OF assms] by (simp add: accepted_def)
  next
    case False
    then obtain e where "parse_definition j = Inl e \<or> (parse_definition j = Inr JNull \<and> e = TypeError)"
      by (cases "parse_definition j") auto
    then show ?thesis using initializeSurvey_error[OF ch] stored_preserve_reachable[OF assms] by simp
  qed
qed

lemma keys_write_render:
  "k \<in> map_keys (questionValues st) \<Longrightarrow>
   k \<in> map_keys (questionValues (render_survey (force_control n str evs (set_display n d (set_question_value n v st)))))"
  using write_render_frame[of st n str evs d v] by (auto simp: engine_frame_def)

lemma keys_write_render_map_survey:
  "k \<in> map_keys (questionValues st) \<Longrightarrow>
   k \<in> map_keys (questionValues (render_survey (force_control n str evs (set_display n d
          (set_question_value n v (map_survey f st))))))"
  using keys_write_render[of k "map_survey f st"] by simp

lemma keys_set_question_value:
  "k \<in> map_keys (questionValues st) \<Longrightarrow> k \<in> map_keys (questionValues (set_question_value n v st))"
  using set_question_value_frame[of st n v] by (auto simp: engine_frame_def)

lemma questionValues_user_complete [simp]: "questionValues (user_complete st) = questionValues st"
proof (cases "survey st")
  case (Some s)
  obtain ob where "fire_complete (handlers s) (map_survey (\<lambda>s. s\<lparr>completed := True\<rparr>) st) =
                   (map_survey (\<lambda>s. s\<lparr>completed := True\<rparr>) st)\<lparr>outbox := ob\<rparr>"
    using fire_complete_outbox by blast
  with Some show ?thesis by (simp add: user_complete_def)
qed (simp add: user_complete_def)

lemma choice_strings_InrD:
  "choice_strings j = Inr cs \<Longrightarrow> \<exists>xs. j = JArr xs \<and> (\<forall>x\<in>set xs. \<exists>c. x = JStr c)"
  using choice_strings_Inl[of j TypeError] by auto

lemma object_text_differ: "\<not> areJSONsEqual (JObj kvs) (JStr txt)"
  by (simp add: areJSONsEqual_def quote_json_def)

subsection \<open>Properties of a session\<close>

text \<open>
  C3. In every state a session reaches, the Value Store agrees with the live
  instance on every question of that instance: the store always holds the
  latest value of each question, between rebuilds as well.
\<close>

theorem reachable_store_synced:
  assumes "reachable st" and "survey st = Some s" and "n \<in> question_names s"
  shows "stored st n = question_value s n"
  using reachable_page_inv_facts(6)[OF assms(1,2)] assms(2,3) by (simp add: synced_at_def)

text \<open>
  C5. In every reachable state with a live instance, that instance is the one
  bound to the container, it is the last one built, it has the questions of
  the last accepted definition, and it carries exactly the three handlers, so
  no handler is registered twice and no binding survives on a discarded
  instance.
\<close>

theorem reachable_single_instance:
  assumes "reachable st" and "survey st = Some s"
  shows "container st = Some (sid s) \<and> built st = Suc (sid s) \<and> handlers s = std_handlers \<and>
         (\<exists>d. lastLoadedSurveyJSON st = Some d \<and> question_names s = definition_names d)"
  using reachable_page_inv_facts[OF assms] by blast

text \<open>
  C4. A \<open>loadSurvey\<close> message never changes a recorded answer, whether the
  definition is skipped, rejected or accepted; in particular the answer to a
  question the new definition lacks is kept.
\<close>

theorem load_keeps_store:
  assumes "reachable st"
  shows "stored (bridge_step (Inbound (LoadSurvey j)) st) = stored st"
  using stored_initializeSurvey_reachable[OF assms] by (simp only: bridge_load)

text \<open>
  C14. A \<open>loadSurvey\<close> message with a new definition builds a fresh instance
  with the definition's questions, each showing the answer the store held
  before the message.
\<close>

theorem load_shows_store:
  assumes "reachable st" and "\<not> is_unchanged st j" and "parse_definition j = Inr d" and "d \<noteq> JNull"
  shows "\<exists>s'. survey (bridge_step (Inbound (LoadSurvey j)) st) = Some s' \<and> sid s' = built st \<and>
           map qname (questions s') = map qname (definition_questions d) \<and>
           (\<forall>n\<in>question_names s'. question_value s' n = stored st n)"
  unfolding bridge_load
  using initializeSurvey_accepted[OF assms(2-4) reachable_distinct[OF assms(1)]]
    stored_preserve_reachable[OF assms(1)]
  by (auto simp: accepted_def)

text \<open>
  C19. No event ever removes a key from the Value Store: entries are only
  added or overwritten.
\<close>

theorem bridge_step_keeps_keys:
  "map_keys (questionValues st) \<subseteq> map_keys (questionValues (bridge_step e st))"
proof (cases e)
  case (Inbound m)
  then show ?thesis
  proof (cases m)
    case (LoadSurvey j)
    with Inbound show ?thesis using initializeSurvey_keys by (simp add: handle_message_def)
  next
    case (UpdateTextMsg d)
    with Inbound show ?thesis
      by (auto simp: handle_message_def updateText_def Let_def split: option.split intro: keys_write_render)
  next
    case (UpdateChoicesMsg d)
    with Inbound show ?thesis
      by (auto simp: handle_message_def updateChoices_def Let_def split: option.splits sum.splits
               intro: keys_write_render_map_survey)
  qed
next
  case (Ui u)
  then show ?thesis
    by (cases u) (auto simp: user_answer_def split: option.split intro: keys_set_question_value)
qed

text \<open>
  C8. A definition sent as JSON text is rebuilt even when it is the
  definition already loaded: the identity test of line 46 compares the last
  accepted object with the text before it is parsed, so the two never
  serialize alike, and a fresh instance is built.
\<close>

theorem text_definition_rebuilds:
  assumes "reachable st" and "json_parse txt = Some (JObj kvs)"
    and "lastLoadedSurveyJSON st = Some (JObj kvs)"
  shows "\<exists>s'. survey (bridge_step (Inbound (LoadSurvey (JStr txt))) st) = Some s' \<and> sid s' = built st \<and>
           built (bridge_step (Inbound (LoadSurvey (JStr txt))) st) = Suc (built st)"
proof -
  have "\<not> is_unchanged st (JStr txt)"
    using assms(3) object_text_differ by (simp add: is_unchanged_def)
  moreover have "parse_definition (JStr txt) = Inr (JObj kvs)"
    using assms(2) by (simp add: parse_definition_def)
  ultimately have "accepted st (JObj kvs) (initializeSurvey (JStr txt) st)"
    using initializeSurvey_accepted reachable_distinct[OF assms(1)] by blast
  then show ?thesis by (auto simp: accepted_def handle_message_def)
qed

text \<open>
  C10. For messages whose target name is a valid selector value, the only
  exception that escapes a message handler is the \<open>TypeError\<close> of an
  \<open>updateChoices\<close> message whose target exists and whose choices are not an
  array of strings; every other message returns. (A target name containing
  a quote, a backslash or a line break can make the \<open>querySelector\<close>
  fallback throw \<open>SyntaxError\<close>; such names are outside this property.)
\<close>

theorem handle_message_throws_iff:
  "message_selector_safe m \<Longrightarrow> handle_message m st = Inl e \<longleftrightarrow>
     (\<exists>d s. m = UpdateChoicesMsg d \<and> survey st = Some s \<and> cu_target d \<in> question_names s \<and>
        \<not> (\<exists>xs. cu_choices d = JArr xs \<and> (\<forall>x\<in>set xs. \<exists>c. x = JStr c)) \<and> e = TypeError)"
  by (cases m)
     (auto simp: handle_message_def updateChoices_def Let_def choice_strings_Inl getQuestionByName_None_iff
           split: option.splits sum.splits dest: getQuestionByName_Some_name choice_strings_InrD)

text \<open>
  C11. A \<open>loadSurvey\<close> message whose text is not JSON leaves the session as it
  was: the same instance, definition, container, build count, answers and
  uncaught exceptions; only the log grows, by the error and its trace (or by
  the skip line, when the text equals a string definition loaded before).
  The text is one the parser rejects and in which no digit is followed by
  \<open>.\<close>, \<open>e\<close> or \<open>E\<close>: then it holds no number with a fraction or an exponent,
  the one form the parser's integer model does not read, and the builtin
  \<open>JSON.parse\<close> rejects it as well.
\<close>

theorem malformed_load_no_op:
  assumes "reachable st" and "json_parse txt = None"
    and "st' = bridge_step (Inbound (LoadSurvey (JStr txt))) st" and "\<not> fraction_mark txt"
  shows "survey st' = survey st \<and> lastLoadedSurveyJSON st' = lastLoadedSurveyJSON st \<and>
         container st' = container st \<and> built st' = built st \<and> stored st' = stored st \<and>
         uncaught st' = uncaught st \<and>
         (console st' = console st @ [LogException ''Error initializing survey:'' SyntaxError, LogTrace] \<or>
          console st' = console st @ [LogInfo ''Identical survey JSON. Skipping re-initialization.''])"
proof (cases "is_unchanged st (JStr txt)")
  case True
  with assms(3) show ?thesis by (simp add: handle_message_def initializeSurvey_skip log_def)
next
  case False
  have "parse_definition (JStr txt) = Inl SyntaxError" using assms(2) by (simp add: parse_definition_def)
  then have "st' = log LogTrace (log (LogException ''Error initializing survey:'' SyntaxError)
                     (preserveQuestionValues st))"
    using assms(3) initializeSurvey_error[OF False] by (simp add: handle_message_def)
  with preserveQuestionValues_frame[of st] stored_preserve_reachable[OF assms(1)] show ?thesis
    by (simp add: engine_frame_def log_def)
qed

text \<open>
  C17. A respondent's answer that changes a question of a live, uncompleted
  instance is recorded in the store and sent, once, as a
  \<open>selectedChoice\<close> value.
\<close>

theorem user_answer_recorded:
  assumes "reachable st" and "survey st = Some s" and "n \<in> question_names s"
    and "\<not> completed s" and "question_value s n \<noteq> v"
  shows "stored (bridge_step (Ui (UserAnswer n v)) st) n = v \<and>
         outbox (bridge_step (Ui (UserAnswer n v)) st) = outbox st @ [SelectedChoice n v]"
  using assms reachable_page_inv_facts(2)[OF assms(1,2)]
  by (simp add: user_answer_def set_question_value_def fire_value_changed_def std_handlers_def
                on_value_changed_def stored_def)

text \<open>
  C18. Completing a live survey sends its value hash, serialized, as the
  \<open>surveyData\<close> value, once; that hash agrees with the Value Store on every
  question.
\<close>

theorem user_complete_sends:
  assumes "reachable st" and "survey st = Some s" and "\<not> completed s"
  shows "outbox (bridge_step (Ui UserComplete) st) = outbox st @ [SurveyData (json_stringify (JObj (sdata s)))] \<and>
         (\<forall>n\<in>question_names s. map_of (sdata s) n = stored st n)"
  using assms reachable_page_inv_facts(2,6)[OF assms(1,2)]
  by (simp add: user_complete_def fire_complete_def std_handlers_def on_complete_def synced_at_def
                question_value_def)

subsection \<open>Concrete sessions\<close>

lemma reachable_sample_session: "reachable sample_session"
  unfolding sample_session_def by (rule reachable_run_events[OF reachable.init])

lemma sample_session_live:
  "survey sample_session = Some (the (survey sample_session)) \<and>
   ''q1'' \<in> question_names (the (survey sample_session)) \<and>
   ''q2'' \<in> question_names (the (survey sample_session)) \<and>
   \<not> completed (the (survey sample_session)) \<and>
   question_value (the (survey sample_session)) ''q2'' = None"
  by code_simp

theorem reachable_store_synced_witness:
  "reachable sample_session \<and> survey sample_session = Some (the (survey sample_session)) \<and>
   ''q1'' \<in> question_names (the (survey sample_session)) \<and>
   stored sample_session ''q1'' = question_value (the (survey sample_session)) ''q1''"
  using reachable_store_synced[OF reachable_sample_session, of "the (survey sample_session)" "''q1''"]
    reachable_sample_session sample_session_live by blast

theorem reachable_single_instance_witness:
  "reachable sample_session \<and> survey sample_session = Some (the (survey sample_session)) \<and>
   container sample_session = Some (sid (the (survey sample_session))) \<and>
   handlers (the (survey sample_session)) = std_handlers"
  using reachable_single_instance[OF reachable_sample_session, of "the (survey sample_session)"]
    reachable_sample_session sample_session_live by blast

theorem load_keeps_store_witness:
  "reachable sample_session \<and>
   stored (bridge_step (Inbound (LoadSurvey (sample_definition [sample_question ''q2'' ''text'']))) sample_session)
     = stored sample_session"
  using load_keeps_store[OF reachable_sample_session] reachable_sample_session by blast

theorem load_shows_store_witness:
  "reachable sample_session \<and>
   \<not> is_unchanged sample_session (sample_definition [sample_question ''q1'' ''dropdown'']) \<and>
   parse_definition (sample_definition [sample_question ''q1'' ''dropdown'']) =
     Inr (sample_definition [sample_question ''q1'' ''dropdown'']) \<and>
   sample_definition [sample_question ''q1'' ''dropdown''] \<noteq> JNull \<and>
   (\<exists>s'. survey (bridge_step (Inbound (LoadSurvey (sample_definition [sample_question ''q1'' ''dropdown''])))
                   sample_session) = Some s' \<and>
         sid s' = built sample_session \<and>
         map qname (questions s') = map qname (definition_questions (sample_definition [sample_question ''q1'' ''dropdown''])) \<and>
         (\<forall>n\<in>question_names s'. question_value s' n = stored sample_session n))"
proof -
  have h: "\<not> is_unchanged sample_session (sample_definition [sample_question ''q1'' ''dropdown'']) \<and>
   parse_definition (sample_definition [sample_question ''q1'' ''dropdown'']) =
     Inr (sample_definition [sample_question ''q1'' ''dropdown'']) \<and>
   sample_definition [sample_question ''q1'' ''dropdown''] \<noteq> JNull" by code_simp
  then show ?thesis
    using load_shows_store[OF reachable_sample_session, of "sample_definition [sample_question ''q1'' ''dropdown'']"]
      reachable_sample_session by blast
qed

theorem text_definition_rebuilds_witness:
  "reachable sample_session \<and>
   json_parse (json_stringify sample_survey) = Some (JObj [(''questions'', JArr [sample_question ''q1'' ''dropdown'', sample_question ''q2'' ''text''])]) \<and>
   lastLoadedSurveyJSON sample_session = Some (JObj [(''questions'', JArr [sample_question ''q1'' ''dropdown'', sample_question ''q2'' ''text''])]) \<and>
   (\<exists>s'. survey (bridge_step (Inbound (LoadSurvey (JStr (json_stringify sample_survey)))) sample_session) = Some s' \<and>
         sid s' = built sample_session \<and>
         built (bridge_step (Inbound (LoadSurvey (JStr (json_stringify sample_survey)))) sample_session) =
           Suc (built sample_session))"
proof -
  have h: "json_parse (json_stringify sample_survey) = Some (JObj [(''questions'', JArr [sample_question ''q1'' ''dropdown'', sample_question ''q2'' ''text''])]) \<and>
   lastLoadedSurveyJSON sample_session = Some (JObj [(''questions'', JArr [sample_question ''q1'' ''dropdown'', sample_question ''q2'' ''text''])])"
    by code_simp
  then show ?thesis using text_definition_rebuilds[OF reachable_sample_session] reachable_sample_session by blast
qed

theorem handle_message_throws_iff_witness:
  "message_selector_safe (UpdateChoicesMsg \<lparr>cu_target = ''q1'', cu_choices = JArr [JNum 1]\<rparr>) \<and>
   handle_message (UpdateChoicesMsg \<lparr>cu_target = ''q1'', cu_choices = JArr [JNum 1]\<rparr>) sample_session = Inl TypeError \<and>
   (\<exists>d s. UpdateChoicesMsg \<lparr>cu_target = ''q1'', cu_choices = JArr [JNum 1]\<rparr> = UpdateChoicesMsg d \<and>
      survey sample_session = Some s \<and> cu_target d \<in> question_names s \<and>
      \<not> (\<exists>xs. cu_choices d = JArr xs \<and> (\<forall>x\<in>set xs. \<exists>c. x = JStr c)) \<and> TypeError = TypeError)"
proof -
  have h: "handle_message (UpdateChoicesMsg \<lparr>cu_target = ''q1'', cu_choices = JArr [JNum 1]\<rparr>) sample_session
             = Inl TypeError" by code_simp
  moreover have safe: "message_selector_safe (UpdateChoicesMsg \<lparr>cu_target = ''q1'', cu_choices = JArr [JNum 1]\<rparr>)"
    by (simp add: selector_safe_def)
  ultimately show ?thesis
    using handle_message_throws_iff[OF safe, of sample_session TypeError] by blast
qed

theorem malformed_load_no_op_witness:
  "reachable sample_session \<and> json_parse ''{'' = None \<and> \<not> fraction_mark ''{'' \<and>
   survey (bridge_step (Inbound (LoadSurvey (JStr ''{''))) sample_session) = survey sample_session \<and>
   stored (bridge_step (Inbound (LoadSurvey (JStr ''{''))) sample_session) = stored sample_session \<and>
   built (bridge_step (Inbound (LoadSurvey (JStr ''{''))) sample_session) = built sample_session"
proof -
  have h: "json_parse ''{'' = None" by code_simp
  show ?thesis
    using malformed_load_no_op[OF reachable_sample_session h refl] reachable_sample_session h by simp
qed

theorem user_answer_recorded_witness:
  "reachable sample_session \<and> survey sample_session = Some (the (survey sample_session)) \<and>
   ''q2'' \<in> question_names (the (survey sample_session)) \<and> \<not> completed (the (survey sample_session)) \<and>
   question_value (the (survey sample_session)) ''q2'' \<noteq> Some (JStr ''hi'') \<and>
   stored (bridge_step (Ui (UserAnswer ''q2'' (Some (JStr ''hi'')))) sample_session) ''q2'' = Some (JStr ''hi'') \<and>
   outbox (bridge_step (Ui (UserAnswer ''q2'' (Some (JStr ''hi'')))) sample_session) =
     outbox sample_session @ [SelectedChoice ''q2'' (Some (JStr ''hi''))]"
  using user_answer_recorded[OF reachable_sample_session, of "the (survey sample_session)" "''q2''" "Some (JStr ''hi'')"]
    reachable_sample_session sample_session_live by simp

theorem user_complete_sends_witness:
  "reachable sample_session \<and> survey sample_session = Some (the (survey sample_session)) \<and>
   \<not> completed (the (survey sample_session)) \<and>
   outbox (bridge_step (Ui UserComplete) sample_session) =
     outbox sample_session @ [SurveyData (json_stringify (JObj (sdata (the (survey sample_session)))))]"
  using user_complete_sends[OF reachable_sample_session, of "the (survey sample_session)"]
    reachable_sample_session sample_session_live by simp

end
