(* ===== verification/Refinement.thy ===== *)
theory Refinement
  imports Bridge
begin

text \<open>
  An abstract specification of a session, after sections 3, 4 and 8 of the
  spec: the last accepted definition, the answers of the Value Store, and
  whether the live survey is completed. \<open>spec_step\<close> is what each event
  promises at that level; \<open>abs_page\<close> reads the abstract session off a page
  state. Every event but a definition sent as text refines its abstract
  step in every reachable state, so whole runs do.
\<close>

record session =
  sess_def :: "json option"
  sess_answers :: "string \<Rightarrow> json option"
  sess_done :: bool

definition live_done :: "page \<Rightarrow> bool" where
  "live_done st = (case survey st of None \<Rightarrow> False | Some s \<Rightarrow> completed s)"

definition abs_page :: "page \<Rightarrow> session" where
  "abs_page st = \<lparr>sess_def = lastLoadedSurveyJSON st, sess_answers = stored st, sess_done = live_done st\<rparr>"

definition sess_names :: "session \<Rightarrow> string set" where
  "sess_names a = (case sess_def a of None \<Rightarrow> {} | Some d \<Rightarrow> definition_names d)"

fun spec_step :: "event \<Rightarrow> session \<Rightarrow> session" where
  "spec_step (Inbound (LoadSurvey j)) a =
     (case parse_definition j of
        Inl _ \<Rightarrow> a
      | Inr d \<Rightarrow>
          if d = JNull then a
          else if (case sess_def a of None \<Rightarrow> False | Some l \<Rightarrow> js_truthy l \<and> areJSONsEqual l d) then a
          else a\<lparr>sess_def := Some d, sess_done := False\<rparr>)"
| "spec_step (Inbound (UpdateTextMsg d)) a =
     (if tu_target d \<in> sess_names a
      then a\<lparr>sess_answers := (sess_answers a)(tu_target d := tu_text d)\<rparr> else a)"
| "spec_step (Inbound (UpdateChoicesMsg d)) a = a"
| "spec_step (Ui (UserAnswer n v)) a =
     (if n \<in> sess_names a \<and> \<not> sess_done a then a\<lparr>sess_answers := (sess_answers a)(n := v)\<rparr> else a)"
| "spec_step (Ui UserComplete) a = (if sess_def a \<noteq> None \<and> \<not> sess_done a then a\<lparr>sess_done := True\<rparr> else a)"

subsection \<open>The abstraction across the operations\<close>

lemma live_done_shape:
  "live_done st = (case map_option shape (survey st) of None \<Rightarrow> False | Some x \<Rightarrow> snd (snd (snd (snd (snd x)))))"
  by (cases "survey st") (simp_all add: live_done_def shape_def)

lemma live_done_frame: "engine_frame st st' \<Longrightarrow> live_done st' = live_done st"
  unfolding engine_frame_def by (simp only: live_done_shape)

lemma abs_page_frame:
  "engine_frame st st' \<Longrightarrow> stored st' = stored st \<Longrightarrow> abs_page st' = abs_page st"
  by (simp add: abs_page_def live_done_frame engine_frame_def)

lemma abs_page_log [simp]: "abs_page (log e st) = abs_page st"
  by (simp add: abs_page_def live_done_def)

lemma abs_page_uncaught [simp]: "abs_page (st\<lparr>uncaught := u\<rparr>) = abs_page st"
  by (simp add: abs_page_def live_done_def stored_def)

lemma sess_names_abs:
  assumes "reachable st"
  shows "sess_names (abs_page st) = (case survey st of None \<Rightarrow> {} | Some s \<Rightarrow> question_names s)"
proof (cases "survey st")
  case None
  have "page_inv st" using assms by (rule reachable_inv)
  with None have "lastLoadedSurveyJSON st = None" unfolding page_inv_def by simp
  with None show ?thesis by (simp add: abs_page_def sess_names_def)
next
  case (Some s)
  obtain d where "lastLoadedSurveyJSON st = Some d" "question_names s = definition_names d"
    using reachable_page_inv_facts(5)[OF assms Some] by blast
  with Some show ?thesis by (simp add: abs_page_def sess_names_def)
qed

lemma stored_set_inv:
  assumes "page_inv st" and "survey st = Some s" and "n \<in> question_names s"
  shows "stored (set_question_value n v st) = (stored st)(n := v)"
proof -
  have "handlers s = std_handlers" "synced_at (question_names s) st"
    using assms(1,2) by (auto simp: page_inv_def)
  then have "stored st n = question_value s n" using assms(2,3) by (simp add: synced_at_def)
  with assms(2) \<open>handlers s = std_handlers\<close> show ?thesis
    by (simp add: fun_eq_iff stored_set_question_value std_handlers_def)
qed

lemma abs_page_run_callback [simp]: "abs_page (run_callback d st) = abs_page st"
  using run_callback_cases[of d st] by auto

lemma abs_page_outbox [simp]: "abs_page (st\<lparr>outbox := ob\<rparr>) = abs_page st"
  by (simp add: abs_page_def live_done_def stored_def)

lemma abs_write_render:
  assumes "page_inv st" and "survey st = Some s" and "n \<in> question_names s"
  shows "abs_page (render_survey (force_control n str evs (set_display n dd (set_question_value n v st)))) =
         (abs_page st)\<lparr>sess_answers := (stored st)(n := v)\<rparr>"
proof -
  let ?x = "render_survey (force_control n str evs (set_display n dd (set_question_value n v st)))"
  have "stored ?x = (stored st)(n := v)" using stored_set_inv[OF assms] by simp
  with write_render_frame[of st n str evs dd v] show ?thesis
    by (simp add: abs_page_def live_done_frame engine_frame_def)
qed

lemma abs_initializeSurvey:
  assumes "reachable st" and "\<forall>txt. j \<noteq> JStr txt"
  shows "abs_page (initializeSurvey j st) = spec_step (Inbound (LoadSurvey j)) (abs_page st)"
proof -
  have p: "parse_definition j = Inr j" by (rule parse_definition_not_string[OF assms(2)])
  have cond: "(case sess_def (abs_page st) of None \<Rightarrow> False | Some l \<Rightarrow> js_truthy l \<and> areJSONsEqual l j) =
              is_unchanged st j"
    by (simp add: abs_page_def is_unchanged_def split: option.split)
  show ?thesis
  proof (cases "is_unchanged st j")
    case True
    then show ?thesis using p cond by (simp add: initializeSurvey_skip)
  next
    case ch: False
    show ?thesis
    proof (cases "j = JNull")
      case True
      have "initializeSurvey j st =
              log LogTrace (log (LogException ''Error initializing survey:'' TypeError) (preserveQuestionValues st))"
        using initializeSurvey_error[OF ch] p True by simp
      moreover have "abs_page (preserveQuestionValues st) = abs_page st"
        by (rule abs_page_frame[OF preserveQuestionValues_frame stored_preserve_reachable[OF assms(1)]])
      ultimately show ?thesis using p True by simp
    next
      case nn: False
      have "accepted st j (initializeSurvey j st)"
        using initializeSurvey_accepted[OF ch p nn reachable_distinct[OF assms(1)]] by blast
      then have "abs_page (initializeSurvey j st) = (abs_page st)\<lparr>sess_def := Some j, sess_done := False\<rparr>"
        using stored_preserve_reachable[OF assms(1)] by (auto simp: accepted_def abs_page_def live_done_def)
      then show ?thesis using p nn ch cond by simp
    qed
  qed
qed

lemma abs_updateText:
  assumes "reachable st"
  shows "abs_page (updateText d st) = spec_step (Inbound (UpdateTextMsg d)) (abs_page st)"
proof (cases "survey st")
  case None
  then show ?thesis using sess_names_abs[OF assms] by (simp add: updateText_def)
next
  case (Some s)
  show ?thesis
  proof (cases "tu_target d \<in> question_names s")
    case True
    have "page_inv st" using assms by (rule reachable_inv)
    then have "abs_page (updateText d st) = (abs_page st)\<lparr>sess_answers := (stored st)(tu_target d := tu_text d)\<rparr>"
      using updateText_found[OF Some True] abs_write_render[OF _ Some True] by simp
    with Some True show ?thesis using sess_names_abs[OF assms] by (simp add: abs_page_def)
  next
    case False
    then have "getQuestionByName s (tu_target d) = None" by (simp add: getQuestionByName_None_iff)
    with Some False show ?thesis using sess_names_abs[OF assms] by (simp add: updateText_def)
  qed
qed

lemma stored_map_survey_eq [simp]: "stored (map_survey f st) = stored st"
  by (simp add: fun_eq_iff)

lemma abs_page_choices_step [simp]:
  "abs_page (map_survey (update_question n (\<lambda>q. q\<lparr>qchoices := items\<rparr>)) st) = abs_page st"
  by (cases "survey st") (simp_all add: abs_page_def live_done_def)

lemma abs_updateChoices:
  assumes "reachable st" and "updateChoices d st = Inr st'"
  shows "abs_page st' = abs_page st"
proof (cases "survey st")
  case None
  then show ?thesis using assms(2) by (auto simp: updateChoices_def)
next
  case (Some s)
  show ?thesis
  proof (cases "cu_target d \<in> question_names s")
    case False
    then have "getQuestionByName s (cu_target d) = None" by (simp add: getQuestionByName_None_iff)
    with Some show ?thesis using assms(2) by (auto simp: updateChoices_def)
  next
    case True
    let ?n = "cu_target d"
    obtain cs where cs: "choice_strings (cu_choices d) = Inr cs"
      using assms(2) Some True by (cases "choice_strings (cu_choices d)")
        (auto simp: updateChoices_def Let_def getQuestionByName_None_iff split: option.splits)
    let ?st1 = "map_survey (update_question ?n (\<lambda>q. q\<lparr>qchoices := choice_items cs\<rparr>)) st"
    obtain s1 q where s1: "survey ?st1 = Some s1" and "getQuestionByName s1 ?n = Some (q\<lparr>qchoices := choice_items cs\<rparr>)"
        and qv: "\<forall>m. question_value s1 m = question_value s m" and nm: "question_names s1 = question_names s"
      using choices_step[OF Some True] by blast
    have inv: "page_inv ?st1" using reachable_inv[OF assms(1)] by simp
    have "synced_at (question_names s) st" using reachable_page_inv_facts(6)[OF assms(1) Some] .
    then have sy: "stored st ?n = question_value s ?n" using Some True by (simp add: synced_at_def)
    have "abs_page (render_survey (force_control ?n str evs (set_display ?n dd
              (set_question_value ?n (question_value s ?n) ?st1)))) = abs_page st" for str evs dd
    proof -
      have "(stored ?st1)(?n := question_value s ?n) = stored ?st1" using sy by (simp add: fun_upd_idem)
      moreover have "(abs_page ?st1)\<lparr>sess_answers := stored ?st1\<rparr> = abs_page ?st1" by (simp add: abs_page_def)
      ultimately show ?thesis
        using abs_write_render[OF inv s1, of ?n str evs dd "question_value s ?n"] True nm by simp
    qed
    then show ?thesis using assms(2) updateChoices_found[OF Some True cs] by (auto simp: Let_def split: if_splits)
  qed
qed

lemma abs_user_answer:
  assumes "reachable st"
  shows "abs_page (user_answer n v st) = spec_step (Ui (UserAnswer n v)) (abs_page st)"
proof (cases "survey st")
  case None
  then show ?thesis using sess_names_abs[OF assms] by (simp add: user_answer_def)
next
  case (Some s)
  have inv: "page_inv st" using assms by (rule reachable_inv)
  have d: "sess_done (abs_page st) = completed s" using Some by (simp add: abs_page_def live_done_def)
  show ?thesis
  proof (cases "n \<in> question_names s \<and> \<not> completed s")
    case True
    have "abs_page (set_question_value n v st) = (abs_page st)\<lparr>sess_answers := (stored st)(n := v)\<rparr>"
      using stored_set_inv[OF inv Some] True set_question_value_frame[of st n v]
      by (simp add: abs_page_def live_done_frame engine_frame_def)
    with Some True d show ?thesis using sess_names_abs[OF assms] by (simp add: user_answer_def abs_page_def)
  next
    case False
    with Some d show ?thesis using sess_names_abs[OF assms] by (auto simp: user_answer_def)
  qed
qed

lemma abs_user_complete:
  assumes "reachable st"
  shows "abs_page (user_complete st) = spec_step (Ui UserComplete) (abs_page st)"
proof (cases "survey st")
  case None
  have "page_inv st" using assms by (rule reachable_inv)
  with None have "lastLoadedSurveyJSON st = None" unfolding page_inv_def by simp
  with None show ?thesis by (simp add: user_complete_def abs_page_def)
next
  case (Some s)
  obtain d where d: "lastLoadedSurveyJSON st = Some d" using reachable_page_inv_facts(5)[OF assms Some] by blast
  let ?st1 = "map_survey (\<lambda>s. s\<lparr>completed := True\<rparr>) st"
  obtain ob where "fire_complete (handlers s) ?st1 = ?st1\<lparr>outbox := ob\<rparr>" using fire_complete_outbox by blast
  with Some d show ?thesis by (simp add: user_complete_def abs_page_def live_done_def)
qed

subsection \<open>Refinement\<close>

text \<open>
  In a reachable state, every event other than a definition sent as text
  changes the abstract session exactly as \<open>spec_step\<close> says.
\<close>

lemma bridge_step_abs:
  assumes "reachable st" and "\<forall>txt. e \<noteq> Inbound (LoadSurvey (JStr txt))"
  shows "abs_page (bridge_step e st) = spec_step e (abs_page st)"
proof (cases e)
  case (Inbound m)
  show ?thesis
  proof (cases m)
    case (LoadSurvey j)
    then have "\<forall>txt. j \<noteq> JStr txt" using assms(2) Inbound by auto
    with Inbound LoadSurvey show ?thesis using abs_initializeSurvey[OF assms(1)] by (simp add: handle_message_def)
  next
    case (UpdateTextMsg d)
    with Inbound show ?thesis using abs_updateText[OF assms(1)] by (simp add: handle_message_def)
  next
    case (UpdateChoicesMsg d)
    with Inbound show ?thesis using abs_updateChoices[OF assms(1)]
      by (auto simp: handle_message_def split: sum.split)
  qed
next
  case (Ui u)
  then show ?thesis using abs_user_answer[OF assms(1)] abs_user_complete[OF assms(1)] by (cases u) simp_all
qed

text \<open>
  C6. The page implements the abstract specification: from any reachable
  state, a run of messages and user events, none of them a definition sent as
  text, ends in a state whose abstract session is the one the abstract steps
  compute.
\<close>

theorem run_events_refines:
  assumes "reachable st" and "\<forall>e\<in>set es. \<forall>txt. e \<noteq> Inbound (LoadSurvey (JStr txt))"
  shows "abs_page (run_events es st) = fold spec_step es (abs_page st)"
  using assms
proof (induction es arbitrary: st)
  case (Cons e es)
  have "reachable (bridge_step e st)" using Cons.prems(1) by (rule reachable.step)
  then have "abs_page (run_events es (bridge_step e st)) = fold spec_step es (abs_page (bridge_step e st))"
    using Cons.prems(2) by (intro Cons.IH) auto
  then show ?case using bridge_step_abs[OF Cons.prems(1)] Cons.prems(2) by (simp add: run_events_def)
qed (simp add: run_events_def)

theorem run_events_refines_witness:
  "reachable init_page \<and>
   (\<forall>txt. Inbound (LoadSurvey sample_survey) \<noteq> Inbound (LoadSurvey (JStr txt))) \<and>
   abs_page (run_events [Inbound (LoadSurvey sample_survey), Ui (UserAnswer ''q1'' (Some (JStr ''a''))),
                         Inbound (UpdateTextMsg \<lparr>tu_target = ''q2'', tu_text = Some (JStr ''hi''), tu_callback = None\<rparr>),
                         Ui UserComplete] init_page) =
     fold spec_step [Inbound (LoadSurvey sample_survey), Ui (UserAnswer ''q1'' (Some (JStr ''a''))),
                     Inbound (UpdateTextMsg \<lparr>tu_target = ''q2'', tu_text = Some (JStr ''hi''), tu_callback = None\<rparr>),
                     Ui UserComplete] (abs_page init_page)"
  using run_events_refines[OF reachable.init,
      of "[Inbound (LoadSurvey sample_survey), Ui (UserAnswer ''q1'' (Some (JStr ''a''))),
           Inbound (UpdateTextMsg \<lparr>tu_target = ''q2'', tu_text = Some (JStr ''hi''), tu_callback = None\<rparr>),
           Ui UserComplete]"]
    reachable.init by (simp add: sample_survey_def sample_definition_def)

end
