(* ===== verification/Session.thy ===== *)
theory Session
  imports Refinement
begin

text \<open>
  Properties of whole runs of the page: how many Form Engine instances a run
  builds, and how a session recovers from any state it reaches.
\<close>

fun is_load :: "event \<Rightarrow> bool" where
  "is_load (Inbound (LoadSurvey j)) = True"
| "is_load _ = False"

subsection \<open>Build counts\<close>

lemma activate_survey_frame:
  "engine_frame st (restoreQuestionValues st) \<and>
   engine_frame ((register_handlers (restoreQuestionValues st))\<lparr>container :=
        map_option sid (survey (register_handlers (restoreQuestionValues st)))\<rparr>) (activate_survey st)"
  using restoreQuestionValues_frame[of st]
    render_survey_frame[of "(register_handlers (restoreQuestionValues st))\<lparr>container :=
        map_option sid (survey (register_handlers (restoreQuestionValues st)))\<rparr>"]
  by (simp add: activate_survey_def bind_container_def)

lemma activate_survey_keeps [simp]:
  "built (activate_survey st) = built st"
  "console (activate_survey st) = console st"
  "survey (activate_survey st) = None \<longleftrightarrow> survey st = None"
  using activate_survey_frame[of st] engine_frame_survey_None
  by (auto simp: register_handlers_def engine_frame_def map_survey_def)

lemma built_initializeSurvey: "built (initializeSurvey j st) \<le> Suc (built st)"
  using preserveQuestionValues_frame[of st]
  by (auto simp: initializeSurvey_def initialize_body_def Let_def updateDocumentTitle_def engine_frame_def
           split: prod.split option.split sum.split if_splits)

lemma built_write_render [simp]:
  "built (render_survey (force_control n str evs (set_display n d (set_question_value n v st)))) = built st"
  using write_render_frame[of st n str evs d v] by (simp add: engine_frame_def)

lemma built_log [simp]: "built (log e st) = built st"
  by (simp add: log_def)

lemma built_run_callback [simp]: "built (run_callback d st) = built st"
  using run_callback_cases[of d st] by auto

lemma built_updateText: "built (updateText d st) = built st"
  by (simp add: updateText_def Let_def split: option.split)

lemma built_updateChoices: "updateChoices d st = Inr st' \<Longrightarrow> built st' = built st"
  by (auto simp: updateChoices_def Let_def map_survey_def split: option.splits sum.splits if_splits)

lemma built_user_complete: "built (user_complete st) = built st"
proof (cases "survey st")
  case (Some s)
  obtain ob where "fire_complete (handlers s) (map_survey (\<lambda>s. s\<lparr>completed := True\<rparr>) st)
      = (map_survey (\<lambda>s. s\<lparr>completed := True\<rparr>) st)\<lparr>outbox := ob\<rparr>"
    using fire_complete_outbox by blast
  with Some show ?thesis by (simp add: user_complete_def map_survey_def)
qed (simp add: user_complete_def)

lemma built_user_answer: "built (user_answer n v st) = built st"
  using set_question_value_frame[of st n v] by (simp add: user_answer_def engine_frame_def split: option.split)

lemma built_bridge_step:
  "built (bridge_step e st) \<le> built st + (if is_load e then 1 else 0)"
proof (cases e)
  case (Inbound m)
  then show ?thesis
    using built_initializeSurvey built_updateText built_updateChoices
    by (cases m) (auto simp: handle_message_def split: sum.split)
next
  case (Ui u)
  then show ?thesis by (cases u) (simp_all add: built_user_answer built_user_complete)
qed

lemma run_events_Cons [simp]: "run_events (e # es) st = run_events es (bridge_step e st)"
  by (simp add: run_events_def)

lemma run_events_Nil [simp]: "run_events [] st = st"
  by (simp add: run_events_def)

subsection \<open>Recovery by reloading\<close>

lemma stringify_arr_obj_differ:
  "areJSONsEqual l (JArr xs) \<Longrightarrow> \<not> areJSONsEqual l (JObj kvs)"
  by (simp add: areJSONsEqual_def)

text \<open>
  After a load of the array \<open>[d]\<close>, whatever the state before, the last
  accepted definition serializes as an array, so a following load of the
  object \<open>d\<close> is never skipped.
\<close>

lemma load_arr_not_unchanged:
  assumes "reachable st"
  shows "\<not> is_unchanged (initializeSurvey (JArr [JObj kvs]) st) (JObj kvs)"
proof (cases "is_unchanged st (JArr [JObj kvs])")
  case True
  then show ?thesis
    using stringify_arr_obj_differ
    by (auto simp: initializeSurvey_skip is_unchanged_def split: option.splits)
next
  case False
  have "parse_definition (JArr [JObj kvs]) = Inr (JArr [JObj kvs])"
    by (simp add: parse_definition_not_string)
  then have "accepted st (JArr [JObj kvs]) (initializeSurvey (JArr [JObj kvs]) st)"
    using initializeSurvey_accepted[OF False _ _ reachable_distinct[OF assms]] by blast
  then show ?thesis by (simp add: accepted_def is_unchanged_def areJSONsEqual_def)
qed

lemma reachable_load: "reachable st \<Longrightarrow> reachable (initializeSurvey j st)"
  by (metis bridge_load reachable.step)

subsection \<open>Order of independent messages\<close>

lemma spec_step_text_commute:
  "tu_target d1 \<noteq> tu_target d2 \<Longrightarrow>
   spec_step (Inbound (UpdateTextMsg d2)) (spec_step (Inbound (UpdateTextMsg d1)) a) =
   spec_step (Inbound (UpdateTextMsg d1)) (spec_step (Inbound (UpdateTextMsg d2)) a)"
  by (simp add: sess_names_def fun_upd_twist)

lemma abs_run_two:
  assumes "reachable st" and "\<forall>txt. e1 \<noteq> Inbound (LoadSurvey (JStr txt))"
    and "\<forall>txt. e2 \<noteq> Inbound (LoadSurvey (JStr txt))"
  shows "abs_page (run_events [e1, e2] st) = spec_step e2 (spec_step e1 (abs_page st))"
  using bridge_step_abs[OF reachable.step[OF assms(1)] assms(3)] bridge_step_abs[OF assms(1,2)]
  by simp

subsection \<open>The console\<close>

lemma console_ops [simp]:
  "console (render_survey st) = console st"
  "console (set_display n v st) = console st"
  "console (set_question_value n v st) = console st"
  "console (force_control n str evs st) = console st"
  "console (map_survey f st) = console st"
  using render_survey_frame set_display_frame set_question_value_frame force_control_frame
  by (simp_all add: engine_frame_def map_survey_def)

lemma console_initializeSurvey:
  "\<exists>l. console (initializeSurvey j st) = console st @ l \<and> length l \<le> 2"
  using preserveQuestionValues_frame[of st]
  by (auto simp: initializeSurvey_def initialize_body_def Let_def updateDocumentTitle_def engine_frame_def
                 log_def split: prod.split option.split sum.split if_splits)

lemma console_run_callback:
  "\<exists>l. console (run_callback d st) = console st @ l \<and> length l \<le> 1"
  using run_callback_cases[of d st] by (auto simp: log_def)

lemma console_fire_complete [simp]: "console (fire_complete hs st) = console st"
  using fire_complete_outbox[of hs st] by auto

lemma console_updateText:
  "\<exists>l. console (updateText d st) = console st @ l \<and> length l \<le> 1"
proof (cases "\<exists>s q. survey st = Some s \<and> getQuestionByName s (tu_target d) = Some q")
  case True
  then obtain s q where s: "survey st = Some s" "getQuestionByName s (tu_target d) = Some q" by blast
  let ?st4 = "render_survey (force_control (tu_target d) (js_string_of (tu_text d))
                [DomChange (tu_target d), DomInput (tu_target d)]
                (set_display (tu_target d) (tu_text d) (set_question_value (tu_target d) (tu_text d) st)))"
  have "updateText d st = run_callback d ?st4" using s by (simp add: updateText_def Let_def)
  then show ?thesis using console_run_callback[of d ?st4] by simp
next
  case False
  then show ?thesis by (auto simp: updateText_def log_def split: option.split)
qed

lemma console_updateChoices:
  "updateChoices d st = Inr st' \<Longrightarrow> \<exists>l. console st' = console st @ l \<and> length l \<le> 1"
  by (auto simp: updateChoices_def Let_def log_def split: option.splits sum.splits if_splits)

lemma console_bridge_step:
  "\<exists>l. console (bridge_step e st) = console st @ l \<and> length l \<le> 2"
proof (cases e)
  case (Inbound m)
  then show ?thesis
    using console_initializeSurvey console_updateText console_updateChoices
    by (cases m) (auto simp: handle_message_def split: sum.split, fastforce+)
next
  case (Ui u)
  then show ?thesis
    by (cases u) (auto simp: user_answer_def user_complete_def split: option.split)
qed

subsection \<open>Properties of runs\<close>

text \<open>
  C30. A run builds at most one Form Engine instance per loadSurvey message:
  the build count, which also numbers the instances, grows by at most the
  number of loads in the run, and no other message or user event builds one.
\<close>

theorem build_count_bound:
  "built (run_events es st) \<le> built st + length (filter is_load es)"
proof (induction es arbitrary: st)
  case (Cons e es)
  show ?case using Cons.IH[of "bridge_step e st"] built_bridge_step[of e st] by (cases "is_load e") simp_all
qed simp

text \<open>
  C31. A session recovers from any state it reaches: the two loads of the
  array \<open>[d]\<close> and then of the definition object \<open>d\<close> end with a live,
  uncompleted instance of \<open>d\<close>'s questions, \<open>d\<close> recorded as the last
  definition, and every question of the new instance showing the answer the
  Value Store held before the two loads.
\<close>

theorem reload_recovers:
  assumes "reachable st"
  shows "\<exists>s. survey (run_events [Inbound (LoadSurvey (JArr [JObj kvs])), Inbound (LoadSurvey (JObj kvs))] st)
               = Some s \<and> \<not> completed s \<and>
             map qname (questions s) = map qname (definition_questions (JObj kvs)) \<and>
             lastLoadedSurveyJSON (run_events [Inbound (LoadSurvey (JArr [JObj kvs])),
               Inbound (LoadSurvey (JObj kvs))] st) = Some (JObj kvs) \<and>
             (\<forall>n\<in>question_names s. question_value s n = stored st n)"
proof -
  let ?st1 = "initializeSurvey (JArr [JObj kvs]) st"
  have r1: "reachable ?st1" using assms by (rule reachable_load)
  have "accepted ?st1 (JObj kvs) (initializeSurvey (JObj kvs) ?st1)"
    using initializeSurvey_accepted[OF load_arr_not_unchanged[OF assms] _ _ reachable_distinct[OF r1]]
    by (simp add: parse_definition_not_string)
  moreover have "stored (preserveQuestionValues ?st1) = stored st"
    using stored_preserve_reachable[OF r1] stored_initializeSurvey_reachable[OF assms] by simp
  ultimately show ?thesis by (auto simp: accepted_def bridge_load simp del: bridge_step.simps)
qed

theorem reload_recovers_witness:
  "\<exists>s. survey (run_events [Inbound (LoadSurvey (JArr [sample_survey])), Inbound (LoadSurvey sample_survey)]
          sample_session) = Some s \<and> \<not> completed s \<and>
       map qname (questions s) = [''q1'', ''q2''] \<and>
       question_value s ''q1'' = Some (JStr ''a'')"
proof -
  have q: "map qname (definition_questions sample_survey) = [''q1'', ''q2'']"
    by code_simp
  have st: "stored sample_session ''q1'' = Some (JStr ''a'')"
    by code_simp
  obtain s where "survey (run_events [Inbound (LoadSurvey (JArr [sample_survey])),
      Inbound (LoadSurvey sample_survey)] sample_session) = Some s" "\<not> completed s"
    "map qname (questions s) = map qname (definition_questions sample_survey)"
    "\<forall>n\<in>question_names s. question_value s n = stored sample_session n"
    using reload_recovers[OF reachable_sample_session, of "[(''questions'', JArr [sample_question ''q1'' ''dropdown'', sample_question ''q2'' ''text''])]"]
    by (auto simp: sample_survey_def sample_definition_def simp del: run_events_Cons)
  moreover have "''q1'' \<in> question_names s" using calculation(3) q by (simp add: question_names_def flip: set_map)
  ultimately show ?thesis using q st by auto
qed

text \<open>
  C32. Two \<open>updateText\<close> messages for different questions may be delivered
  in either order: from any reachable state both orders end in the same
  session, the same last definition, the same stored answers and the same
  completion state.
\<close>

theorem updateText_commute:
  assumes "reachable st" and "tu_target d1 \<noteq> tu_target d2"
  shows "abs_page (run_events [Inbound (UpdateTextMsg d1), Inbound (UpdateTextMsg d2)] st) =
         abs_page (run_events [Inbound (UpdateTextMsg d2), Inbound (UpdateTextMsg d1)] st)"
proof -
  have "abs_page (run_events [Inbound (UpdateTextMsg d1), Inbound (UpdateTextMsg d2)] st) =
        spec_step (Inbound (UpdateTextMsg d2)) (spec_step (Inbound (UpdateTextMsg d1)) (abs_page st))"
    by (rule abs_run_two[OF assms(1)]) simp_all
  moreover have "abs_page (run_events [Inbound (UpdateTextMsg d2), Inbound (UpdateTextMsg d1)] st) =
        spec_step (Inbound (UpdateTextMsg d1)) (spec_step (Inbound (UpdateTextMsg d2)) (abs_page st))"
    by (rule abs_run_two[OF assms(1)]) simp_all
  ultimately show ?thesis by (simp only: spec_step_text_commute[OF assms(2)])
qed

theorem updateText_commute_witness:
  "abs_page (run_events [Inbound (UpdateTextMsg \<lparr>tu_target = ''q1'', tu_text = Some (JStr ''b''), tu_callback = None\<rparr>),
                        Inbound (UpdateTextMsg \<lparr>tu_target = ''q2'', tu_text = Some (JStr ''c''), tu_callback = None\<rparr>)]
             sample_session) =
   abs_page (run_events [Inbound (UpdateTextMsg \<lparr>tu_target = ''q2'', tu_text = Some (JStr ''c''), tu_callback = None\<rparr>),
                        Inbound (UpdateTextMsg \<lparr>tu_target = ''q1'', tu_text = Some (JStr ''b''), tu_callback = None\<rparr>)]
             sample_session)"
  using updateText_commute[OF reachable_sample_session] by simp

text \<open>
  C33. The console only grows, and by at most two entries per event: a run of
  \<open>n\<close> messages and user events appends at most \<open>2 n\<close> lines to it and never
  rewrites an earlier one.
\<close>

theorem console_run_bound:
  "\<exists>l. console (run_events es st) = console st @ l \<and> length l \<le> 2 * length es"
proof (induction es arbitrary: st)
  case (Cons e es)
  obtain l1 where l1: "console (bridge_step e st) = console st @ l1" "length l1 \<le> 2"
    using console_bridge_step by blast
  obtain l2 where l2: "console (run_events es (bridge_step e st)) = console (bridge_step e st) @ l2"
      "length l2 \<le> 2 * length es"
    using Cons.IH by blast
  show ?case using l1 l2 by (intro exI[of _ "l1 @ l2"]) simp
qed simp

end
