(* ===== verification/Lifecycle.thy ===== *)
theory Lifecycle
  imports Session
begin

text \<open>
  The Survey Lifecycle Controller as the two-state machine of the spec
  (section 4.3): \<open>Empty\<close> before the first accepted definition, \<open>Loaded\<close>
  once an instance is live. The only transition is a \<open>loadSurvey\<close> message
  from \<open>Empty\<close> to \<open>Loaded\<close>; every other event leaves the state as it is.
  \<open>lifecycle_of\<close> reads the state of a page off its \<open>survey\<close> variable.
\<close>

datatype lifecycle = Empty | Loaded

definition lifecycle_of :: "page \<Rightarrow> lifecycle" where
  "lifecycle_of st = (case survey st of None \<Rightarrow> Empty | Some _ \<Rightarrow> Loaded)"

inductive lc_step :: "lifecycle \<Rightarrow> event \<Rightarrow> lifecycle \<Rightarrow> bool" where
  stay: "lc_step l e l"
| load: "is_load e \<Longrightarrow> lc_step Empty e Loaded"

lemma lifecycle_of_simps [simp]:
  "survey st = None \<Longrightarrow> lifecycle_of st = Empty"
  "survey st = Some s \<Longrightarrow> lifecycle_of st = Loaded"
  by (simp_all add: lifecycle_of_def)

lemma survey_initializeSurvey_Some:
  "survey st \<noteq> None \<Longrightarrow> survey (initializeSurvey j st) \<noteq> None"
  by (auto simp: initializeSurvey_def initialize_body_def Let_def updateDocumentTitle_def
        preserveQuestionValues_def split: prod.split option.split sum.split if_splits)
     (simp_all flip: not_None_eq)

lemma engine_frame_lifecycle: "engine_frame st st' \<Longrightarrow> lifecycle_of st' = lifecycle_of st"
  by (cases "survey st"; cases "survey st'") (auto simp: lifecycle_of_def engine_frame_def)

lemma lifecycle_ops [simp]:
  "lifecycle_of (render_survey st) = lifecycle_of st"
  "lifecycle_of (set_display n v st) = lifecycle_of st"
  "lifecycle_of (set_question_value n v st) = lifecycle_of st"
  "lifecycle_of (force_control n str evs st) = lifecycle_of st"
  "lifecycle_of (run_callback d st) = lifecycle_of st"
  "lifecycle_of (log e st) = lifecycle_of st"
  "lifecycle_of (map_survey f st) = lifecycle_of st"
  "lifecycle_of (st\<lparr>outbox := ob\<rparr>) = lifecycle_of st"
  "lifecycle_of (st\<lparr>uncaught := u\<rparr>) = lifecycle_of st"
  by (simp_all add: engine_frame_lifecycle render_survey_frame set_display_frame
        set_question_value_frame force_control_frame)
     (simp_all add: lifecycle_of_def map_survey_def split: option.split)

lemma lifecycle_initializeSurvey_Loaded:
  "lifecycle_of st = Loaded \<Longrightarrow> lifecycle_of (initializeSurvey j st) = Loaded"
  using survey_initializeSurvey_Some[of st j] by (auto simp: lifecycle_of_def split: option.splits)

lemma lifecycle_updateText [simp]: "lifecycle_of (updateText d st) = lifecycle_of st"
  by (simp add: updateText_def Let_def split: option.split)

lemma lifecycle_updateChoices:
  "updateChoices d st = Inr st' \<Longrightarrow> lifecycle_of st' = lifecycle_of st"
  by (auto simp: updateChoices_def Let_def split: option.splits sum.splits if_splits)

lemma lifecycle_user_complete [simp]: "lifecycle_of (user_complete st) = lifecycle_of st"
proof (cases "survey st")
  case (Some s)
  obtain ob where "fire_complete (handlers s) (map_survey (\<lambda>s. s\<lparr>completed := True\<rparr>) st)
      = (map_survey (\<lambda>s. s\<lparr>completed := True\<rparr>) st)\<lparr>outbox := ob\<rparr>"
    using fire_complete_outbox by blast
  with Some show ?thesis by (simp add: user_complete_def)
qed (simp add: user_complete_def)

lemma lifecycle_bridge_step_keep:
  "lifecycle_of st = Loaded \<or> \<not> is_load e \<Longrightarrow> lifecycle_of (bridge_step e st) = lifecycle_of st"
proof (cases e)
  case (Inbound m)
  moreover assume "lifecycle_of st = Loaded \<or> \<not> is_load e"
  ultimately show ?thesis
    using lifecycle_initializeSurvey_Loaded lifecycle_updateChoices
    by (cases m) (auto simp: handle_message_def split: sum.split)
next
  case (Ui u)
  then show ?thesis by (cases u) (simp_all add: user_answer_def split: option.split)
qed

text \<open>
  C9. The page follows the controller's two-state machine: every event takes
  the page's lifecycle state along a step of \<open>lc_step\<close>. A loaded page is
  never left without an instance, whatever fails, and an empty page becomes
  loaded only through a \<open>loadSurvey\<close> message.
\<close>

theorem bridge_step_lifecycle: "lc_step (lifecycle_of st) e (lifecycle_of (bridge_step e st))"
proof (cases "lifecycle_of st = Loaded \<or> \<not> is_load e")
  case True
  then show ?thesis using lifecycle_bridge_step_keep[OF True] by (simp add: lc_step.stay)
next
  case False
  then have "lifecycle_of st = Empty" "is_load e" by (cases "lifecycle_of st"; simp)+
  then show ?thesis by (cases "lifecycle_of (bridge_step e st)") (simp_all add: lc_step.intros)
qed

end
