(* ===== verification/Render.thy ===== *)
theory Render
  imports Bridge
begin

text \<open>
  What a render shows. \<open>survey.render()\<close> runs the after-render handler of
  survey.js (lines 100--118) once per question, in order; on a dropdown with
  a stored value the handler writes that value into the question, its
  display value and its control. \<open>q_at st i\<close> is the \<open>i\<close>-th question of
  the live instance. Each run of the handler changes at most the question
  it is run for, so the last write to a dropdown's control is its own
  handler's.
\<close>

definition q_at :: "page \<Rightarrow> nat \<Rightarrow> question option" where
  "q_at st i =
     (case survey st of None \<Rightarrow> None | Some s \<Rightarrow> if i < length (questions s) then Some (questions s ! i) else None)"

lemma stored_Some_iff: "stored st n = Some v \<longleftrightarrow> map_of (questionValues st) n = Some (Some v)"
  by (simp add: stored_def split: option.split)

lemma q_at_set_question_value [simp]: "q_at (set_question_value n v st) i = q_at st i"
  by (cases "survey st") (simp_all add: q_at_def survey_set_question_value)

lemma q_at_map_survey_at:
  "q_at (map_survey (update_question_at j f) st) i = (if i = j then map_option f (q_at st i) else q_at st i)"
  by (cases "survey st") (auto simp: q_at_def update_question_at_def)

lemma q_at_dom_events [simp]: "q_at (st\<lparr>dom_events := e\<rparr>) i = q_at st i"
  by (simp add: q_at_def)

definition shown :: "json \<Rightarrow> control \<Rightarrow> question \<Rightarrow> question" where
  "shown v c q = q\<lparr>qdisplay := Some v,
                   qcontrol := (case c of NoControl \<Rightarrow> qcontrol q | Control _ \<Rightarrow> Control (js_to_string v))\<rparr>"

lemma q_at_dropdown_write:
  "q_at (dropdown_write j n v c st) i = (if i = j then map_option (shown v c) (q_at st i) else q_at st i)"
  by (cases c; cases "q_at st j") (auto simp: dropdown_write_def Let_def q_at_map_survey_at shown_def)

lemma q_at_hook_other:
  "i \<noteq> j \<Longrightarrow> q_at (on_after_render_question j st) i = q_at st i"
  by (cases j st rule: on_after_render_question_cases) (simp_all add: q_at_dropdown_write)

lemma q_at_fire_other:
  "i \<noteq> j \<Longrightarrow> q_at (fire_after_render hs j st) i = q_at st i"
  unfolding fire_after_render_def by (induction hs arbitrary: st) (simp_all add: q_at_hook_other)

lemma q_at_fold_other:
  "i \<notin> set js \<Longrightarrow> q_at (fold (fire_after_render hs) js st) i = q_at st i"
  by (induction js arbitrary: st) (simp_all add: q_at_fire_other)

lemma fire_after_render_std: "fire_after_render std_handlers i st = on_after_render_question i st"
  by (simp add: fire_after_render_def std_handlers_def)

lemma stored_fold_fire [simp]: "stored (fold (fire_after_render hs) js st) = stored st"
  by (induction js arbitrary: st) simp_all

lemma upt_split_at: "i < n \<Longrightarrow> [0..<n] = [0..<i] @ i # [Suc i..<n]"
  using upt_add_eq_append[of 0 i "n - i"] by (simp add: upt_conv_Cons)

lemma render_hook_at:
  assumes s: "survey st = Some s" "handlers s = std_handlers" and i: "i < length (questions s)"
    and dd: "qtype (questions s ! i) = ''dropdown''" and v: "stored st (qname (questions s ! i)) = Some v"
  shows "q_at (render_survey st) i = Some (shown v (qcontrol (questions s ! i)) (questions s ! i))"
proof -
  let ?q = "questions s ! i" and ?n = "length (questions s)"
  let ?st0 = "map_survey (\<lambda>s. s\<lparr>renders := Suc (renders s)\<rparr>) st"
  let ?f = "fire_after_render std_handlers"
  let ?st1 = "fold ?f [0..<i] ?st0"
  have r: "render_survey st = fold ?f [Suc i..<?n] (?f i ?st1)"
    using s upt_split_at[OF i] by (simp add: render_survey_def)
  have "q_at ?st0 i = Some ?q" using s i by (simp add: q_at_def)
  then have q1: "q_at ?st1 i = Some ?q" by (simp add: q_at_fold_other)
  then obtain s1 where s1: "survey ?st1 = Some s1" "i < length (questions s1)" "questions s1 ! i = ?q"
    by (auto simp: q_at_def split: option.splits if_splits)
  have "map_of (questionValues ?st1) (qname ?q) = Some (Some v)"
    using v by (simp add: stored_Some_iff[symmetric])
  then have "?f i ?st1 = dropdown_write i (qname ?q) v (qcontrol ?q) ?st1"
    using s1 dd by (simp add: fire_after_render_std on_after_render_question_def Let_def)
  then have "q_at (?f i ?st1) i = Some (shown v (qcontrol ?q) ?q)"
    using q1 by (simp add: q_at_dropdown_write)
  then show ?thesis unfolding r by (simp add: q_at_fold_other)
qed

subsection \<open>The dropdown after a render\<close>

text \<open>
  C34. After every render in a reachable state, a dropdown question with a
  stored answer shows it: its control holds the answer's string, its
  display value is the answer and the question's value is the answer.
\<close>

theorem render_shows_dropdown:
  assumes "reachable st" and "survey st = Some s" and "i < length (questions s)"
    and "qtype (questions s ! i) = ''dropdown''" and "stored st (qname (questions s ! i)) = Some v"
    and "qcontrol (questions s ! i) = Control c"
  shows "\<exists>s'. survey (render_survey st) = Some s' \<and> qcontrol (questions s' ! i) = Control (js_to_string v) \<and>
              qdisplay (questions s' ! i) = Some v \<and> question_value s' (qname (questions s ! i)) = Some v"
proof -
  have q: "q_at (render_survey st) i = Some (shown v (Control c) (questions s ! i))"
    using render_hook_at[OF assms(2) reachable_page_inv_facts(2)[OF assms(1,2)] assms(3-5)] assms(6) by simp
  then obtain s' where s': "survey (render_survey st) = Some s'" "questions s' ! i = shown v (Control c) (questions s ! i)"
    by (auto simp: q_at_def split: option.splits if_splits)
  have "synced_at (question_names s) (render_survey st)"
    using render_survey_synced reachable_page_inv_facts(6)[OF assms(1,2)] by blast
  moreover have "qname (questions s ! i) \<in> question_names s"
    using assms(3) by (simp add: question_names_def)
  ultimately have "question_value s' (qname (questions s ! i)) = Some v"
    using s'(1) assms(5) by (auto simp: synced_at_def)
  then show ?thesis using s' by (simp add: shown_def)
qed

theorem render_shows_dropdown_witness:
  "\<exists>s'. survey (render_survey sample_session) = Some s' \<and> qcontrol (questions s' ! 0) = Control ''a'' \<and>
        qdisplay (questions s' ! 0) = Some (JStr ''a'') \<and> question_value s' ''q1'' = Some (JStr ''a'')"
proof -
  have q: "questions (the (survey sample_session)) ! 0 =
      \<lparr>qname = ''q1'', qtype = ''dropdown'', qchoices = [], qdisplay = None, qcontrol = Control []\<rparr>"
    by code_simp
  have n: "0 < length (questions (the (survey sample_session)))" by code_simp
  have st: "stored sample_session ''q1'' = Some (JStr ''a'')" by code_simp
  show ?thesis
    using render_shows_dropdown[OF reachable_sample_session, of "the (survey sample_session)" 0 "JStr ''a''" "[]"]
      sample_session_live q n st by simp
qed

end
