(* ===== verification/Scripts.thy ===== *)
theory Scripts
  imports Refinement Legacy JsonRoundtrip
begin

text \<open>
  The two scripts side by side. A run of the two message kinds the legacy
  script handles (\<open>loadSurvey\<close>, \<open>updateChoices\<close>) is delivered to both;
  \<open>live_names\<close> is the set of question names of the live instance. The
  relation \<open>scripts_agree\<close> between a page of \<open>survey.js\<close> and a page of
  \<open>_survey.js\<close> says the first is reachable, its last definition is a
  well-formed value that is not a string, and both show instances with the
  same questions.
\<close>

fun legacy_event :: "legacy_inbound \<Rightarrow> event" where
  "legacy_event (LegacyLoadSurvey j) = Inbound (LoadSurvey j)"
| "legacy_event (LegacyUpdateChoices d) = Inbound (UpdateChoicesMsg d)"

fun is_jstr :: "json \<Rightarrow> bool" where
  "is_jstr (JStr _) = True"
| "is_jstr _ = False"

text \<open>
  A load both scripts treat alike: it fails to parse, or its definition is
  well formed, not \<open>null\<close> (which \<open>survey.js\<close> rejects in
  \<open>updateDocumentTitle\<close> and \<open>_survey.js\<close> builds an empty survey from) and
  not a string (which \<open>survey.js\<close> would compare unparsed with the next text
  it receives, and which the Form Engine model builds with no questions,
  where SurveyJS may parse a string argument itself).
\<close>

fun plain_message :: "legacy_inbound \<Rightarrow> bool" where
  "plain_message (LegacyLoadSurvey j) =
     (case parse_definition j of Inl _ \<Rightarrow> True | Inr d \<Rightarrow> d \<noteq> JNull \<and> json_wf d \<and> \<not> is_jstr d)"
| "plain_message (LegacyUpdateChoices _) = True"

definition live_names :: "page \<Rightarrow> string set option" where
  "live_names st = map_option question_names (survey st)"

definition scripts_agree :: "page \<Rightarrow> page \<Rightarrow> bool" where
  "scripts_agree st lt \<longleftrightarrow>
     reachable st \<and> (\<forall>l. lastLoadedSurveyJSON st = Some l \<longrightarrow> json_wf l \<and> \<not> is_jstr l) \<and>
     live_names st = live_names lt"

subsection \<open>What keeps the questions\<close>

lemma engine_frame_live_names: "engine_frame st st' \<Longrightarrow> live_names st' = live_names st"
  by (cases "survey st") (auto simp: live_names_def dest: engine_frame_survey engine_frame_survey_None)

lemma live_names_ops [simp]:
  "live_names (render_survey st) = live_names st"
  "live_names (set_display n v st) = live_names st"
  "live_names (set_question_value n v st) = live_names st"
  "live_names (force_control n str evs st) = live_names st"
  "live_names (log e st) = live_names st"
  "live_names (st\<lparr>uncaught := u\<rparr>) = live_names st"
  "live_names (st\<lparr>container := c\<rparr>) = live_names st"
  by (simp_all add: engine_frame_live_names render_survey_frame set_display_frame
        set_question_value_frame force_control_frame)
     (simp_all add: live_names_def log_def)

lemma live_names_map_survey [simp]:
  "(\<And>s. question_names (f s) = question_names s) \<Longrightarrow> live_names (map_survey f st) = live_names st"
  by (cases "survey st") (simp_all add: live_names_def)

lemma live_names_updateChoices:
  "updateChoices d st = Inr st' \<Longrightarrow> live_names st' = live_names st"
  by (auto simp: updateChoices_def Let_def split: option.splits sum.splits if_splits)

lemma live_names_legacy_updateChoices:
  "legacy_updateChoices d st = Inr st' \<Longrightarrow> live_names st' = live_names st"
  by (auto simp: legacy_updateChoices_def split: option.splits json.splits)

lemma live_names_legacy_load:
  assumes "parse_definition j = Inr d"
  shows "live_names (legacy_initializeSurvey j st) = Some (definition_names d)"
proof -
  have "live_names (st\<lparr>survey := Some (survey_of_json (built st) d), built := Suc (built st)\<rparr>) =
        Some (definition_names d)"
    by (simp add: live_names_def question_names_def definition_names_def survey_of_json_def)
  then show ?thesis
    using assms by (simp add: legacy_initializeSurvey_def bind_container_def question_names_def)
qed

lemma reachable_live_names:
  "reachable st \<Longrightarrow> lastLoadedSurveyJSON st = Some l \<Longrightarrow> live_names st = Some (definition_names l)"
  using reachable_inv[of st] by (auto simp: page_inv_def live_names_def split: option.splits)

lemma accepted_live_names:
  "accepted st d st' \<Longrightarrow> live_names st' = Some (definition_names d)"
  by (auto simp: accepted_def live_names_def question_names_def definition_names_def dest: names_eq_map)

lemma live_names_preserve [simp]: "live_names (preserveQuestionValues st) = live_names st"
  by (simp add: engine_frame_live_names preserveQuestionValues_frame)

lemma skip_same_definition:
  assumes "is_unchanged st j" and "parse_definition j = Inr d" and "json_wf d" and "\<not> is_jstr d"
    and "lastLoadedSurveyJSON st = Some l" and "json_wf l" and "\<not> is_jstr l"
  shows "l = d"
proof (cases "\<exists>t. j = JStr t")
  case True
  then obtain t where jt: "j = JStr t" by blast
  have "json_stringify l = json_stringify (JStr t)"
    using assms(1,5) jt by (simp add: is_unchanged_def areJSONsEqual_def)
  then have "l = JStr t" using stringify_inj[OF assms(6)] by simp
  then show ?thesis using assms(7) by simp
next
  case False
  then have "d = j" using assms(2) parse_definition_not_string by simp
  moreover have "json_stringify l = json_stringify j"
    using assms(1,5) by (simp add: is_unchanged_def areJSONsEqual_def)
  ultimately show ?thesis using stringify_inj[OF assms(6,3)] by simp
qed

lemma agree_load:
  assumes ag: "scripts_agree st lt" and pm: "plain_message (LegacyLoadSurvey j)"
  shows "scripts_agree (initializeSurvey j st) (legacy_initializeSurvey j lt)"
proof -
  have r: "reachable st" and inv: "\<forall>l. lastLoadedSurveyJSON st = Some l \<longrightarrow> json_wf l \<and> \<not> is_jstr l"
    and eq: "live_names st = live_names lt" using ag by (simp_all add: scripts_agree_def)
  have r': "reachable (initializeSurvey j st)" using r by (metis bridge_load reachable.step)
  show ?thesis
  proof (cases "parse_definition j")
    case (Inl e)
    have "live_names (initializeSurvey j st) = live_names st \<and>
          lastLoadedSurveyJSON (initializeSurvey j st) = lastLoadedSurveyJSON st"
      using Inl preserveQuestionValues_frame[of st]
      by (cases "is_unchanged st j") (simp_all add: initializeSurvey_skip initializeSurvey_error engine_frame_def)
    then show ?thesis using r' inv eq Inl by (simp add: scripts_agree_def legacy_initializeSurvey_def)
  next
    case (Inr d)
    then have d: "d \<noteq> JNull" "json_wf d" "\<not> is_jstr d" using pm by simp_all
    show ?thesis
    proof (cases "is_unchanged st j")
      case True
      then obtain l where l: "lastLoadedSurveyJSON st = Some l"
        by (cases "lastLoadedSurveyJSON st") (simp_all add: is_unchanged_def)
      then have "l = d" using skip_same_definition[OF True Inr d(2,3) l] inv by blast
      then show ?thesis
        using True r' inv l reachable_live_names[OF r l] live_names_legacy_load[OF Inr]
        by (simp add: scripts_agree_def initializeSurvey_skip)
    next
      case False
      then have "accepted st d (initializeSurvey j st)"
        using initializeSurvey_accepted[OF False Inr d(1) reachable_distinct[OF r]] by blast
      then show ?thesis
        using r' d accepted_live_names live_names_legacy_load[OF Inr]
        by (simp add: scripts_agree_def accepted_def)
    qed
  qed
qed

lemma agree_choices:
  assumes "scripts_agree st lt"
  shows "scripts_agree (bridge_step (Inbound (UpdateChoicesMsg d)) st) (legacy_step (LegacyUpdateChoices d) lt)"
proof -
  have r: "reachable st" using assms by (simp add: scripts_agree_def)
  have "live_names (bridge_step (Inbound (UpdateChoicesMsg d)) st) = live_names st \<and>
        lastLoadedSurveyJSON (bridge_step (Inbound (UpdateChoicesMsg d)) st) = lastLoadedSurveyJSON st"
  proof (cases "updateChoices d st")
    case (Inr st')
    have "sess_def (abs_page st') = sess_def (abs_page st)" using abs_updateChoices[OF r Inr] by simp
    then show ?thesis using Inr live_names_updateChoices[OF Inr] by (simp add: handle_message_def abs_page_def)
  qed (simp add: handle_message_def live_names_def)
  moreover have "live_names (legacy_step (LegacyUpdateChoices d) lt) = live_names lt"
    using live_names_legacy_updateChoices by (simp add: live_names_def split: sum.split)
  moreover have "reachable (bridge_step (Inbound (UpdateChoicesMsg d)) st)" by (rule reachable.step[OF r])
  ultimately show ?thesis using assms
    unfolding scripts_agree_def by (simp del: bridge_step.simps legacy_step.simps)
qed

lemma agree_run:
  "scripts_agree st lt \<Longrightarrow> \<forall>m\<in>set ms. plain_message m \<Longrightarrow>
   scripts_agree (run_events (map legacy_event ms) st) (fold legacy_step ms lt)"
proof (induction ms arbitrary: st lt)
  case (Cons m ms)
  have "scripts_agree (bridge_step (legacy_event m) st) (legacy_step m lt)"
  proof (cases m)
    case (LegacyLoadSurvey j)
    then have "plain_message (LegacyLoadSurvey j)" using Cons.prems(2) by simp
    then show ?thesis using agree_load[OF Cons.prems(1)] LegacyLoadSurvey
      by (simp only: legacy_event.simps legacy_step.simps bridge_load)
  next
    case (LegacyUpdateChoices d)
    then show ?thesis using agree_choices[OF Cons.prems(1)] by simp
  qed
  then show ?case using Cons.IH Cons.prems(2) by (simp add: run_events_def)
qed (simp add: run_events_def)

lemma scripts_agree_init: "scripts_agree init_page init_page"
  using reachable.init by (simp add: scripts_agree_def init_page_def)

subsection \<open>The two scripts on the same messages\<close>

text \<open>
  C35. On every run of \<open>loadSurvey\<close> and \<open>updateChoices\<close> messages whose
  definitions are well formed and neither \<open>null\<close> nor a string,
  \<open>survey.js\<close> and the legacy \<open>_survey.js\<close> show instances with the same
  questions after every message: the skip test, the Value Store and the
  label transform of \<open>survey.js\<close> never change which questions are shown.
\<close>

theorem scripts_same_questions:
  assumes "\<forall>m\<in>set ms. plain_message m"
  shows "live_names (run_events (map legacy_event ms) init_page) = live_names (fold legacy_step ms init_page)"
  using agree_run[OF scripts_agree_init assms] by (simp add: scripts_agree_def)

theorem scripts_same_questions_witness:
  "plain_message (LegacyLoadSurvey sample_survey) \<and>
   plain_message (LegacyUpdateChoices \<lparr>cu_target = ''q1'', cu_choices = JArr [JStr ''x_y'']\<rparr>) \<and>
   live_names (run_events (map legacy_event [LegacyLoadSurvey sample_survey,
       LegacyUpdateChoices \<lparr>cu_target = ''q1'', cu_choices = JArr [JStr ''x_y'']\<rparr>, LegacyLoadSurvey sample_survey])
       init_page) =
   live_names (fold legacy_step [LegacyLoadSurvey sample_survey,
       LegacyUpdateChoices \<lparr>cu_target = ''q1'', cu_choices = JArr [JStr ''x_y'']\<rparr>, LegacyLoadSurvey sample_survey]
       init_page)"
proof -
  have p: "plain_message (LegacyLoadSurvey sample_survey)" by code_simp
  then show ?thesis
    using scripts_same_questions[of "[LegacyLoadSurvey sample_survey,
       LegacyUpdateChoices \<lparr>cu_target = ''q1'', cu_choices = JArr [JStr ''x_y'']\<rparr>, LegacyLoadSurvey sample_survey]"]
    by simp
qed

lemma live_names_initializeSurvey_null:
  assumes "parse_definition j = Inr JNull"
  shows "live_names (initializeSurvey j st) = live_names st"
proof (cases "is_unchanged st j")
  case True
  then show ?thesis by (simp add: initializeSurvey_skip)
next
  case False
  then show ?thesis using assms by (simp add: initializeSurvey_error)
qed

lemma definition_names_null [simp]: "definition_names JNull = {}"
  by (simp add: definition_names_def definition_questions_def definition_elements_def elements_of_def
                js_get_def List.map_filter_def)

text \<open>
  C36. A definition that is \<open>null\<close> (sent as the value or as the text
  \<open>null\<close>) is where the scripts part, whatever state each page is in:
  \<open>survey.js\<close> keeps showing the questions it showed, because
  \<open>updateDocumentTitle\<close> reads \<open>null.title\<close> and throws before anything is
  built, while \<open>_survey.js\<close> builds and shows an instance with no questions.
\<close>

theorem load_null_parts_scripts:
  assumes "parse_definition j = Inr JNull"
  shows "live_names (bridge_step (Inbound (LoadSurvey j)) st) = live_names st \<and>
         live_names (legacy_step (LegacyLoadSurvey j) lt) = Some {}"
  using live_names_initializeSurvey_null[OF assms] live_names_legacy_load[OF assms]
  by (simp add: handle_message_def)

theorem load_null_parts_scripts_witness:
  "parse_definition (JStr ''null'') = Inr JNull \<and>
   live_names (bridge_step (Inbound (LoadSurvey (JStr ''null''))) sample_session) = live_names sample_session \<and>
   live_names (legacy_step (LegacyLoadSurvey (JStr ''null'')) legacy_sample) = Some {}"
proof -
  have h: "parse_definition (JStr ''null'') = Inr JNull" by code_simp
  then show ?thesis using load_null_parts_scripts[OF h] by blast
qed

end
