(* ===== verification/Spec2Isabelle.thy ===== *)
theory Spec2Isabelle
  imports Legacy JsonRoundtrip Lifecycle Render Scripts
begin

text \<open>
  \<^bold>\<open>A verification development of ShinySurveyJS.\<close>
  The repository's browser logic is \<open>src/www/survey.js\<close>, a jQuery-ready
  closure that keeps one SurveyJS instance (\<open>survey\<close>), the last accepted
  definition (\<open>lastLoadedSurveyJSON\<close>) and a Value Store of answers
  (\<open>questionValues\<close>), and answers three Shiny messages: \<open>loadSurvey\<close>
  (\<open>initializeSurvey\<close>, lines 44--132), \<open>updateText\<close> (134--181) and
  \<open>updateChoices\<close> (183--219). The instance reports answers and completion
  through handlers that write the store and call \<open>Shiny.setInputValue\<close>.
  \<open>src/www/_survey.js\<close> is the superseded variant with no store.

  \<^bold>\<open>Theories.\<close>
  \<^item> \<open>Prelude\<close>: JavaScript \<open>Map\<close> as an association list (\<open>jsmap\<close>;
    \<open>set\<close> is \<open>AList.update\<close>, \<open>get\<close> is \<open>map_of\<close>) and its lemmas.
  \<^item> \<open>Json\<close>: the \<open>json\<close> datatype, truthiness, property access,
    \<open>String(\<dots>)\<close>, \<open>JSON.stringify\<close> (\<open>json_stringify\<close>) and
    \<open>areJSONsEqual\<close> (lines 6--8). \<open>JsonParse\<close>: \<open>JSON.parse\<close>
    (\<open>json_parse\<close>) by recursive descent with fuel.
  \<^item> \<open>FormEngine\<close>: the part of the SurveyJS contract the code uses, from the
    spec: \<open>survey_of_json\<close> is \<open>new Survey.Model\<close>, \<open>getQuestionByName\<close>,
    the value hash behind \<open>question.value\<close>, question updates.
  \<^item> \<open>Page\<close>: the page state \<open>page\<close> (the closure variables, plus the
    title, the container, the console, the values sent to Shiny, the DOM
    events dispatched and the exceptions that escape a handler); the three
    handlers of lines 79--118 (\<open>on_complete\<close>, \<open>on_value_changed\<close>,
    \<open>on_after_render_question\<close>); \<open>set_question_value\<close> (an assignment
    to \<open>question.value\<close>, firing the value-changed handlers on a change) and
    \<open>render_survey\<close> (\<open>survey.render()\<close>, firing the after-render handlers
    per question). \<open>engine_frame\<close> says what these operations keep, and
    \<open>synced_at\<close> that the store agrees with the live values.
  \<^item> \<open>ValueStore\<close>: \<open>preserveQuestionValues\<close> (lines 10--19) and
    \<open>restoreQuestionValues\<close> (21--35).
  \<^item> \<open>Controller\<close>: \<open>updateDocumentTitle\<close> (37--42) and
    \<open>initializeSurvey\<close>; its \<open>try\<close> block is \<open>initialize_body\<close>, which
    returns the state and the exception that stopped it, because the
    preserve step before a throw persists; \<open>accepted\<close> describes an
    accepted load.
  \<^item> \<open>Mutators\<close>: \<open>updateText\<close> and \<open>updateChoices\<close>, with every guard and
    early return; a throw out of \<open>updateChoices\<close> is the \<open>Inl\<close> of its result.
  \<^item> \<open>Bridge\<close>: the message dispatch \<open>handle_message\<close>, the respondent's
    events (\<open>user_answer\<close>, \<open>user_complete\<close>, from the SurveyJS contract),
    \<open>bridge_step\<close> (one event run to completion, in delivery order, as the
    single-threaded page runs it), the inductive set \<open>reachable\<close> of session
    states and the invariant \<open>page_inv\<close>.
  \<^item> \<open>Legacy\<close>: \<open>_survey.js\<close> (\<open>legacy_initializeSurvey\<close>,
    \<open>legacy_updateChoices\<close>, \<open>legacy_step\<close>) over the same page state.
  \<^item> \<open>JsonFuel\<close>: every call of the parser consumes input
    (\<open>parse_length\<close>), so a successful parse needs no more fuel than the
    text it consumes (\<open>parse_fuel\<close>) and any fuel above the length of the
    text gives the same result (\<open>parse_value_fuel_enough\<close>).
  \<^item> \<open>JsonRoundtrip\<close>: \<open>json_wf\<close> (objects with distinct keys, which
    \<open>JSON.parse\<close> produces) and \<open>JSON.parse (JSON.stringify v) = v\<close> for
    every such value, hence \<open>JSON.stringify\<close> is injective on them.
  \<^item> \<open>Refinement\<close>: the contract of a session, \<open>spec_step\<close> on a
    \<open>session\<close> record (last accepted definition, answers, completion), and
    the abstraction \<open>abs_page\<close> of a page to it.
  \<^item> \<open>Session\<close>: properties of whole runs (\<open>run_events\<close>): builds per
    load, recovery by reloading, the order of independent messages, and the
    console output of a run.
  \<^item> \<open>Lifecycle\<close>: the controller's two states of the spec (section 4.3),
    \<open>Empty\<close> and \<open>Loaded\<close>, as the inductive step relation \<open>lc_step\<close>, and
    \<open>lifecycle_of\<close>, which reads the state off the page.
  \<^item> \<open>Render\<close>: what a render shows: \<open>q_at\<close> reads the \<open>i\<close>-th question,
    and each after-render handler changes only its own question.
  \<^item> \<open>Scripts\<close>: the two scripts on the same messages (\<open>legacy_event\<close>
    sends a legacy message to \<open>survey.js\<close>), the simulation relation
    \<open>scripts_agree\<close> and \<open>live_names\<close>, the questions an instance shows.
  \<^item> This theory: the comparison of the two scripts, and the JSON laws
    read at the level of \<open>initializeSurvey\<close>.

  \<^bold>\<open>What is proved.\<close>
  Per operation: the behaviour of each branch, errors included (C1, C2, C7,
  C12, C13, C15, C16, C20--C22). Per session, by rule induction on
  \<open>reachable\<close>: \<open>page_inv\<close> holds in every reachable state, hence the store
  equals the live value of every question (C3), the live instance is the one
  bound to the container, the last built, with the questions of the last
  definition and exactly three handlers (C5); a load never changes a stored
  answer (C4) and shows the stored answers (C14); no event deletes a store
  key (C19); for target names that are valid selector values the only
  exception that escapes is the \<open>TypeError\<close> of \<open>updateChoices\<close> (C10);
  answers and completion are sent once (C17, C18); text that is not JSON
  leaves the session as it was (C11). Every event is a step of the
  two-state lifecycle: a loaded page never loses its instance and only a
  load leaves the empty state (C9). C6 is the refinement: on reachable
  states \<open>abs_page (bridge_step e st) = spec_step e (abs_page st)\<close> for
  every event but a definition sent as text (whose skip test compares a
  string with an object, C8), lifted to runs. For \<open>_survey.js\<close>:
  C23--C25; across the two: C26. The JSON laws at the level of the
  controller: a serialized definition reads back as itself (C27),
  \<open>areJSONsEqual\<close> is equality on well-formed values (C28), so the skip
  test fires exactly on a truthy, equal definition (C29). Over runs: at most
  one instance is built per \<open>loadSurvey\<close> (C30); from every reachable state
  two loads recover a live instance of a chosen definition that shows the
  stored answers (C31); two \<open>updateText\<close> messages on different questions
  commute (C32); a run of \<open>n\<close> events appends at most \<open>2 n\<close> console lines
  (C33). After every render a dropdown with a stored answer shows it in its
  control, display value and value (C34). Across the two scripts: on every
  run of the shared message kinds with well-formed definitions that are
  neither \<open>null\<close> nor strings, both show the same questions after every
  message (C35); a \<open>null\<close> definition, in any state, keeps the old
  questions in \<open>survey.js\<close> and empties the legacy page (C36). C7, C8 and
  C21 record where the code departs from the spec (see the findings of the
  manifest): a stale value survives \<open>updateChoices\<close>, a definition sent as
  text is always rebuilt, and \<open>updateChoices\<close> throws on a payload that is
  not an array of strings.

  \<^bold>\<open>Bounds.\<close> \<open>json_parse\<close> runs \<open>parse_value\<close> with fuel one more than
  the length of the text. Every nested call consumes a character, so this
  fuel is enough: the lemma \<open>parse_value_fuel_enough\<close> proves that any
  larger fuel gives the same result, so the bound never cuts a parse short.
  Every other operation is structurally recursive or a fold over a finite
  list; no bound is needed.

  \<^bold>\<open>Not modelled.\<close> Rendering, the DOM and jQuery beyond the value of the
  control found and the events dispatched to it: the \<open>querySelector\<close>
  fallback is taken not to throw, which holds for target names without a
  quote, backslash or line break (\<open>selector_safe\<close>), and C10 is stated for
  those names only. SurveyJS beyond the contract above (validation, page
  navigation, the rendered widgets); in particular \<open>survey_of_json\<close>
  builds no questions from a definition that is a string, where SurveyJS
  may parse it, so no property relies on string definitions. Numbers with a
  fraction or an exponent: the parser model rejects them, so C11 is stated
  for texts in which no digit is followed by \<open>.\<close>, \<open>e\<close> or \<open>E\<close>
  (\<open>fraction_mark\<close>). The Shiny transport, which is the outbox of values
  sent. A callback of \<open>updateText\<close> that re-enters the page, which is
  modelled as returning or throwing without effect on the state; a JSON
  message cannot carry a function.
\<close>

lemma underscores_to_spaces_id: "CHR ''_'' \<notin> set c \<Longrightarrow> underscores_to_spaces c = c"
  by (induction c) (auto simp: underscores_to_spaces_def)

lemma choice_items_legacy:
  "\<forall>c\<in>set cs. CHR ''_'' \<notin> set c \<Longrightarrow>
   choice_items cs = map (\<lambda>c. \<lparr>cvalue = c, ctext = c\<rparr>) (map JStr cs)"
  by (induction cs) (simp_all add: choice_items_def underscores_to_spaces_id)

text \<open>
  C26. On choices that contain no underscore, the current \<open>updateChoices\<close>
  of \<open>survey.js\<close> and the legacy one of \<open>_survey.js\<close> give the target
  question the same choice list: the label transform is the only difference
  between the two.
\<close>

theorem updateChoices_refines_legacy:
  assumes "survey st = Some s" and "cu_target d \<in> question_names s"
    and "cu_choices d = JArr (map JStr cs)" and "\<forall>c\<in>set cs. CHR ''_'' \<notin> set c"
  shows "\<exists>st1 st2 s1 s2 q1 q2. updateChoices d st = Inr st1 \<and> legacy_updateChoices d st = Inr st2 \<and>
           survey st1 = Some s1 \<and> survey st2 = Some s2 \<and>
           getQuestionByName s1 (cu_target d) = Some q1 \<and> getQuestionByName s2 (cu_target d) = Some q2 \<and>
           qchoices q1 = qchoices q2"
  using updateChoices_choices[OF assms(1-3)] legacy_updateChoices_choices[OF assms(1-3)]
    choice_items_legacy[OF assms(4)]
  by fastforce

theorem updateChoices_refines_legacy_witness:
  "survey (sample_page ''dropdown'' None) = Some (the (survey (sample_page ''dropdown'' None))) \<and>
   cu_target \<lparr>cu_target = ''q1'', cu_choices = JArr (map JStr [''a'', ''b''])\<rparr>
     \<in> question_names (the (survey (sample_page ''dropdown'' None))) \<and>
   cu_choices \<lparr>cu_target = ''q1'', cu_choices = JArr (map JStr [''a'', ''b''])\<rparr> = JArr (map JStr [''a'', ''b'']) \<and>
   CHR ''_'' \<notin> set ''a'' \<and> CHR ''_'' \<notin> set ''b'' \<and>
   (\<exists>st1 st2 s1 s2 q1 q2.
      updateChoices \<lparr>cu_target = ''q1'', cu_choices = JArr (map JStr [''a'', ''b''])\<rparr> (sample_page ''dropdown'' None) = Inr st1 \<and>
      legacy_updateChoices \<lparr>cu_target = ''q1'', cu_choices = JArr (map JStr [''a'', ''b''])\<rparr> (sample_page ''dropdown'' None) = Inr st2 \<and>
      survey st1 = Some s1 \<and> survey st2 = Some s2 \<and>
      getQuestionByName s1 ''q1'' = Some q1 \<and> getQuestionByName s2 ''q1'' = Some q2 \<and>
      qchoices q1 = qchoices q2)"
proof -
  have h: "survey (sample_page ''dropdown'' None) = Some (the (survey (sample_page ''dropdown'' None))) \<and>
           ''q1'' \<in> question_names (the (survey (sample_page ''dropdown'' None)))" by code_simp
  then show ?thesis
    using updateChoices_refines_legacy[of "sample_page ''dropdown'' None" "the (survey (sample_page ''dropdown'' None))"
        "\<lparr>cu_target = ''q1'', cu_choices = JArr (map JStr [''a'', ''b''])\<rparr>" "[''a'', ''b'']"]
    by simp
qed

text \<open>
  C27. A definition sent as the JSON text of a well-formed value is received
  by \<open>initializeSurvey\<close> as that value.
\<close>

theorem parse_definition_stringify: "json_wf d \<Longrightarrow> parse_definition (JStr (json_stringify d)) = Inr d"
  by (simp add: parse_definition_def json_parse_stringify)

theorem parse_definition_stringify_witness:
  "json_wf sample_survey \<and> parse_definition (JStr (json_stringify sample_survey)) = Inr sample_survey"
proof -
  have h: "json_wf sample_survey" by code_simp
  then show ?thesis using parse_definition_stringify[OF h] by blast
qed

text \<open>
  C29. For well-formed definitions, the skip test of \<open>initializeSurvey\<close>
  (line 46) holds exactly when the incoming definition is the last accepted
  one and that one is truthy: the serialization comparison of the change
  detector is structural equality.
\<close>

theorem is_unchanged_iff_same:
  assumes "lastLoadedSurveyJSON st = Some l" and "json_wf l" and "json_wf j"
  shows "is_unchanged st j \<longleftrightarrow> js_truthy l \<and> j = l"
  using assms stringify_inj[of l j] by (auto simp: is_unchanged_def areJSONsEqual_def)

theorem is_unchanged_iff_same_witness:
  "lastLoadedSurveyJSON sample_session = Some sample_survey \<and> json_wf sample_survey \<and>
   json_wf (sample_definition [sample_question ''q1'' ''dropdown'']) \<and>
   (is_unchanged sample_session (sample_definition [sample_question ''q1'' ''dropdown'']) \<longleftrightarrow>
    js_truthy sample_survey \<and> sample_definition [sample_question ''q1'' ''dropdown''] = sample_survey)"
proof -
  have h: "lastLoadedSurveyJSON sample_session = Some sample_survey \<and> json_wf sample_survey \<and>
           json_wf (sample_definition [sample_question ''q1'' ''dropdown''])" by code_simp
  then show ?thesis
    using is_unchanged_iff_same[of sample_session sample_survey "sample_definition [sample_question ''q1'' ''dropdown'']"]
    by blast
qed

end
